theory Spec2Isabelle
  imports Complex_Main "HOL-Library.Word" "HOL-Library.Sublist"
begin

section \<open>Errors and tensors\<close>

text \<open>
  The exceptions the program and the tensor library raise. A shape, broadcast or view
  mismatch is a \<open>RuntimeError\<close>, an embedding index out of range an \<open>IndexError\<close>,
  a failed \<open>assert\<close> an \<open>AssertionError\<close>, \<open>%\<close> by zero a \<open>ZeroDivisionError\<close>.
\<close>

datatype error = RuntimeError | IndexError | AssertionError | ZeroDivisionError
  | FileNotFoundError | IsADirectoryError | KeyError | TypeError | ValueError | UnpicklingError

definition ebind :: "error + 'a \<Rightarrow> ('a \<Rightarrow> error + 'b) \<Rightarrow> error + 'b" where
  "ebind m f = (case m of Inl e \<Rightarrow> Inl e | Inr x \<Rightarrow> f x)"

text \<open>
  A tensor is its shape and its elements by index. Floating-point elements are idealised
  as reals: rounding, overflow, infinities and NaN are outside the model (the one
  infinity the program writes itself, the \<open>-inf\<close> of \<open>masked_fill\<close>, is modelled
  where it occurs).
\<close>

record 'a tensor =
  shape :: "nat list"
  elem :: "nat list \<Rightarrow> 'a"

definition in_range :: "nat list \<Rightarrow> nat list \<Rightarrow> bool" where
  "in_range idx s = list_all2 (<) idx s"

definition map_tensor :: "('a \<Rightarrow> 'b) \<Rightarrow> 'a tensor \<Rightarrow> 'b tensor" where
  "map_tensor f t = \<lparr>shape = shape t, elem = (\<lambda>idx. f (elem t idx))\<rparr>"

definition tolist2 :: "'a tensor \<Rightarrow> 'a list list" where
  "tolist2 t = map (\<lambda>i. map (\<lambda>j. elem t [i, j]) [0..<shape t ! 1]) [0..<shape t ! 0]"

subsection \<open>Broadcasting\<close>

fun bdim :: "nat \<Rightarrow> nat \<Rightarrow> error + nat" where
  "bdim a b = (if a = b then Inr a else if a = 1 then Inr b else if b = 1 then Inr a
               else Inl RuntimeError)"

fun broadcast_dims :: "nat list \<Rightarrow> nat list \<Rightarrow> error + nat list" where
  "broadcast_dims [] [] = Inr []"
| "broadcast_dims (a # as) (b # bs) =
     ebind (bdim a b) (\<lambda>d. ebind (broadcast_dims as bs) (\<lambda>ds. Inr (d # ds)))"
| "broadcast_dims _ _ = Inl RuntimeError"

definition pad_left :: "nat \<Rightarrow> nat list \<Rightarrow> nat list" where
  "pad_left r s = replicate (r - length s) 1 @ s"

definition broadcast_shapes :: "nat list \<Rightarrow> nat list \<Rightarrow> error + nat list" where
  "broadcast_shapes a b =
     (let r = max (length a) (length b) in broadcast_dims (pad_left r a) (pad_left r b))"

definition expandable :: "nat list \<Rightarrow> nat list \<Rightarrow> bool" where
  "expandable s target \<longleftrightarrow>
     length s \<le> length target \<and>
     list_all2 (\<lambda>d e. d = e \<or> d = 1) s (drop (length target - length s) target)"

definition broadcast_index :: "nat list \<Rightarrow> nat list \<Rightarrow> nat list" where
  "broadcast_index s idx =
     map2 (\<lambda>d i. if d = 1 then 0 else i) s (drop (length idx - length s) idx)"

definition expand :: "'a tensor \<Rightarrow> nat list \<Rightarrow> error + 'a tensor" where
  "expand t target =
     (if expandable (shape t) target
      then Inr \<lparr>shape = target,
                elem = (\<lambda>idx. elem t (broadcast_index (shape t) idx))\<rparr>
      else Inl RuntimeError)"

text \<open>\<open>a op b\<close> on tensors: both operands are expanded to the broadcast shape.\<close>

definition broadcast2 :: "('a \<Rightarrow> 'b \<Rightarrow> 'c) \<Rightarrow> 'a tensor \<Rightarrow> 'b tensor \<Rightarrow> error + 'c tensor" where
  "broadcast2 f a b =
     ebind (broadcast_shapes (shape a) (shape b)) (\<lambda>s.
     ebind (expand a s) (\<lambda>a'.
     ebind (expand b s) (\<lambda>b'.
     Inr \<lparr>shape = s, elem = (\<lambda>idx. f (elem a' idx) (elem b' idx))\<rparr>)))"

text \<open>
  \<open>x op= y\<close> in place: the result keeps the shape of \<open>x\<close>, so \<open>y\<close> has to expand to it.
\<close>

definition inplace2 :: "('a \<Rightarrow> 'b \<Rightarrow> 'a) \<Rightarrow> 'a tensor \<Rightarrow> 'b tensor \<Rightarrow> error + 'a tensor" where
  "inplace2 f x y =
     ebind (expand y (shape x)) (\<lambda>y'.
     Inr \<lparr>shape = shape x, elem = (\<lambda>idx. f (elem x idx) (elem y' idx))\<rparr>)"

subsection \<open>Constructors and views\<close>

definition torch_ones :: "nat list \<Rightarrow> real tensor" where
  "torch_ones s = \<lparr>shape = s, elem = (\<lambda>idx. 1)\<rparr>"

text \<open>\<open>torch.empty\<close>: the contents are whatever the memory held.\<close>

definition torch_empty :: "nat list \<Rightarrow> real tensor" where
  "torch_empty s = \<lparr>shape = s, elem = (\<lambda>idx. undefined)\<rparr>"

definition slice_len :: "nat \<Rightarrow> nat \<Rightarrow> nat \<Rightarrow> nat" where
  "slice_len start step n = (n - start + (step - 1)) div step"

definition torch_arange :: "nat \<Rightarrow> nat \<Rightarrow> nat \<Rightarrow> int tensor" where
  "torch_arange start stop step =
     \<lparr>shape = [slice_len start step stop], elem = (\<lambda>idx. int (start + step * (idx ! 0)))\<rparr>"

definition unsqueeze :: "'a tensor \<Rightarrow> nat \<Rightarrow> 'a tensor" where
  "unsqueeze t d =
     \<lparr>shape = take d (shape t) @ [1] @ drop d (shape t),
      elem = (\<lambda>idx. elem t (take d idx @ drop (Suc d) idx))\<rparr>"

text \<open>\<open>torch.tril(t, diagonal)\<close> on the last two dimensions.\<close>

definition torch_tril :: "'a::zero tensor \<Rightarrow> int \<Rightarrow> 'a tensor" where
  "torch_tril t diagonal =
     \<lparr>shape = shape t,
      elem = (\<lambda>idx. let r = length idx; i = idx ! (r - 2); j = idx ! (r - 1)
                     in if int j \<le> int i + diagonal then elem t idx else 0)\<rparr>"

text \<open>\<open>.type(torch.uint8)\<close>: a float is truncated towards zero and kept modulo 256.\<close>

definition to_uint8 :: "real \<Rightarrow> 8 word" where
  "to_uint8 x = word_of_int (if 0 \<le> x then \<lfloor>x\<rfloor> else \<lceil>x\<rceil>)"

text \<open>\<open>t[:, start::step] = v\<close> on a matrix \<open>t\<close>: \<open>v\<close> is broadcast to the slice.\<close>

definition setitem_cols :: "nat \<Rightarrow> nat \<Rightarrow> 'a tensor \<Rightarrow> 'a tensor \<Rightarrow> error + 'a tensor" where
  "setitem_cols start step t v =
     ebind (expand v [shape t ! 0, slice_len start step (shape t ! 1)]) (\<lambda>v'.
     Inr \<lparr>shape = shape t,
          elem = (\<lambda>idx. if start \<le> idx ! 1 \<and> (idx ! 1 - start) mod step = 0
                         then elem v' [idx ! 0, (idx ! 1 - start) div step]
                         else elem t idx)\<rparr>)"

section \<open>Causal mask and positional encoding\<close>

definition create_causal_mask :: "nat \<Rightarrow> 8 word tensor" where
  "create_causal_mask seq_len =
     map_tensor to_uint8 (torch_tril (torch_ones [seq_len, seq_len]) 0)"

definition positional_encoding :: "nat \<Rightarrow> nat \<Rightarrow> error + real tensor" where
  "positional_encoding seq_len embed_size =
     (let pos_vec = unsqueeze (torch_arange 0 seq_len 1) 1;
          i_times_two_vec = torch_arange 0 embed_size 2;
          pos_encoding = torch_empty [seq_len, embed_size];
          div_term = map_tensor (\<lambda>i. exp (- ln 10000 * real_of_int i / real embed_size))
                       i_times_two_vec
      in ebind (broadcast2 (\<lambda>p d. real_of_int p * d) pos_vec div_term) (\<lambda>angles.
         ebind (setitem_cols 0 2 pos_encoding (map_tensor sin angles)) (\<lambda>pos_encoding.
         ebind (setitem_cols 1 2 pos_encoding (map_tensor cos angles)) (\<lambda>pos_encoding.
         Inr pos_encoding))))"

section \<open>Tensor operations of the library\<close>

definition size_dim :: "'a tensor \<Rightarrow> nat \<Rightarrow> error + nat" where
  "size_dim t d = (if d < length (shape t) then Inr (shape t ! d) else Inl IndexError)"

definition transpose_dims :: "'a tensor \<Rightarrow> nat \<Rightarrow> nat \<Rightarrow> 'a tensor" where
  "transpose_dims t d0 d1 =
     \<lparr>shape = (shape t)[d0 := shape t ! d1, d1 := shape t ! d0],
      elem = (\<lambda>idx. elem t (idx[d0 := idx ! d1, d1 := idx ! d0]))\<rparr>"

text \<open>Row-major offsets, for \<open>view\<close> on a contiguous tensor.\<close>

definition ravel :: "nat list \<Rightarrow> nat list \<Rightarrow> nat" where
  "ravel s idx = foldl (\<lambda>acc (d, i). acc * d + i) 0 (zip s idx)"

fun unravel :: "nat list \<Rightarrow> nat \<Rightarrow> nat list" where
  "unravel [] n = []"
| "unravel (d # ds) n = (n div prod_list ds) # unravel ds (n mod prod_list ds)"

definition view :: "'a tensor \<Rightarrow> nat list \<Rightarrow> error + 'a tensor" where
  "view t s =
     (if prod_list (shape t) = prod_list s
      then Inr \<lparr>shape = s, elem = (\<lambda>idx. elem t (unravel (shape t) (ravel s idx)))\<rparr>
      else Inl RuntimeError)"

text \<open>\<open>t[:n]\<close>: the first \<open>n\<close> rows, or all of them when there are fewer.\<close>

definition slice_rows :: "'a tensor \<Rightarrow> nat \<Rightarrow> 'a tensor" where
  "slice_rows t n = \<lparr>shape = min n (hd (shape t)) # tl (shape t), elem = elem t\<rparr>"

text \<open>Every index of a shape, for the checks that read a whole tensor.\<close>

definition indices :: "nat list \<Rightarrow> nat list list" where
  "indices s = product_lists (map (\<lambda>d. [0..<d]) s)"

text \<open>\<open>F.embedding\<close>: each id selects a row of the weight; an id outside the table raises.\<close>

definition F_embedding :: "int tensor \<Rightarrow> real tensor \<Rightarrow> error + real tensor" where
  "F_embedding ids w =
     (if list_all (\<lambda>idx. 0 \<le> elem ids idx \<and> elem ids idx < int (shape w ! 0)) (indices (shape ids))
      then Inr \<lparr>shape = shape ids @ [shape w ! 1],
                elem = (\<lambda>idx. elem w [nat (elem ids (butlast idx)), last idx])\<rparr>
      else Inl IndexError)"

text \<open>\<open>F.linear\<close>: \<open>x @ w.T + b\<close> on the last dimension, \<open>w\<close> of shape (out, in).\<close>

definition F_linear :: "real tensor \<Rightarrow> real tensor \<Rightarrow> real tensor \<Rightarrow> error + real tensor" where
  "F_linear x w b =
     (if shape x \<noteq> [] \<and> length (shape w) = 2 \<and> last (shape x) = shape w ! 1 \<and>
         shape b = [shape w ! 0]
      then Inr \<lparr>shape = butlast (shape x) @ [shape w ! 0],
                elem = (\<lambda>idx. (\<Sum>k\<leftarrow>[0..<shape w ! 1].
                                  elem x (butlast idx @ [k]) * elem w [last idx, k])
                               + elem b [last idx])\<rparr>
      else Inl RuntimeError)"

text \<open>
  \<open>a @ b\<close> on two rank-4 tensors: a matrix product on the last two dimensions, the two
  leading dimensions broadcast.
\<close>

definition matmul :: "real tensor \<Rightarrow> real tensor \<Rightarrow> error + real tensor" where
  "matmul a b =
     (if length (shape a) = 4 \<and> length (shape b) = 4 \<and> shape a ! 3 = shape b ! 2
      then ebind (broadcast_dims (take 2 (shape a)) (take 2 (shape b))) (\<lambda>bs.
           Inr \<lparr>shape = bs @ [shape a ! 2, shape b ! 3],
                elem = (\<lambda>idx. \<Sum>j\<leftarrow>[0..<shape a ! 3].
                          elem a (broadcast_index (take 2 (shape a)) (take 2 idx) @ [idx ! 2, j]) *
                          elem b (broadcast_index (take 2 (shape b)) (take 2 idx) @ [j, idx ! 3]))\<rparr>)
      else Inl RuntimeError)"

text \<open>
  \<open>masked_fill(mask, -inf)\<close>: a score is a real or \<open>-inf\<close> (\<open>None\<close>). The mask is
  broadcast to the scores.
\<close>

definition masked_fill_neg_inf :: "real tensor \<Rightarrow> bool tensor \<Rightarrow> error + real option tensor" where
  "masked_fill_neg_inf x m =
     ebind (expand m (shape x)) (\<lambda>m'.
     Inr \<lparr>shape = shape x,
          elem = (\<lambda>idx. if elem m' idx then None else Some (elem x idx))\<rparr>)"

definition exp_score :: "real option \<Rightarrow> real" where
  "exp_score s = (case s of None \<Rightarrow> 0 | Some x \<Rightarrow> exp x)"

text \<open>
  \<open>torch.softmax(dim=-1)\<close> on scores. A row whose scores are all \<open>-inf\<close> is NaN in the
  library; the reals have no NaN, and the quotient below is 0 there.
\<close>

definition softmax :: "real option tensor \<Rightarrow> real tensor" where
  "softmax t =
     \<lparr>shape = shape t,
      elem = (\<lambda>idx. exp_score (elem t idx) /
                     (\<Sum>k\<leftarrow>[0..<last (shape t)]. exp_score (elem t (butlast idx @ [k]))))\<rparr>"

text \<open>
  \<open>nn.Dropout(p)\<close>: the identity in evaluation mode and for \<open>p = 0\<close>; in training mode
  the elements the draw \<open>keep\<close> retains are scaled by \<open>1 / (1 - p)\<close>, the others zeroed.
\<close>

definition dropout :: "real \<Rightarrow> bool \<Rightarrow> (nat list \<Rightarrow> bool) \<Rightarrow> real tensor \<Rightarrow> real tensor" where
  "dropout p training keep x =
     (if training \<and> p \<noteq> 0
      then \<lparr>shape = shape x, elem = (\<lambda>idx. if keep idx then elem x idx / (1 - p) else 0)\<rparr>
      else x)"

definition relu :: "real tensor \<Rightarrow> real tensor" where
  "relu x = map_tensor (max 0) x"

text \<open>
  The random draws of a call, by call site and element: of the dropout masks
  (\<open>bool\<close>) and of the initial parameter values (\<open>real\<close>).
\<close>

type_synonym 'a draws = "nat list \<Rightarrow> nat list \<Rightarrow> 'a"

definition sub :: "'a draws \<Rightarrow> nat \<Rightarrow> 'a draws" where
  "sub rng k = (\<lambda>site. rng (k # site))"

subsection \<open>nn.Linear and nn.LayerNorm\<close>

record linear =
  lin_weight :: "real tensor"
  lin_bias :: "real tensor"

definition Linear_init :: "real draws \<Rightarrow> nat \<Rightarrow> nat \<Rightarrow> linear" where
  "Linear_init rng in_features out_features =
     \<lparr>lin_weight = \<lparr>shape = [out_features, in_features], elem = rng [0]\<rparr>,
      lin_bias = \<lparr>shape = [out_features], elem = rng [1]\<rparr>\<rparr>"

definition Linear_forward :: "linear \<Rightarrow> real tensor \<Rightarrow> error + real tensor" where
  "Linear_forward l x = F_linear x (lin_weight l) (lin_bias l)"

record layer_norm =
  normalized_shape :: nat
  ln_weight :: "real tensor"
  ln_bias :: "real tensor"
  ln_eps :: real

definition LayerNorm_init :: "nat \<Rightarrow> layer_norm" where
  "LayerNorm_init n =
     \<lparr>normalized_shape = n,
      ln_weight = \<lparr>shape = [n], elem = (\<lambda>idx. 1)\<rparr>,
      ln_bias = \<lparr>shape = [n], elem = (\<lambda>idx. 0)\<rparr>,
      ln_eps = 1 / 100000\<rparr>"

definition LayerNorm_forward :: "layer_norm \<Rightarrow> real tensor \<Rightarrow> error + real tensor" where
  "LayerNorm_forward lnm x =
     (if shape x \<noteq> [] \<and> last (shape x) = normalized_shape lnm
      then Inr \<lparr>shape = shape x,
                elem = (\<lambda>idx.
                  let n = normalized_shape lnm;
                      mean = (\<Sum>k\<leftarrow>[0..<n]. elem x (butlast idx @ [k])) / real n;
                      var = (\<Sum>k\<leftarrow>[0..<n]. (elem x (butlast idx @ [k]) - mean)\<^sup>2) / real n
                  in (elem x idx - mean) / sqrt (var + ln_eps lnm) * elem (ln_weight lnm) [last idx]
                     + elem (ln_bias lnm) [last idx])\<rparr>
      else Inl RuntimeError)"

section \<open>Attention\<close>

definition ScaledDotProductAttention_forward ::
  "real \<Rightarrow> bool \<Rightarrow> (nat list \<Rightarrow> bool) \<Rightarrow> real tensor \<Rightarrow> real tensor \<Rightarrow> real tensor \<Rightarrow>
   'm::zero tensor option \<Rightarrow> error + real tensor" where
  "ScaledDotProductAttention_forward p training keep q k v msk =
     ebind (size_dim k (length (shape k) - 1)) (\<lambda>d_k.
     let k = transpose_dims k (length (shape k) - 1) (length (shape k) - 2) in
     ebind (matmul q k) (\<lambda>qk.
     let attn_weights = map_tensor (\<lambda>x. x / sqrt (real d_k)) qk in
     ebind (case msk of
              None \<Rightarrow> Inr (map_tensor Some attn_weights)
            | Some msk \<Rightarrow>
                let msk = unsqueeze msk 1
                in masked_fill_neg_inf attn_weights (map_tensor (\<lambda>x. x = 0) msk))
       (\<lambda>attn_weights.
     let attn_weights = softmax attn_weights;
         attn_weights = dropout p training keep attn_weights
     in matmul attn_weights v)))"

record multi_head_attention =
  n_heads :: nat
  mha_embed_size :: nat
  head_dim :: nat
  q_weights :: linear
  k_weights :: linear
  v_weights :: linear
  proj :: linear
  sdpa_p :: real

definition MultiHeadAttention_init ::
  "real draws \<Rightarrow> nat \<Rightarrow> nat \<Rightarrow> bool \<Rightarrow> error + multi_head_attention" where
  "MultiHeadAttention_init rng nh embed_size use_additional_dropout =
     (if nh = 0 then Inl ZeroDivisionError
      else if embed_size mod nh \<noteq> 0 then Inl AssertionError
      else Inr \<lparr>n_heads = nh, mha_embed_size = embed_size, head_dim = embed_size div nh,
                q_weights = Linear_init (sub rng 0) embed_size embed_size,
                k_weights = Linear_init (sub rng 1) embed_size embed_size,
                v_weights = Linear_init (sub rng 2) embed_size embed_size,
                proj = Linear_init (sub rng 3) embed_size embed_size,
                sdpa_p = (if use_additional_dropout then 1 / 10 else 0)\<rparr>)"

definition MultiHeadAttention_forward ::
  "multi_head_attention \<Rightarrow> bool \<Rightarrow> (nat list \<Rightarrow> bool) \<Rightarrow> real tensor \<Rightarrow> real tensor \<Rightarrow>
   real tensor \<Rightarrow> 'm::zero tensor option \<Rightarrow> error + real tensor" where
  "MultiHeadAttention_forward a training keep q k v msk =
     ebind (size_dim q 0) (\<lambda>batch_size.
     ebind (Linear_forward (q_weights a) q) (\<lambda>q.
     ebind (Linear_forward (k_weights a) k) (\<lambda>k.
     ebind (Linear_forward (v_weights a) v) (\<lambda>v.
     ebind (size_dim q 1) (\<lambda>q_size1.
     ebind (view q [batch_size, q_size1, n_heads a, head_dim a]) (\<lambda>q.
     let q = transpose_dims q 1 2 in
     ebind (size_dim k 1) (\<lambda>k_size1.
     ebind (view k [batch_size, k_size1, n_heads a, head_dim a]) (\<lambda>k.
     let k = transpose_dims k 1 2 in
     ebind (size_dim v 1) (\<lambda>v_size1.
     ebind (view v [batch_size, v_size1, n_heads a, head_dim a]) (\<lambda>v.
     let v = transpose_dims v 1 2 in
     ebind (ScaledDotProductAttention_forward (sdpa_p a) training keep q k v msk) (\<lambda>attentions.
     ebind (size_dim q 2) (\<lambda>q_size2.
     ebind (view (transpose_dims attentions 1 2) [batch_size, q_size2, mha_embed_size a])
       (\<lambda>attentions.
     Linear_forward (proj a) attentions)))))))))))))"

section \<open>Feed-forward, encoder and decoder\<close>

record feed_forward =
  ff_lin1 :: linear
  ff_p :: real
  ff_lin2 :: linear

definition FeedForward_init :: "real draws \<Rightarrow> nat \<Rightarrow> nat \<Rightarrow> bool \<Rightarrow> feed_forward" where
  "FeedForward_init rng d_out dff use_dropout =
     \<lparr>ff_lin1 = Linear_init (sub rng 0) d_out dff,
      ff_p = (if use_dropout then 1 / 10 else 0),
      ff_lin2 = Linear_init (sub rng 3) dff d_out\<rparr>"

definition FeedForward_forward ::
  "feed_forward \<Rightarrow> bool \<Rightarrow> (nat list \<Rightarrow> bool) \<Rightarrow> real tensor \<Rightarrow> error + real tensor" where
  "FeedForward_forward f training keep x =
     ebind (Linear_forward (ff_lin1 f) x) (\<lambda>h.
     Linear_forward (ff_lin2 f) (dropout (ff_p f) training keep (relu h)))"

text \<open>\<open>a + b\<close> on tensors.\<close>

definition add :: "real tensor \<Rightarrow> real tensor \<Rightarrow> error + real tensor" where
  "add a b = broadcast2 (+) a b"

record encoder_layer =
  enc_ff :: feed_forward
  enc_mha :: multi_head_attention
  enc_ln1 :: layer_norm
  enc_ln2 :: layer_norm
  enc_dropout1 :: real
  enc_dropout2 :: real
  enc_post_ln :: bool

definition EncoderLayer_init ::
  "real draws \<Rightarrow> nat \<Rightarrow> nat \<Rightarrow> nat \<Rightarrow> bool \<Rightarrow> bool \<Rightarrow> error + encoder_layer" where
  "EncoderLayer_init rng nh embed_size dff post_ln use_additional_dropout =
     (let ff = FeedForward_init (sub rng 0) embed_size dff use_additional_dropout in
      ebind (MultiHeadAttention_init (sub rng 1) nh embed_size use_additional_dropout) (\<lambda>mha.
      Inr \<lparr>enc_ff = ff, enc_mha = mha,
           enc_ln1 = LayerNorm_init embed_size, enc_ln2 = LayerNorm_init embed_size,
           enc_dropout1 = 1 / 10, enc_dropout2 = 1 / 10, enc_post_ln = post_ln\<rparr>))"

definition EncoderLayer_forward ::
  "encoder_layer \<Rightarrow> bool \<Rightarrow> bool draws \<Rightarrow> real tensor \<Rightarrow> 'm::zero tensor option \<Rightarrow>
   error + real tensor" where
  "EncoderLayer_forward l training rng x msk =
     (if enc_post_ln l then
        ebind (MultiHeadAttention_forward (enc_mha l) training (rng [0]) x x x msk) (\<lambda>a.
        ebind (add x (dropout (enc_dropout1 l) training (rng [1]) a)) (\<lambda>s.
        ebind (LayerNorm_forward (enc_ln1 l) s) (\<lambda>attention.
        ebind (FeedForward_forward (enc_ff l) training (rng [2]) attention) (\<lambda>f.
        ebind (add attention (dropout (enc_dropout2 l) training (rng [3]) f)) (\<lambda>s.
        LayerNorm_forward (enc_ln2 l) s)))))
      else
        ebind (LayerNorm_forward (enc_ln1 l) x) (\<lambda>x_ln.
        ebind (MultiHeadAttention_forward (enc_mha l) training (rng [0]) x_ln x_ln x_ln msk)
          (\<lambda>a.
        ebind (add x (dropout (enc_dropout1 l) training (rng [1]) a)) (\<lambda>attention.
        ebind (LayerNorm_forward (enc_ln2 l) attention) (\<lambda>attention_ln.
        ebind (FeedForward_forward (enc_ff l) training (rng [2]) attention_ln) (\<lambda>f.
        add attention (dropout (enc_dropout2 l) training (rng [3]) f)))))))"

text \<open>The layers of a stack are built one after the other; the first error ends it.\<close>

fun build_layers :: "(nat \<Rightarrow> error + 'a) \<Rightarrow> nat list \<Rightarrow> error + 'a list" where
  "build_layers mk [] = Inr []"
| "build_layers mk (i # is) =
     ebind (mk i) (\<lambda>l. ebind (build_layers mk is) (\<lambda>ls. Inr (l # ls)))"

record encoder =
  encoder_layers :: "encoder_layer list"
  enc_final_ln :: "layer_norm option"

definition Encoder_init ::
  "real draws \<Rightarrow> nat \<Rightarrow> nat \<Rightarrow> nat \<Rightarrow> nat \<Rightarrow> bool \<Rightarrow> bool \<Rightarrow> error + encoder" where
  "Encoder_init rng n_layers nh embed_size dff post_ln use_additional_dropout =
     ebind (build_layers
              (\<lambda>i. EncoderLayer_init (sub rng i) nh embed_size dff post_ln use_additional_dropout)
              [0..<n_layers]) (\<lambda>ls.
     Inr \<lparr>encoder_layers = ls,
          enc_final_ln = (if post_ln then None else Some (LayerNorm_init embed_size))\<rparr>)"

fun encoder_loop ::
  "encoder_layer list \<Rightarrow> nat \<Rightarrow> bool \<Rightarrow> bool draws \<Rightarrow> real tensor \<Rightarrow> 'm::zero tensor option \<Rightarrow>
   error + real tensor" where
  "encoder_loop [] i training rng x msk = Inr x"
| "encoder_loop (l # ls) i training rng x msk =
     ebind (EncoderLayer_forward l training (sub rng i) x msk) (\<lambda>x.
     encoder_loop ls (Suc i) training rng x msk)"

definition Encoder_forward ::
  "encoder \<Rightarrow> bool \<Rightarrow> bool draws \<Rightarrow> real tensor \<Rightarrow> 'm::zero tensor option \<Rightarrow>
   error + real tensor" where
  "Encoder_forward e training rng x msk =
     ebind (encoder_loop (encoder_layers e) 0 training rng x msk) (\<lambda>x.
     case enc_final_ln e of None \<Rightarrow> Inr x | Some fln \<Rightarrow> LayerNorm_forward fln x)"

record decoder_layer =
  dec_ff :: feed_forward
  dec_mha :: multi_head_attention
  dec_mmha :: multi_head_attention
  dec_ln1 :: layer_norm
  dec_ln2 :: layer_norm
  dec_ln3 :: layer_norm
  dec_dropout1 :: real
  dec_dropout2 :: real
  dec_dropout3 :: real
  dec_post_ln :: bool

definition DecoderLayer_init ::
  "real draws \<Rightarrow> nat \<Rightarrow> nat \<Rightarrow> nat \<Rightarrow> bool \<Rightarrow> bool \<Rightarrow> error + decoder_layer" where
  "DecoderLayer_init rng nh embed_size dff post_ln use_additional_dropout =
     (let ff = FeedForward_init (sub rng 0) embed_size dff use_additional_dropout in
      ebind (MultiHeadAttention_init (sub rng 1) nh embed_size use_additional_dropout) (\<lambda>mha.
      ebind (MultiHeadAttention_init (sub rng 2) nh embed_size use_additional_dropout) (\<lambda>mmha.
      Inr \<lparr>dec_ff = ff, dec_mha = mha, dec_mmha = mmha,
           dec_ln1 = LayerNorm_init embed_size, dec_ln2 = LayerNorm_init embed_size,
           dec_ln3 = LayerNorm_init embed_size,
           dec_dropout1 = 1 / 10, dec_dropout2 = 1 / 10, dec_dropout3 = 1 / 10,
           dec_post_ln = post_ln\<rparr>)))"

definition DecoderLayer_forward ::
  "decoder_layer \<Rightarrow> bool \<Rightarrow> bool draws \<Rightarrow> real tensor \<Rightarrow> real tensor \<Rightarrow> 8 word tensor \<Rightarrow>
   'm::zero tensor option \<Rightarrow> error + real tensor" where
  "DecoderLayer_forward l training rng x memory causal_mask encoder_mask =
     (if dec_post_ln l then
        ebind (MultiHeadAttention_forward (dec_mmha l) training (rng [0]) x x x (Some causal_mask))
          (\<lambda>a.
        ebind (add x (dropout (dec_dropout1 l) training (rng [1]) a)) (\<lambda>s.
        ebind (LayerNorm_forward (dec_ln1 l) s) (\<lambda>attention.
        ebind (MultiHeadAttention_forward (dec_mha l) training (rng [2]) attention memory memory
                 encoder_mask) (\<lambda>a.
        ebind (add attention (dropout (dec_dropout2 l) training (rng [3]) a)) (\<lambda>s.
        ebind (LayerNorm_forward (dec_ln2 l) s) (\<lambda>attention.
        ebind (FeedForward_forward (dec_ff l) training (rng [4]) attention) (\<lambda>f.
        ebind (add attention (dropout (dec_dropout3 l) training (rng [5]) f)) (\<lambda>s.
        LayerNorm_forward (dec_ln3 l) s))))))))
      else
        ebind (LayerNorm_forward (dec_ln1 l) x) (\<lambda>x_ln.
        ebind (MultiHeadAttention_forward (dec_mmha l) training (rng [0]) x_ln x_ln x_ln
                 (Some causal_mask)) (\<lambda>a.
        ebind (add x (dropout (dec_dropout1 l) training (rng [1]) a)) (\<lambda>attention.
        ebind (LayerNorm_forward (dec_ln2 l) attention) (\<lambda>attention_ln.
        ebind (MultiHeadAttention_forward (dec_mha l) training (rng [2]) attention_ln memory memory
                 encoder_mask) (\<lambda>a.
        ebind (add attention (dropout (dec_dropout2 l) training (rng [3]) a)) (\<lambda>attention.
        ebind (LayerNorm_forward (dec_ln3 l) attention) (\<lambda>attention_ln.
        ebind (FeedForward_forward (dec_ff l) training (rng [4]) attention_ln) (\<lambda>f.
        add attention (dropout (dec_dropout3 l) training (rng [5]) f))))))))))"

record decoder =
  decoder_layers :: "decoder_layer list"
  dec_final_ln :: "layer_norm option"

definition Decoder_init ::
  "real draws \<Rightarrow> nat \<Rightarrow> nat \<Rightarrow> nat \<Rightarrow> nat \<Rightarrow> bool \<Rightarrow> bool \<Rightarrow> error + decoder" where
  "Decoder_init rng n_layers nh embed_size dff post_ln use_additional_dropout =
     ebind (build_layers
              (\<lambda>i. DecoderLayer_init (sub rng i) nh embed_size dff post_ln use_additional_dropout)
              [0..<n_layers]) (\<lambda>ls.
     Inr \<lparr>decoder_layers = ls,
          dec_final_ln = (if post_ln then None else Some (LayerNorm_init embed_size))\<rparr>)"

fun decoder_loop ::
  "decoder_layer list \<Rightarrow> nat \<Rightarrow> bool \<Rightarrow> bool draws \<Rightarrow> real tensor \<Rightarrow> real tensor \<Rightarrow>
   8 word tensor \<Rightarrow> 'm::zero tensor option \<Rightarrow> error + real tensor" where
  "decoder_loop [] i training rng x memory tgt_mask encoder_mask = Inr x"
| "decoder_loop (l # ls) i training rng x memory tgt_mask encoder_mask =
     ebind (DecoderLayer_forward l training (sub rng i) x memory tgt_mask encoder_mask) (\<lambda>x.
     decoder_loop ls (Suc i) training rng x memory tgt_mask encoder_mask)"

definition Decoder_forward ::
  "decoder \<Rightarrow> bool \<Rightarrow> bool draws \<Rightarrow> real tensor \<Rightarrow> real tensor \<Rightarrow> 'm::zero tensor option \<Rightarrow>
   error + real tensor" where
  "Decoder_forward d training rng x memory encoder_mask =
     ebind (size_dim x 1) (\<lambda>seq_len.
     let tgt_mask = unsqueeze (create_causal_mask seq_len) 0 in
     ebind (decoder_loop (decoder_layers d) 0 training rng x memory tgt_mask encoder_mask) (\<lambda>x.
     case dec_final_ln d of None \<Rightarrow> Inr x | Some fln \<Rightarrow> LayerNorm_forward fln x))"

section \<open>The model\<close>

text \<open>
  The configuration. Sizes and counts are natural numbers (the library rejects a
  negative size when it allocates a parameter).
\<close>

record transformer_config =
  vocab_size :: nat
  n_encoder_layers :: nat
  n_decoder_layers :: nat
  n_encoder_heads :: nat
  n_decoder_heads :: nat
  embed_size :: nat
  d_ff :: nat
  max_len :: nat
  tie_embeddings :: bool
  post_ln :: bool
  use_additional_dropout :: bool
  xavier_initialization :: bool

text \<open>
  The embedding matrix and the weight of the output projection can be one tensor object,
  so the model holds them by address in a store of parameter tensors:
  \<open>embeddings_weight\<close> and \<open>fc_weight\<close> are addresses into \<open>storage\<close>, and an
  in-place update of a parameter writes the store at its address.
\<close>

record transformer =
  config :: transformer_config
  pos_enc :: "real tensor"
  encoder :: encoder
  decoder :: decoder
  sqrt_dmodel :: real
  storage :: "nat \<Rightarrow> real tensor"
  embeddings_weight :: nat
  fc_weight :: nat
  fc_bias :: "real tensor"
  dropout_p :: real
  training :: bool

definition update_inplace :: "nat \<Rightarrow> real tensor \<Rightarrow> transformer \<Rightarrow> transformer" where
  "update_inplace a t m = m\<lparr>storage := (storage m)(a := t)\<rparr>"

subsection \<open>Xavier initialisation\<close>

text \<open>
  \<open>nn.init.xavier_uniform_(p)\<close>. The bound of the draws is computed from
  \<open>fan_in + fan_out\<close>, by the division \<open>2.0 / float(fan_in + fan_out)\<close>, which
  raises when both are 0; a tensor with fewer than two dimensions has no fans. Then new
  values are drawn into \<open>p\<close>, in place.
\<close>

definition xavier_uniform :: "(nat list \<Rightarrow> real) \<Rightarrow> real tensor \<Rightarrow> error + real tensor" where
  "xavier_uniform values p =
     (if length (shape p) < 2 then Inl ValueError
      else
        let receptive_field_size = prod_list (drop 2 (shape p));
            fan_in = shape p ! 1 * receptive_field_size;
            fan_out = shape p ! 0 * receptive_field_size
        in if fan_in + fan_out = 0 then Inl ZeroDivisionError
           else Inr \<lparr>shape = shape p, elem = values\<rparr>)"

definition init_linear :: "real draws \<Rightarrow> linear \<Rightarrow> error + linear" where
  "init_linear rng l =
     (if length (shape (lin_weight l)) > 1
      then ebind (xavier_uniform (rng [0]) (lin_weight l)) (\<lambda>w. Inr (l\<lparr>lin_weight := w\<rparr>))
      else Inr l)"

definition init_mha :: "real draws \<Rightarrow> multi_head_attention \<Rightarrow> error + multi_head_attention" where
  "init_mha rng a =
     ebind (init_linear (sub rng 0) (q_weights a)) (\<lambda>q.
     ebind (init_linear (sub rng 1) (k_weights a)) (\<lambda>k.
     ebind (init_linear (sub rng 2) (v_weights a)) (\<lambda>v.
     ebind (init_linear (sub rng 3) (proj a)) (\<lambda>pr.
     Inr (a\<lparr>q_weights := q, k_weights := k, v_weights := v, proj := pr\<rparr>)))))"

definition init_ff :: "real draws \<Rightarrow> feed_forward \<Rightarrow> error + feed_forward" where
  "init_ff rng f =
     ebind (init_linear (sub rng 0) (ff_lin1 f)) (\<lambda>l1.
     ebind (init_linear (sub rng 3) (ff_lin2 f)) (\<lambda>l2.
     Inr (f\<lparr>ff_lin1 := l1, ff_lin2 := l2\<rparr>)))"

definition init_encoder_layer :: "real draws \<Rightarrow> encoder_layer \<Rightarrow> error + encoder_layer" where
  "init_encoder_layer rng l =
     ebind (init_ff (sub rng 0) (enc_ff l)) (\<lambda>f.
     ebind (init_mha (sub rng 1) (enc_mha l)) (\<lambda>a.
     Inr (l\<lparr>enc_ff := f, enc_mha := a\<rparr>)))"

definition init_decoder_layer :: "real draws \<Rightarrow> decoder_layer \<Rightarrow> error + decoder_layer" where
  "init_decoder_layer rng l =
     ebind (init_ff (sub rng 0) (dec_ff l)) (\<lambda>f.
     ebind (init_mha (sub rng 1) (dec_mha l)) (\<lambda>a.
     ebind (init_mha (sub rng 2) (dec_mmha l)) (\<lambda>ma.
     Inr (l\<lparr>dec_ff := f, dec_mha := a, dec_mmha := ma\<rparr>))))"

text \<open>The layers of a stack, one after the other, layer \<open>i\<close> with the draws \<open>sub rng i\<close>.\<close>

fun init_layers ::
  "(real draws \<Rightarrow> 'a \<Rightarrow> error + 'a) \<Rightarrow> real draws \<Rightarrow> nat \<Rightarrow> 'a list \<Rightarrow> error + 'a list" where
  "init_layers f rng i [] = Inr []"
| "init_layers f rng i (l # ls) =
     ebind (f (sub rng i) l) (\<lambda>l'.
     ebind (init_layers f rng (Suc i) ls) (\<lambda>ls'.
     Inr (l' # ls')))"

text \<open>
  \<open>_init_params\<close>: every parameter with more than one dimension, in the order of
  \<open>named_parameters()\<close> and each tensor object once (the layer-norm weights and all
  biases have one dimension). The first error ends the loop and the construction.
\<close>

definition init_params :: "real draws \<Rightarrow> transformer \<Rightarrow> error + transformer" where
  "init_params rng m =
     ebind (init_layers init_encoder_layer (sub rng 0) 0 (encoder_layers (encoder m))) (\<lambda>els.
     ebind (init_layers init_decoder_layer (sub rng 1) 0 (decoder_layers (decoder m))) (\<lambda>dls.
     let m = m\<lparr>encoder := (encoder m)\<lparr>encoder_layers := els\<rparr>,
               decoder := (decoder m)\<lparr>decoder_layers := dls\<rparr>\<rparr>
     in
     ebind (if length (shape (storage m (embeddings_weight m))) > 1
            then ebind (xavier_uniform (rng [2]) (storage m (embeddings_weight m))) (\<lambda>w.
                   Inr (update_inplace (embeddings_weight m) w m))
            else Inr m) (\<lambda>m.
     if fc_weight m \<noteq> embeddings_weight m \<and> length (shape (storage m (fc_weight m))) > 1
     then ebind (xavier_uniform (rng [3]) (storage m (fc_weight m))) (\<lambda>w.
            Inr (update_inplace (fc_weight m) w m))
     else Inr m)))"

subsection \<open>Construction\<close>

text \<open>
  \<open>Transformer.__init__\<close>. \<open>nn.Embedding\<close> allocates its weight at address 0 and
  \<open>nn.Linear\<close> the weight of \<open>fc\<close> at address 1; tying makes \<open>embeddings.weight\<close>
  the tensor of \<open>fc.weight\<close>. A module is in training mode when built.
\<close>

definition Transformer_init :: "transformer_config \<Rightarrow> real draws \<Rightarrow> error + transformer" where
  "Transformer_init cfg rng =
     ebind (positional_encoding (max_len cfg) (embed_size cfg)) (\<lambda>pe.
     ebind (Encoder_init (sub rng 0) (n_encoder_layers cfg) (n_encoder_heads cfg) (embed_size cfg)
              (d_ff cfg) (post_ln cfg) (use_additional_dropout cfg)) (\<lambda>enc.
     ebind (Decoder_init (sub rng 1) (n_decoder_layers cfg) (n_decoder_heads cfg) (embed_size cfg)
              (d_ff cfg) (post_ln cfg) (use_additional_dropout cfg)) (\<lambda>dec.
     let embeddings = \<lparr>shape = [vocab_size cfg, embed_size cfg], elem = rng [2]\<rparr>;
         fc = Linear_init (sub rng 3) (embed_size cfg) (vocab_size cfg);
         m = \<lparr>config = cfg, pos_enc = pe, encoder = enc, decoder = dec,
              sqrt_dmodel = sqrt (real (embed_size cfg)),
              storage = (\<lambda>a. if a = 0 then embeddings else lin_weight fc),
              embeddings_weight = 0, fc_weight = 1, fc_bias = lin_bias fc,
              dropout_p = 1 / 10, training = True\<rparr>;
         m = (if tie_embeddings cfg then m\<lparr>embeddings_weight := fc_weight m\<rparr> else m)
     in if xavier_initialization cfg then init_params (sub rng 4) m else Inr m)))"

subsection \<open>encode, decode, forward\<close>

definition embeddings_forward :: "transformer \<Rightarrow> int tensor \<Rightarrow> error + real tensor" where
  "embeddings_forward m ids = F_embedding ids (storage m (embeddings_weight m))"

definition fc_forward :: "transformer \<Rightarrow> real tensor \<Rightarrow> error + real tensor" where
  "fc_forward m x = F_linear x (storage m (fc_weight m)) (fc_bias m)"

text \<open>
  The first two statements on the token ids, in \<open>encode\<close> and in \<open>decode\<close> alike: the
  embedding lookup, then \<open>*= self.sqrt_dmodel\<close> on the tensor the lookup returned.
\<close>

definition scaled_embeddings :: "transformer \<Rightarrow> int tensor \<Rightarrow> error + real tensor" where
  "scaled_embeddings m ids =
     ebind (embeddings_forward m ids) (\<lambda>embed.
     Inr (map_tensor (\<lambda>x. x * sqrt_dmodel m) embed))"

definition encode ::
  "transformer \<Rightarrow> bool draws \<Rightarrow> int tensor \<Rightarrow> 'm::zero tensor option \<Rightarrow>
   error + (real tensor \<times> 'm tensor option)" where
  "encode m rng src src_mask =
     ebind (case src_mask of
              None \<Rightarrow> Inr None
            | Some mk \<Rightarrow> if shape mk = [] then Inl IndexError else Inr (Some (unsqueeze mk 1)))
       (\<lambda>src_mask.
     ebind (scaled_embeddings m src) (\<lambda>src_embed.
     ebind (size_dim src 1) (\<lambda>n.
     ebind (inplace2 (+) src_embed (slice_rows (pos_enc m) n)) (\<lambda>src_embed.
     let src_embed = dropout (dropout_p m) (training m) (rng [0]) src_embed in
     ebind (Encoder_forward (encoder m) (training m) (sub rng 1) src_embed src_mask) (\<lambda>memory.
     Inr (memory, src_mask))))))"

definition decode ::
  "transformer \<Rightarrow> bool draws \<Rightarrow> real tensor \<Rightarrow> int tensor \<Rightarrow> 'm::zero tensor option \<Rightarrow>
   error + real tensor" where
  "decode m rng memory tgt src_mask =
     ebind (scaled_embeddings m tgt) (\<lambda>tgt_embed.
     ebind (size_dim tgt 1) (\<lambda>n.
     ebind (inplace2 (+) tgt_embed (slice_rows (pos_enc m) n)) (\<lambda>tgt_embed.
     let tgt_embed = dropout (dropout_p m) (training m) (rng [2]) tgt_embed in
     ebind (Decoder_forward (decoder m) (training m) (sub rng 3) tgt_embed memory src_mask)
       (\<lambda>attention.
     fc_forward m attention))))"

definition forward ::
  "transformer \<Rightarrow> bool draws \<Rightarrow> int tensor \<Rightarrow> int tensor \<Rightarrow> 'm::zero tensor option \<Rightarrow>
   error + real tensor" where
  "forward m rng src tgt src_mask =
     ebind (encode m rng src src_mask) (\<lambda>(memory, src_mask).
     decode m rng memory tgt src_mask)"

subsection \<open>The embedding stage on the store\<close>

text \<open>
  \<open>encode\<close> and \<open>decode\<close> assign no attribute of the model, and their only in-place
  operations are \<open>*=\<close> and \<open>+=\<close> on the tensor the embedding lookup returned. Here
  these three statements act on the store: the lookup returns a new tensor object, at an
  address that holds no parameter, and \<open>*=\<close> and \<open>+=\<close> write the store at that
  address. The result is the address of the embedded tokens and the model after the
  statements.
\<close>

definition fresh_address :: "transformer \<Rightarrow> nat" where
  "fresh_address m = Suc (max (embeddings_weight m) (fc_weight m))"

definition embed_in_store :: "transformer \<Rightarrow> int tensor \<Rightarrow> error + (nat \<times> transformer)" where
  "embed_in_store m ids =
     ebind (embeddings_forward m ids) (\<lambda>embed.
     let a = fresh_address m;
         m = update_inplace a embed m;
         m = update_inplace a (map_tensor (\<lambda>x. x * sqrt_dmodel m) (storage m a)) m
     in
     ebind (size_dim ids 1) (\<lambda>n.
     ebind (inplace2 (+) (storage m a) (slice_rows (pos_enc m) n)) (\<lambda>s.
     Inr (a, update_inplace a s m))))"

subsection \<open>Shapes of the parameters\<close>

text \<open>
  What construction establishes about the parameters and every in-place update of a
  parameter preserves: each has the shape its module was built with.
\<close>

definition linear_shaped :: "linear \<Rightarrow> nat \<Rightarrow> nat \<Rightarrow> bool" where
  "linear_shaped l n_in n_out \<longleftrightarrow>
     shape (lin_weight l) = [n_out, n_in] \<and> shape (lin_bias l) = [n_out]"

definition layer_norm_shaped :: "layer_norm \<Rightarrow> nat \<Rightarrow> bool" where
  "layer_norm_shaped lnm n \<longleftrightarrow>
     normalized_shape lnm = n \<and> shape (ln_weight lnm) = [n] \<and> shape (ln_bias lnm) = [n]"

definition mha_shaped :: "multi_head_attention \<Rightarrow> nat \<Rightarrow> bool" where
  "mha_shaped a e \<longleftrightarrow>
     n_heads a \<noteq> 0 \<and> e mod n_heads a = 0 \<and> mha_embed_size a = e \<and>
     head_dim a = e div n_heads a \<and>
     linear_shaped (q_weights a) e e \<and> linear_shaped (k_weights a) e e \<and>
     linear_shaped (v_weights a) e e \<and> linear_shaped (proj a) e e"

definition ff_shaped :: "feed_forward \<Rightarrow> nat \<Rightarrow> nat \<Rightarrow> bool" where
  "ff_shaped f e dff \<longleftrightarrow> linear_shaped (ff_lin1 f) e dff \<and> linear_shaped (ff_lin2 f) dff e"

definition encoder_layer_shaped :: "encoder_layer \<Rightarrow> nat \<Rightarrow> nat \<Rightarrow> bool" where
  "encoder_layer_shaped l e dff \<longleftrightarrow>
     ff_shaped (enc_ff l) e dff \<and> mha_shaped (enc_mha l) e \<and>
     layer_norm_shaped (enc_ln1 l) e \<and> layer_norm_shaped (enc_ln2 l) e"

definition decoder_layer_shaped :: "decoder_layer \<Rightarrow> nat \<Rightarrow> nat \<Rightarrow> bool" where
  "decoder_layer_shaped l e dff \<longleftrightarrow>
     ff_shaped (dec_ff l) e dff \<and> mha_shaped (dec_mha l) e \<and> mha_shaped (dec_mmha l) e \<and>
     layer_norm_shaped (dec_ln1 l) e \<and> layer_norm_shaped (dec_ln2 l) e \<and>
     layer_norm_shaped (dec_ln3 l) e"

definition encoder_shaped :: "encoder \<Rightarrow> nat \<Rightarrow> nat \<Rightarrow> bool" where
  "encoder_shaped enc e dff \<longleftrightarrow>
     list_all (\<lambda>l. encoder_layer_shaped l e dff) (encoder_layers enc) \<and>
     (case enc_final_ln enc of None \<Rightarrow> True | Some fln \<Rightarrow> layer_norm_shaped fln e)"

definition decoder_shaped :: "decoder \<Rightarrow> nat \<Rightarrow> nat \<Rightarrow> bool" where
  "decoder_shaped dec e dff \<longleftrightarrow>
     list_all (\<lambda>l. decoder_layer_shaped l e dff) (decoder_layers dec) \<and>
     (case dec_final_ln dec of None \<Rightarrow> True | Some fln \<Rightarrow> layer_norm_shaped fln e)"

definition well_shaped :: "transformer \<Rightarrow> bool" where
  "well_shaped m \<longleftrightarrow>
     (let cfg = config m; e = embed_size cfg; v = vocab_size cfg in
      shape (pos_enc m) = [max_len cfg, e] \<and>
      encoder_shaped (encoder m) e (d_ff cfg) \<and>
      decoder_shaped (decoder m) e (d_ff cfg) \<and>
      sqrt_dmodel m = sqrt (real e) \<and>
      shape (storage m (embeddings_weight m)) = [v, e] \<and>
      shape (storage m (fc_weight m)) = [v, e] \<and>
      shape (fc_bias m) = [v])"

section \<open>The attention computation, element by element\<close>

text \<open>
  What \<open>MultiHeadAttention.forward\<close> computes at one index of its output, written
  without the intermediate tensors; the proofs below show that the module computes it.
  \<open>mask_fn\<close> tells whether \<open>masked_fill\<close> writes \<open>-inf\<close> at an index of the scores.
\<close>

definition mask_fn :: "'m::zero tensor option \<Rightarrow> nat list \<Rightarrow> bool" where
  "mask_fn msk idx =
     (case msk of
        None \<Rightarrow> False
      | Some mk \<Rightarrow> elem (unsqueeze mk 1) (broadcast_index (shape (unsqueeze mk 1)) idx) = 0)"

definition linear_elem :: "linear \<Rightarrow> real tensor \<Rightarrow> nat list \<Rightarrow> real" where
  "linear_elem l x idx =
     (\<Sum>k\<leftarrow>[0..<shape (lin_weight l) ! 1]. elem x (butlast idx @ [k]) * elem (lin_weight l) [last idx, k])
     + elem (lin_bias l) [last idx]"

definition attn_exp ::
  "multi_head_attention \<Rightarrow> 'm::zero tensor option \<Rightarrow> real tensor \<Rightarrow> real tensor \<Rightarrow>
   nat \<Rightarrow> nat \<Rightarrow> nat \<Rightarrow> nat \<Rightarrow> real" where
  "attn_exp a msk q k b h l kk =
     (if mask_fn msk [b, h, l, kk] then 0
      else exp ((\<Sum>j\<leftarrow>[0..<head_dim a].
                   linear_elem (q_weights a) q [b, l, h * head_dim a + j] *
                   linear_elem (k_weights a) k [b, kk, h * head_dim a + j])
                / sqrt (real (head_dim a))))"

definition attn_weight ::
  "multi_head_attention \<Rightarrow> bool \<Rightarrow> (nat list \<Rightarrow> bool) \<Rightarrow> 'm::zero tensor option \<Rightarrow>
   real tensor \<Rightarrow> real tensor \<Rightarrow> nat \<Rightarrow> nat \<Rightarrow> nat \<Rightarrow> nat \<Rightarrow> real" where
  "attn_weight a tr keep msk q k b h l kk =
     (let w = attn_exp a msk q k b h l kk /
              (\<Sum>kk'\<leftarrow>[0..<shape k ! 1]. attn_exp a msk q k b h l kk')
      in if tr \<and> sdpa_p a \<noteq> 0
         then (if keep [b, h, l, kk] then w / (1 - sdpa_p a) else 0)
         else w)"

definition attn_merged ::
  "multi_head_attention \<Rightarrow> bool \<Rightarrow> (nat list \<Rightarrow> bool) \<Rightarrow> 'm::zero tensor option \<Rightarrow>
   real tensor \<Rightarrow> real tensor \<Rightarrow> real tensor \<Rightarrow> nat \<Rightarrow> nat \<Rightarrow> nat \<Rightarrow> real" where
  "attn_merged a tr keep msk q k v b l e =
     (\<Sum>kk\<leftarrow>[0..<shape k ! 1].
        attn_weight a tr keep msk q k b (e div head_dim a) l kk *
        linear_elem (v_weights a) v [b, kk, (e div head_dim a) * head_dim a + e mod head_dim a])"

definition mha_elem ::
  "multi_head_attention \<Rightarrow> bool \<Rightarrow> (nat list \<Rightarrow> bool) \<Rightarrow> 'm::zero tensor option \<Rightarrow>
   real tensor \<Rightarrow> real tensor \<Rightarrow> real tensor \<Rightarrow> nat \<Rightarrow> nat \<Rightarrow> nat \<Rightarrow> real" where
  "mha_elem a tr keep msk q k v b l out =
     (\<Sum>e\<leftarrow>[0..<mha_embed_size a].
        attn_merged a tr keep msk q k v b l e * elem (lin_weight (proj a)) [out, e])
     + elem (lin_bias (proj a)) [out]"

text \<open>Whether a mask can be applied to scores of shape \<open>s\<close>.\<close>

definition mask_fits :: "'m::zero tensor option \<Rightarrow> nat list \<Rightarrow> bool" where
  "mask_fits msk s =
     (case msk of None \<Rightarrow> True | Some mk \<Rightarrow> expandable (shape (unsqueeze mk 1)) s)"

section \<open>Two runs side by side\<close>

text \<open>
  Two activations of shapes (B, L, E) and (B, L', E) agree on the rows \<open>R\<close>: at every
  batch index \<open>b\<close> and every position \<open>l\<close> of both with \<open>R b l\<close> they hold the same
  values. Two results are related when both runs return and the returned tensors are.
\<close>

definition agree ::
  "nat \<Rightarrow> nat \<Rightarrow> nat \<Rightarrow> nat \<Rightarrow> (nat \<Rightarrow> nat \<Rightarrow> bool) \<Rightarrow> 'a tensor \<Rightarrow> 'a tensor \<Rightarrow> bool" where
  "agree B L L' E R x x' \<longleftrightarrow>
     shape x = [B, L, E] \<and> shape x' = [B, L', E] \<and>
     (\<forall>b l e. b < B \<and> l < L \<and> l < L' \<and> R b l \<and> e < E \<longrightarrow> elem x [b, l, e] = elem x' [b, l, e])"

definition rel_res :: "('a \<Rightarrow> 'b \<Rightarrow> bool) \<Rightarrow> error + 'a \<Rightarrow> error + 'b \<Rightarrow> bool" where
  "rel_res P r r' \<longleftrightarrow> (\<exists>y y'. r = Inr y \<and> r' = Inr y' \<and> P y y')"

text \<open>
  The padding mask as the attention modules receive it, of shape (B, 1, Ls): source
  position \<open>kk\<close> of batch row \<open>b\<close> is padded when the mask holds 0 there.
\<close>

definition padded :: "'m::zero tensor option \<Rightarrow> nat \<Rightarrow> nat \<Rightarrow> bool" where
  "padded msk b kk = (case msk of None \<Rightarrow> False | Some mk \<Rightarrow> elem mk [b, 0, kk] = 0)"

definition pad_mask_shaped :: "'m tensor option \<Rightarrow> nat \<Rightarrow> nat \<Rightarrow> bool" where
  "pad_mask_shaped msk B Ls = (case msk of None \<Rightarrow> True | Some mk \<Rightarrow> shape mk = [B, 1, Ls])"

text \<open>
  The padding mask as the caller passes it to \<open>encode\<close> and \<open>forward\<close>, of shape
  (B, Ls): a source position is visible when the mask is not 0 there (every position
  is, without a mask).
\<close>

definition src_visible :: "'m::zero tensor option \<Rightarrow> nat \<Rightarrow> nat \<Rightarrow> bool" where
  "src_visible msk b l = (case msk of None \<Rightarrow> True | Some mk \<Rightarrow> elem mk [b, l] \<noteq> 0)"

definition src_mask_shaped :: "'m tensor option \<Rightarrow> nat \<Rightarrow> nat \<Rightarrow> bool" where
  "src_mask_shaped msk B Ls = (case msk of None \<Rightarrow> True | Some mk \<Rightarrow> shape mk = [B, Ls])"

text \<open>Token ids of shape (B, L), every id inside a vocabulary of \<open>V\<close> entries.\<close>

definition ids_valid :: "int tensor \<Rightarrow> nat \<Rightarrow> nat \<Rightarrow> nat \<Rightarrow> bool" where
  "ids_valid ids B L V \<longleftrightarrow>
     shape ids = [B, L] \<and>
     (\<forall>b l. b < B \<and> l < L \<longrightarrow> 0 \<le> elem ids [b, l] \<and> elem ids [b, l] < int V)"

section \<open>State dictionaries and persistence\<close>

text \<open>
  A key of a state dictionary is the path of a parameter through the module tree:
  \<open>encoder.encoder_layers.0.mha.proj.weight\<close> is the list of its components, an
  attribute name or the position in a \<open>ModuleList\<close> or \<open>Sequential\<close>. A state
  dictionary keeps its entries in order.
\<close>

datatype component = Attr string | Index nat

type_synonym key = "component list"

type_synonym tensor_dict = "(key \<times> real tensor) list"

subsection \<open>The state dictionary of a module\<close>

definition state_dict_linear :: "key \<Rightarrow> linear \<Rightarrow> tensor_dict" where
  "state_dict_linear p l =
     [(p @ [Attr ''weight''], lin_weight l), (p @ [Attr ''bias''], lin_bias l)]"

definition state_dict_layer_norm :: "key \<Rightarrow> layer_norm \<Rightarrow> tensor_dict" where
  "state_dict_layer_norm p n =
     [(p @ [Attr ''weight''], ln_weight n), (p @ [Attr ''bias''], ln_bias n)]"

definition state_dict_mha :: "key \<Rightarrow> multi_head_attention \<Rightarrow> tensor_dict" where
  "state_dict_mha p a =
     state_dict_linear (p @ [Attr ''q_weights'']) (q_weights a) @
     state_dict_linear (p @ [Attr ''k_weights'']) (k_weights a) @
     state_dict_linear (p @ [Attr ''v_weights'']) (v_weights a) @
     state_dict_linear (p @ [Attr ''proj'']) (proj a)"

text \<open>The two linear layers of \<open>FeedForward.ff\<close> are entries 0 and 3 of the \<open>Sequential\<close>.\<close>

definition state_dict_ff :: "key \<Rightarrow> feed_forward \<Rightarrow> tensor_dict" where
  "state_dict_ff p f =
     state_dict_linear (p @ [Attr ''ff'', Index 0]) (ff_lin1 f) @
     state_dict_linear (p @ [Attr ''ff'', Index 3]) (ff_lin2 f)"

definition state_dict_encoder_layer :: "key \<Rightarrow> encoder_layer \<Rightarrow> tensor_dict" where
  "state_dict_encoder_layer p l =
     state_dict_ff (p @ [Attr ''ff'']) (enc_ff l) @
     state_dict_mha (p @ [Attr ''mha'']) (enc_mha l) @
     state_dict_layer_norm (p @ [Attr ''ln1'']) (enc_ln1 l) @
     state_dict_layer_norm (p @ [Attr ''ln2'']) (enc_ln2 l)"

definition state_dict_decoder_layer :: "key \<Rightarrow> decoder_layer \<Rightarrow> tensor_dict" where
  "state_dict_decoder_layer p l =
     state_dict_ff (p @ [Attr ''ff'']) (dec_ff l) @
     state_dict_mha (p @ [Attr ''mha'']) (dec_mha l) @
     state_dict_mha (p @ [Attr ''mmha'']) (dec_mmha l) @
     state_dict_layer_norm (p @ [Attr ''ln1'']) (dec_ln1 l) @
     state_dict_layer_norm (p @ [Attr ''ln2'']) (dec_ln2 l) @
     state_dict_layer_norm (p @ [Attr ''ln3'']) (dec_ln3 l)"

text \<open>The modules of a \<open>ModuleList\<close>, numbered from \<open>i\<close>.\<close>

fun state_dict_layers ::
  "(key \<Rightarrow> 'a \<Rightarrow> tensor_dict) \<Rightarrow> key \<Rightarrow> nat \<Rightarrow> 'a list \<Rightarrow> tensor_dict" where
  "state_dict_layers f p i [] = []"
| "state_dict_layers f p i (l # ls) = f (p @ [Index i]) l @ state_dict_layers f p (Suc i) ls"

definition state_dict_final_ln :: "key \<Rightarrow> layer_norm option \<Rightarrow> tensor_dict" where
  "state_dict_final_ln p fln =
     (case fln of None \<Rightarrow> [] | Some n \<Rightarrow> state_dict_layer_norm (p @ [Attr ''final_ln'']) n)"

definition state_dict_encoder :: "key \<Rightarrow> encoder \<Rightarrow> tensor_dict" where
  "state_dict_encoder p e =
     state_dict_layers state_dict_encoder_layer (p @ [Attr ''encoder_layers'']) 0
       (encoder_layers e) @
     state_dict_final_ln p (enc_final_ln e)"

definition state_dict_decoder :: "key \<Rightarrow> decoder \<Rightarrow> tensor_dict" where
  "state_dict_decoder p d =
     state_dict_layers state_dict_decoder_layer (p @ [Attr ''decoder_layers'']) 0
       (decoder_layers d) @
     state_dict_final_ln p (dec_final_ln d)"

text \<open>
  \<open>Transformer.state_dict()\<close>. The positional table is a plain attribute, neither a
  parameter nor a buffer, so it has no entry; a tied weight has its two entries.
\<close>

definition state_dict :: "transformer \<Rightarrow> tensor_dict" where
  "state_dict m =
     state_dict_encoder [Attr ''encoder''] (encoder m) @
     state_dict_decoder [Attr ''decoder''] (decoder m) @
     [([Attr ''embeddings'', Attr ''weight''], storage m (embeddings_weight m)),
      ([Attr ''fc'', Attr ''weight''], storage m (fc_weight m)),
      ([Attr ''fc'', Attr ''bias''], fc_bias m)]"

subsection \<open>Loading a state dictionary\<close>

text \<open>
  One parameter is loaded from the entry under its key, which must be there and have the
  shape of the parameter; the values are copied into the parameter. The library collects
  the missing keys and the mismatched shapes and raises one \<open>RuntimeError\<close> for all.
\<close>

definition load_param :: "tensor_dict \<Rightarrow> key \<Rightarrow> real tensor \<Rightarrow> error + real tensor" where
  "load_param sd k p =
     (case map_of sd k of
        None \<Rightarrow> Inl RuntimeError
      | Some t \<Rightarrow> if shape t = shape p then Inr t else Inl RuntimeError)"

definition load_linear :: "tensor_dict \<Rightarrow> key \<Rightarrow> linear \<Rightarrow> error + linear" where
  "load_linear sd p l =
     ebind (load_param sd (p @ [Attr ''weight'']) (lin_weight l)) (\<lambda>w.
     ebind (load_param sd (p @ [Attr ''bias'']) (lin_bias l)) (\<lambda>b.
     Inr (l\<lparr>lin_weight := w, lin_bias := b\<rparr>)))"

definition load_layer_norm :: "tensor_dict \<Rightarrow> key \<Rightarrow> layer_norm \<Rightarrow> error + layer_norm" where
  "load_layer_norm sd p n =
     ebind (load_param sd (p @ [Attr ''weight'']) (ln_weight n)) (\<lambda>w.
     ebind (load_param sd (p @ [Attr ''bias'']) (ln_bias n)) (\<lambda>b.
     Inr (n\<lparr>ln_weight := w, ln_bias := b\<rparr>)))"

definition load_mha ::
  "tensor_dict \<Rightarrow> key \<Rightarrow> multi_head_attention \<Rightarrow> error + multi_head_attention" where
  "load_mha sd p a =
     ebind (load_linear sd (p @ [Attr ''q_weights'']) (q_weights a)) (\<lambda>q.
     ebind (load_linear sd (p @ [Attr ''k_weights'']) (k_weights a)) (\<lambda>k.
     ebind (load_linear sd (p @ [Attr ''v_weights'']) (v_weights a)) (\<lambda>v.
     ebind (load_linear sd (p @ [Attr ''proj'']) (proj a)) (\<lambda>pr.
     Inr (a\<lparr>q_weights := q, k_weights := k, v_weights := v, proj := pr\<rparr>)))))"

definition load_ff :: "tensor_dict \<Rightarrow> key \<Rightarrow> feed_forward \<Rightarrow> error + feed_forward" where
  "load_ff sd p f =
     ebind (load_linear sd (p @ [Attr ''ff'', Index 0]) (ff_lin1 f)) (\<lambda>l1.
     ebind (load_linear sd (p @ [Attr ''ff'', Index 3]) (ff_lin2 f)) (\<lambda>l2.
     Inr (f\<lparr>ff_lin1 := l1, ff_lin2 := l2\<rparr>)))"

definition load_encoder_layer :: "tensor_dict \<Rightarrow> key \<Rightarrow> encoder_layer \<Rightarrow> error + encoder_layer" where
  "load_encoder_layer sd p l =
     ebind (load_ff sd (p @ [Attr ''ff'']) (enc_ff l)) (\<lambda>f.
     ebind (load_mha sd (p @ [Attr ''mha'']) (enc_mha l)) (\<lambda>a.
     ebind (load_layer_norm sd (p @ [Attr ''ln1'']) (enc_ln1 l)) (\<lambda>n1.
     ebind (load_layer_norm sd (p @ [Attr ''ln2'']) (enc_ln2 l)) (\<lambda>n2.
     Inr (l\<lparr>enc_ff := f, enc_mha := a, enc_ln1 := n1, enc_ln2 := n2\<rparr>)))))"

definition load_decoder_layer :: "tensor_dict \<Rightarrow> key \<Rightarrow> decoder_layer \<Rightarrow> error + decoder_layer" where
  "load_decoder_layer sd p l =
     ebind (load_ff sd (p @ [Attr ''ff'']) (dec_ff l)) (\<lambda>f.
     ebind (load_mha sd (p @ [Attr ''mha'']) (dec_mha l)) (\<lambda>a.
     ebind (load_mha sd (p @ [Attr ''mmha'']) (dec_mmha l)) (\<lambda>ma.
     ebind (load_layer_norm sd (p @ [Attr ''ln1'']) (dec_ln1 l)) (\<lambda>n1.
     ebind (load_layer_norm sd (p @ [Attr ''ln2'']) (dec_ln2 l)) (\<lambda>n2.
     ebind (load_layer_norm sd (p @ [Attr ''ln3'']) (dec_ln3 l)) (\<lambda>n3.
     Inr (l\<lparr>dec_ff := f, dec_mha := a, dec_mmha := ma,
            dec_ln1 := n1, dec_ln2 := n2, dec_ln3 := n3\<rparr>)))))))"

fun load_layers ::
  "(tensor_dict \<Rightarrow> key \<Rightarrow> 'a \<Rightarrow> error + 'a) \<Rightarrow> tensor_dict \<Rightarrow> key \<Rightarrow> nat \<Rightarrow> 'a list \<Rightarrow> error + 'a list" where
  "load_layers f sd p i [] = Inr []"
| "load_layers f sd p i (l # ls) =
     ebind (f sd (p @ [Index i]) l) (\<lambda>l'.
     ebind (load_layers f sd p (Suc i) ls) (\<lambda>ls'.
     Inr (l' # ls')))"

definition load_final_ln :: "tensor_dict \<Rightarrow> key \<Rightarrow> layer_norm option \<Rightarrow> error + layer_norm option" where
  "load_final_ln sd p fln =
     (case fln of
        None \<Rightarrow> Inr None
      | Some n \<Rightarrow> ebind (load_layer_norm sd (p @ [Attr ''final_ln'']) n) (\<lambda>n'. Inr (Some n')))"

definition load_encoder :: "tensor_dict \<Rightarrow> key \<Rightarrow> encoder \<Rightarrow> error + encoder" where
  "load_encoder sd p e =
     ebind (load_layers load_encoder_layer sd (p @ [Attr ''encoder_layers'']) 0
              (encoder_layers e)) (\<lambda>ls.
     ebind (load_final_ln sd p (enc_final_ln e)) (\<lambda>fln.
     Inr (e\<lparr>encoder_layers := ls, enc_final_ln := fln\<rparr>)))"

definition load_decoder :: "tensor_dict \<Rightarrow> key \<Rightarrow> decoder \<Rightarrow> error + decoder" where
  "load_decoder sd p d =
     ebind (load_layers load_decoder_layer sd (p @ [Attr ''decoder_layers'']) 0
              (decoder_layers d)) (\<lambda>ls.
     ebind (load_final_ln sd p (dec_final_ln d)) (\<lambda>fln.
     Inr (d\<lparr>decoder_layers := ls, dec_final_ln := fln\<rparr>)))"

text \<open>
  \<open>load_state_dict\<close> with its default \<open>strict=True\<close>: a key of the dictionary that
  names no parameter of the model is an error too. The embedding weight and the weight of
  \<open>fc\<close> are written in place, at their addresses; when they are tied the second write
  goes to the tensor of the first.
\<close>

definition load_state_dict :: "transformer \<Rightarrow> tensor_dict \<Rightarrow> error + transformer" where
  "load_state_dict m sd =
     (if \<not> list_all (\<lambda>k. k \<in> set (map fst (state_dict m))) (map fst sd) then Inl RuntimeError
      else
        ebind (load_encoder sd [Attr ''encoder''] (encoder m)) (\<lambda>enc.
        ebind (load_decoder sd [Attr ''decoder''] (decoder m)) (\<lambda>dec.
        ebind (load_param sd [Attr ''embeddings'', Attr ''weight'']
                 (storage m (embeddings_weight m))) (\<lambda>ew.
        ebind (load_param sd [Attr ''fc'', Attr ''weight''] (storage m (fc_weight m))) (\<lambda>fw.
        ebind (load_param sd [Attr ''fc'', Attr ''bias''] (fc_bias m)) (\<lambda>fb.
        Inr (update_inplace (fc_weight m) fw
               (update_inplace (embeddings_weight m) ew
                  (m\<lparr>encoder := enc, decoder := dec, fc_bias := fb\<rparr>)))))))))"

subsection \<open>Files\<close>

text \<open>
  The configuration is saved as a JSON object of integers and booleans. The text of the
  file is not modelled: a JSON file holds the object that \<open>json.dump\<close> wrote and
  \<open>json.load\<close> reads, and the file of \<open>torch.save\<close> holds the state dictionary.
\<close>

datatype json = JInt int | JBool bool

datatype contents = Pickle tensor_dict | Json "(string \<times> json) list"

text \<open>
  The file system: which paths are directories, and the contents of the files. Writing
  needs the directory to exist (the empty path is the working directory) and the name
  not to be a directory; lack of permission or of space is outside the model, and so is
  the kind of error \<open>torch.save\<close> raises where \<open>open\<close> raises \<open>FileNotFoundError\<close>.
\<close>

record filesystem =
  is_dir :: "string \<Rightarrow> bool"
  files :: "string \<rightharpoonup> contents"

text \<open>\<open>os.path.join(a, b)\<close> for a relative \<open>b\<close>.\<close>

definition path_join :: "string \<Rightarrow> string \<Rightarrow> string" where
  "path_join a b = (if a = [] \<or> last a = CHR ''/'' then a @ b else a @ ''/'' @ b)"

definition write_file :: "string \<Rightarrow> string \<Rightarrow> contents \<Rightarrow> filesystem \<Rightarrow> error + filesystem" where
  "write_file dir name content fs =
     (if dir \<noteq> [] \<and> \<not> is_dir fs dir then Inl FileNotFoundError
      else if is_dir fs (path_join dir name) then Inl IsADirectoryError
      else Inr (fs\<lparr>files := (files fs)(path_join dir name \<mapsto> content)\<rparr>))"

definition read_file :: "string \<Rightarrow> filesystem \<Rightarrow> error + contents" where
  "read_file path fs =
     (if is_dir fs path then Inl IsADirectoryError
      else case files fs path of None \<Rightarrow> Inl FileNotFoundError | Some c \<Rightarrow> Inr c)"

definition json_load :: "string \<Rightarrow> filesystem \<Rightarrow> error + (string \<times> json) list" where
  "json_load path fs =
     ebind (read_file path fs) (\<lambda>c.
     case c of Json doc \<Rightarrow> Inr doc | Pickle sd \<Rightarrow> Inl ValueError)"

definition torch_load :: "string \<Rightarrow> filesystem \<Rightarrow> error + tensor_dict" where
  "torch_load path fs =
     ebind (read_file path fs) (\<lambda>c.
     case c of Pickle sd \<Rightarrow> Inr sd | Json doc \<Rightarrow> Inl UnpicklingError)"

subsection \<open>The configuration as a dictionary\<close>

definition asdict :: "transformer_config \<Rightarrow> (string \<times> json) list" where
  "asdict cfg =
     [(''vocab_size'', JInt (int (vocab_size cfg))),
      (''n_encoder_layers'', JInt (int (n_encoder_layers cfg))),
      (''n_decoder_layers'', JInt (int (n_decoder_layers cfg))),
      (''n_encoder_heads'', JInt (int (n_encoder_heads cfg))),
      (''n_decoder_heads'', JInt (int (n_decoder_heads cfg))),
      (''embed_size'', JInt (int (embed_size cfg))),
      (''d_ff'', JInt (int (d_ff cfg))),
      (''max_len'', JInt (int (max_len cfg))),
      (''tie_embeddings'', JBool (tie_embeddings cfg)),
      (''post_ln'', JBool (post_ln cfg)),
      (''use_additional_dropout'', JBool (use_additional_dropout cfg)),
      (''xavier_initialization'', JBool (xavier_initialization cfg))]"

text \<open>
  \<open>TransformerConfig(**config)\<close>: a keyword that is no field raises \<open>TypeError\<close>, a
  field without a keyword takes its default. The dataclass checks no type: a boolean
  given for a size counts as 0 or 1, an integer given for a flag is true when not 0.
\<close>

fun as_size :: "json \<Rightarrow> nat" where
  "as_size (JInt i) = nat i"
| "as_size (JBool b) = (if b then 1 else 0)"

fun as_flag :: "json \<Rightarrow> bool" where
  "as_flag (JBool b) = b"
| "as_flag (JInt i) = (i \<noteq> 0)"

definition size_field :: "(string \<times> json) list \<Rightarrow> string \<Rightarrow> nat \<Rightarrow> nat" where
  "size_field kwargs k d = (case map_of kwargs k of None \<Rightarrow> d | Some v \<Rightarrow> as_size v)"

definition flag_field :: "(string \<times> json) list \<Rightarrow> string \<Rightarrow> bool \<Rightarrow> bool" where
  "flag_field kwargs k d = (case map_of kwargs k of None \<Rightarrow> d | Some v \<Rightarrow> as_flag v)"

definition field_names :: "string list" where
  "field_names =
     [''vocab_size'', ''n_encoder_layers'', ''n_decoder_layers'', ''n_encoder_heads'',
      ''n_decoder_heads'', ''embed_size'', ''d_ff'', ''max_len'', ''tie_embeddings'',
      ''post_ln'', ''use_additional_dropout'', ''xavier_initialization'']"

definition TransformerConfig_init :: "(string \<times> json) list \<Rightarrow> error + transformer_config" where
  "TransformerConfig_init kwargs =
     (if \<not> list_all (\<lambda>k. k \<in> set field_names) (map fst kwargs) then Inl TypeError
      else Inr \<lparr>vocab_size = size_field kwargs ''vocab_size'' 8192,
                n_encoder_layers = size_field kwargs ''n_encoder_layers'' 6,
                n_decoder_layers = size_field kwargs ''n_decoder_layers'' 6,
                n_encoder_heads = size_field kwargs ''n_encoder_heads'' 8,
                n_decoder_heads = size_field kwargs ''n_decoder_heads'' 8,
                embed_size = size_field kwargs ''embed_size'' 512,
                d_ff = size_field kwargs ''d_ff'' 2048,
                max_len = size_field kwargs ''max_len'' 4096,
                tie_embeddings = flag_field kwargs ''tie_embeddings'' True,
                post_ln = flag_field kwargs ''post_ln'' True,
                use_additional_dropout = flag_field kwargs ''use_additional_dropout'' False,
                xavier_initialization = flag_field kwargs ''xavier_initialization'' False\<rparr>)"

subsection \<open>Saving and loading a model\<close>

definition save_pretrained :: "transformer \<Rightarrow> string \<Rightarrow> filesystem \<Rightarrow> error + filesystem" where
  "save_pretrained m save_path fs =
     ebind (write_file save_path ''model.pt'' (Pickle (state_dict m)) fs) (\<lambda>fs.
     write_file save_path ''config.json'' (Json (asdict (config m))) fs)"

text \<open>
  \<open>from_pretrained\<close> builds a new model from the saved configuration, with initial
  values \<open>init\<close> of its own, and loads the saved parameters into it.
\<close>

definition from_pretrained :: "string \<Rightarrow> real draws \<Rightarrow> filesystem \<Rightarrow> error + transformer" where
  "from_pretrained pretrained_path init fs =
     ebind (json_load (path_join pretrained_path ''config.json'') fs) (\<lambda>doc.
     ebind (TransformerConfig_init doc) (\<lambda>cfg.
     ebind (Transformer_init cfg init) (\<lambda>model.
     ebind (torch_load (path_join pretrained_path ''model.pt'') fs) (\<lambda>sd.
     load_state_dict model sd))))"

text \<open>
  The states a model object goes through: it is built by the constructor, its parameters
  are written in place (what \<open>load_state_dict\<close> does, and a training step), and it is
  switched between training and evaluation mode.
\<close>

inductive constructed :: "transformer \<Rightarrow> bool" where
  built: "Transformer_init cfg init = Inr m \<Longrightarrow> constructed m"
| loaded: "constructed m \<Longrightarrow> load_state_dict m sd = Inr m' \<Longrightarrow> constructed m'"
| mode: "constructed m \<Longrightarrow> constructed (m\<lparr>training := b\<rparr>)"

text \<open>
  The architecture of a model: the model with the values of its parameters blanked and
  the mode forgotten. Loading and initialisation change a model within its architecture.
\<close>

definition blank :: "real tensor \<Rightarrow> real tensor" where
  "blank t = \<lparr>shape = shape t, elem = (\<lambda>idx. 0)\<rparr>"

definition arch_linear :: "linear \<Rightarrow> linear" where
  "arch_linear l = \<lparr>lin_weight = blank (lin_weight l), lin_bias = blank (lin_bias l)\<rparr>"

definition arch_layer_norm :: "layer_norm \<Rightarrow> layer_norm" where
  "arch_layer_norm n = n\<lparr>ln_weight := blank (ln_weight n), ln_bias := blank (ln_bias n)\<rparr>"

definition arch_mha :: "multi_head_attention \<Rightarrow> multi_head_attention" where
  "arch_mha a =
     a\<lparr>q_weights := arch_linear (q_weights a), k_weights := arch_linear (k_weights a),
       v_weights := arch_linear (v_weights a), proj := arch_linear (proj a)\<rparr>"

definition arch_ff :: "feed_forward \<Rightarrow> feed_forward" where
  "arch_ff f = f\<lparr>ff_lin1 := arch_linear (ff_lin1 f), ff_lin2 := arch_linear (ff_lin2 f)\<rparr>"

definition arch_encoder_layer :: "encoder_layer \<Rightarrow> encoder_layer" where
  "arch_encoder_layer l =
     l\<lparr>enc_ff := arch_ff (enc_ff l), enc_mha := arch_mha (enc_mha l),
       enc_ln1 := arch_layer_norm (enc_ln1 l), enc_ln2 := arch_layer_norm (enc_ln2 l)\<rparr>"

definition arch_decoder_layer :: "decoder_layer \<Rightarrow> decoder_layer" where
  "arch_decoder_layer l =
     l\<lparr>dec_ff := arch_ff (dec_ff l), dec_mha := arch_mha (dec_mha l),
       dec_mmha := arch_mha (dec_mmha l), dec_ln1 := arch_layer_norm (dec_ln1 l),
       dec_ln2 := arch_layer_norm (dec_ln2 l), dec_ln3 := arch_layer_norm (dec_ln3 l)\<rparr>"

definition arch_encoder :: "encoder \<Rightarrow> encoder" where
  "arch_encoder e =
     \<lparr>encoder_layers = map arch_encoder_layer (encoder_layers e),
      enc_final_ln = map_option arch_layer_norm (enc_final_ln e)\<rparr>"

definition arch_decoder :: "decoder \<Rightarrow> decoder" where
  "arch_decoder d =
     \<lparr>decoder_layers = map arch_decoder_layer (decoder_layers d),
      dec_final_ln = map_option arch_layer_norm (dec_final_ln d)\<rparr>"

definition same_architecture :: "transformer \<Rightarrow> transformer \<Rightarrow> bool" where
  "same_architecture m m' \<longleftrightarrow>
     config m = config m' \<and> pos_enc m = pos_enc m' \<and>
     arch_encoder (encoder m) = arch_encoder (encoder m') \<and>
     arch_decoder (decoder m) = arch_decoder (decoder m') \<and>
     sqrt_dmodel m = sqrt_dmodel m' \<and> dropout_p m = dropout_p m' \<and>
     embeddings_weight m = embeddings_weight m' \<and> fc_weight m = fc_weight m' \<and>
     shape (storage m (embeddings_weight m)) = shape (storage m' (embeddings_weight m')) \<and>
     shape (storage m (fc_weight m)) = shape (storage m' (fc_weight m')) \<and>
     shape (fc_bias m) = shape (fc_bias m')"

section \<open>Small instances\<close>

text \<open>A configuration and inputs small enough to run by hand, for the concrete checks.\<close>

definition example_config :: transformer_config where
  "example_config =
     \<lparr>vocab_size = 5, n_encoder_layers = 1, n_decoder_layers = 1, n_encoder_heads = 2,
      n_decoder_heads = 2, embed_size = 4, d_ff = 8, max_len = 6, tie_embeddings = True,
      post_ln = True, use_additional_dropout = False, xavier_initialization = False\<rparr>"

definition zero_draws :: "real draws" where
  "zero_draws = (\<lambda>site idx. 0)"

definition no_drops :: "bool draws" where
  "no_drops = (\<lambda>site idx. True)"

definition ids_of :: "int list list \<Rightarrow> int tensor" where
  "ids_of rows =
     \<lparr>shape = [length rows, length (hd rows)], elem = (\<lambda>idx. rows ! (idx ! 0) ! (idx ! 1))\<rparr>"

lemma ebind_Inr [simp]: "ebind (Inr x) f = f x"
  by (simp add: ebind_def)

lemma ebind_Inl [simp]: "ebind (Inl e) f = Inl e"
  by (simp add: ebind_def)

lemma idx_one [simp]: "i < n \<Longrightarrow> (if n = Suc 0 then 0 else i) = i"
  by auto

lemma size_dim_ok [simp]: "d < length (shape t) \<Longrightarrow> size_dim t d = Inr (shape t ! d)"
  by (simp add: size_dim_def)

lemma shape_map_tensor [simp]: "shape (map_tensor f t) = shape t"
  and elem_map_tensor [simp]: "elem (map_tensor f t) idx = f (elem t idx)"
  by (simp_all add: map_tensor_def)

lemma shape_dropout [simp]: "shape (dropout p tr keep x) = shape x"
  by (simp add: dropout_def)

lemma shape_relu [simp]: "shape (relu x) = shape x"
  by (simp add: relu_def)

lemma Linear_forward_3:
  "linear_shaped l n_in n_out \<Longrightarrow> shape x = [B, L, n_in] \<Longrightarrow>
   Linear_forward l x = Inr \<lparr>shape = [B, L, n_out], elem = linear_elem l x\<rparr>"
  by (auto simp add: Linear_forward_def F_linear_def linear_shaped_def linear_elem_def fun_eq_iff)

lemma LayerNorm_forward_3:
  "layer_norm_shaped lnm e \<Longrightarrow> shape x = [B, L, e] \<Longrightarrow>
   \<exists>y. LayerNorm_forward lnm x = Inr y \<and> shape y = [B, L, e] \<and>
     (\<forall>b l j. elem y [b, l, j] =
        (let mean = (\<Sum>k\<leftarrow>[0..<e]. elem x [b, l, k]) / real e;
             var = (\<Sum>k\<leftarrow>[0..<e]. (elem x [b, l, k] - mean)\<^sup>2) / real e
         in (elem x [b, l, j] - mean) / sqrt (var + ln_eps lnm) * elem (ln_weight lnm) [j]
            + elem (ln_bias lnm) [j]))"
  by (simp add: LayerNorm_forward_def layer_norm_shaped_def Let_def)

lemma broadcast_dims_same [simp]: "broadcast_dims s s = Inr s"
  by (induction s) simp_all

lemma broadcast_shapes_same [simp]: "broadcast_shapes s s = Inr s"
  by (simp add: broadcast_shapes_def pad_left_def)

lemma expandable_same [simp]: "expandable s s"
  by (simp add: expandable_def list_all2_same)

lemma broadcast_index_3 [simp]:
  "broadcast_index [B, L, E] [b, l, e] =
     [if B = 1 then 0 else b, if L = 1 then 0 else l, if E = 1 then 0 else e]"
  by (simp add: broadcast_index_def)

lemma add_3:
  "shape x = [B, L, E] \<Longrightarrow> shape y = [B, L, E] \<Longrightarrow>
   \<exists>z. add x y = Inr z \<and> shape z = [B, L, E] \<and>
     (\<forall>b l e. b < B \<longrightarrow> l < L \<longrightarrow> e < E \<longrightarrow> elem z [b, l, e] = elem x [b, l, e] + elem y [b, l, e])"
  by (simp add: add_def broadcast2_def expand_def)

lemma shape_create_causal_mask: "shape (create_causal_mask n) = [n, n]"
  by (simp add: create_causal_mask_def map_tensor_def torch_tril_def torch_ones_def)

lemma elem_create_causal_mask:
  "elem (create_causal_mask n) [i, j] = (if j \<le> i then 1 else 0)"
  by (simp add: create_causal_mask_def map_tensor_def torch_tril_def torch_ones_def to_uint8_def)

lemma ravel_4: "ravel [B, L, H, d] [b, l, h, j] = ((b * L + l) * H + h) * d + j"
  by (simp add: ravel_def)

lemma ravel_3: "ravel [B, L, E] [b, l, e] = (b * L + l) * E + e"
  by (simp add: ravel_def)

lemma unravel_3: "unravel [B, L, E] n = [n div (L * E), n mod (L * E) div E, n mod (L * E) mod E]"
  by simp

lemma unravel_4:
  "unravel [B, L, H, d] n =
     [n div (L * (H * d)), n mod (L * (H * d)) div (H * d),
      n mod (L * (H * d)) mod (H * d) div d, n mod (L * (H * d)) mod (H * d) mod d]"
  by simp

lemma div_mod_offset:
  fixes q n r :: nat
  assumes "r < n"
  shows "(q * n + r) div n = q" and "(q * n + r) mod n = r"
  using assms by simp_all

lemma split_offset:
  fixes b l e L E :: nat
  assumes "l < L" "e < E"
  shows "((b * L + l) * E + e) div (L * E) = b"
    and "((b * L + l) * E + e) mod (L * E) = l * E + e"
proof -
  have lt: "l * E + e < L * E"
  proof -
    have "l * E + e < l * E + E" using assms by simp
    also have "\<dots> = (Suc l) * E" by simp
    also have "\<dots> \<le> L * E" using assms by (intro mult_le_mono1) simp
    finally show ?thesis .
  qed
  have eq: "(b * L + l) * E + e = b * (L * E) + (l * E + e)"
    by (simp add: algebra_simps)
  show "((b * L + l) * E + e) div (L * E) = b"
    unfolding eq by (rule div_mod_offset [OF lt])
  show "((b * L + l) * E + e) mod (L * E) = l * E + e"
    unfolding eq by (rule div_mod_offset [OF lt])
qed

lemma view_split:
  assumes "shape x = [B, L, H * d]"
  shows "\<exists>y. view x [B, L, H, d] = Inr y \<and> shape y = [B, L, H, d] \<and>
    (\<forall>b l h j. b < B \<longrightarrow> l < L \<longrightarrow> h < H \<longrightarrow> j < d \<longrightarrow> elem y [b, l, h, j] = elem x [b, l, h * d + j])"
proof -
  have idx: "unravel [B, L, H * d] (ravel [B, L, H, d] [b, l, h, j]) = [b, l, h * d + j]"
    if "l < L" "h < H" "j < d" for b l h j
  proof -
    have e: "h * d + j < H * d"
    proof -
      have "h * d + j < (Suc h) * d" using that by simp
      also have "\<dots> \<le> H * d" using that by (intro mult_le_mono1) simp
      finally show ?thesis .
    qed
    have r: "ravel [B, L, H, d] [b, l, h, j] = (b * L + l) * (H * d) + (h * d + j)"
      by (simp add: ravel_4 algebra_simps)
    show ?thesis
      unfolding r unravel_3 using split_offset [OF that(1) e, of b] div_mod_offset [OF e, of l] by simp
  qed
  show ?thesis
    using assms idx by (simp add: view_def)
qed

lemma view_merge:
  assumes "shape x = [B, L, H, d]"
  shows "\<exists>y. view x [B, L, H * d] = Inr y \<and> shape y = [B, L, H * d] \<and>
    (\<forall>b l e. b < B \<longrightarrow> l < L \<longrightarrow> e < H * d \<longrightarrow> elem y [b, l, e] = elem x [b, l, e div d, e mod d])"
proof -
  have idx: "unravel [B, L, H, d] (ravel [B, L, H * d] [b, l, e]) = [b, l, e div d, e mod d]"
    if "l < L" "e < H * d" for b l e
    unfolding ravel_3 unravel_4 using split_offset [OF that, of b] div_mod_offset [OF that(2), of l] by simp
  show ?thesis
    using assms idx by (simp add: view_def)
qed

lemma shape_transpose_4 [simp]:
  "shape t = [a, b, c, d] \<Longrightarrow> shape (transpose_dims t 1 2) = [a, c, b, d]"
  "shape t = [a, b, c, d] \<Longrightarrow> shape (transpose_dims t (Suc 0) 2) = [a, c, b, d]"
  "shape t = [a, b, c, d] \<Longrightarrow> shape (transpose_dims t 3 2) = [a, b, d, c]"
  by (simp_all add: transpose_dims_def)

lemma elem_transpose_4 [simp]:
  "elem (transpose_dims t 1 2) [i, j, k, l] = elem t [i, k, j, l]"
  "elem (transpose_dims t (Suc 0) 2) [i, j, k, l] = elem t [i, k, j, l]"
  "elem (transpose_dims t 3 2) [i, j, k, l] = elem t [i, j, l, k]"
  by (simp_all add: transpose_dims_def)

lemma matmul_4:
  assumes "shape a = [B, H, n, k]" "shape b = [B, H, k, m]"
  shows "\<exists>c. matmul a b = Inr c \<and> shape c = [B, H, n, m] \<and>
    (\<forall>i h r s. i < B \<longrightarrow> h < H \<longrightarrow>
       elem c [i, h, r, s] = (\<Sum>j\<leftarrow>[0..<k]. elem a [i, h, r, j] * elem b [i, h, j, s]))"
  using assms by (simp add: matmul_def broadcast_index_def)

lemma elem_dropout:
  "elem (dropout p tr keep x) idx =
     (if tr \<and> p \<noteq> 0 then (if keep idx then elem x idx / (1 - p) else 0) else elem x idx)"
  by (simp add: dropout_def)

lemma shape_softmax [simp]: "shape (softmax t) = shape t"
  by (simp add: softmax_def)

lemma elem_softmax_4:
  "shape t = [B, H, n, m] \<Longrightarrow>
   elem (softmax t) [b, h, l, kk] =
     exp_score (elem t [b, h, l, kk]) / (\<Sum>k\<leftarrow>[0..<m]. exp_score (elem t [b, h, l, k]))"
  by (simp add: softmax_def)

lemma masked_scores:
  assumes "shape x = s" "mask_fits msk s"
  shows "\<exists>y. (case msk of
              None \<Rightarrow> Inr (map_tensor Some x)
            | Some mk \<Rightarrow>
                let mk = unsqueeze mk 1
                in masked_fill_neg_inf x (map_tensor (\<lambda>x. x = 0) mk)) = Inr y \<and>
          shape y = s \<and>
          (\<forall>idx. elem y idx = (if mask_fn msk idx then None else Some (elem x idx)))"
  using assms
  by (cases msk) (simp_all add: mask_fits_def mask_fn_def masked_fill_neg_inf_def expand_def Let_def)

lemma sdpa_4:
  assumes q: "shape q = [B, H, Lq, d]" and k: "shape k = [B, H, Lk, d]"
    and v: "shape v = [B, H, Lk, d]" and m: "mask_fits msk [B, H, Lq, Lk]"
  shows "\<exists>att. ScaledDotProductAttention_forward p tr keep q k v msk = Inr att \<and>
      shape att = [B, H, Lq, d] \<and>
      (\<forall>b h l j. b < B \<longrightarrow> h < H \<longrightarrow>
         elem att [b, h, l, j] =
           (\<Sum>kk\<leftarrow>[0..<Lk].
              (let ex = (\<lambda>kk. if mask_fn msk [b, h, l, kk] then 0
                              else exp ((\<Sum>j\<leftarrow>[0..<d]. elem q [b, h, l, j] * elem k [b, h, kk, j])
                                        / sqrt (real d)));
                   w = ex kk / (\<Sum>kk'\<leftarrow>[0..<Lk]. ex kk')
               in if tr \<and> p \<noteq> 0 then (if keep [b, h, l, kk] then w / (1 - p) else 0) else w)
              * elem v [b, h, kk, j]))"
proof -
  have kT: "transpose_dims k (length (shape k) - 1) (length (shape k) - 2) = transpose_dims k 3 2"
    using k by (simp add: eval_nat_numeral)
  have dk: "size_dim k (length (shape k) - 1) = Inr d"
    using k by (simp add: size_dim_def)
  have skT: "shape (transpose_dims k 3 2) = [B, H, d, Lk]"
    using k by simp
  from matmul_4 [OF q skT]
  obtain qk where qk: "matmul q (transpose_dims k 3 2) = Inr qk"
    and sqk: "shape qk = [B, H, Lq, Lk]"
    and eqk: "\<And>b h l kk. b < B \<Longrightarrow> h < H \<Longrightarrow>
       elem qk [b, h, l, kk] = (\<Sum>j\<leftarrow>[0..<d]. elem q [b, h, l, j] * elem k [b, h, kk, j])"
    by auto
  let ?aw = "map_tensor (\<lambda>x. x / sqrt (real d)) qk"
  have saw: "shape ?aw = [B, H, Lq, Lk]" using sqk by simp
  from masked_scores [OF saw m]
  obtain ms where ms: "(case msk of
              None \<Rightarrow> Inr (map_tensor Some ?aw)
            | Some mk \<Rightarrow>
                let mk = unsqueeze mk 1
                in masked_fill_neg_inf ?aw (map_tensor (\<lambda>x. x = 0) mk)) = Inr ms"
    and sms: "shape ms = [B, H, Lq, Lk]"
    and ems: "\<And>idx. elem ms idx = (if mask_fn msk idx then None else Some (elem ?aw idx))"
    by blast
  let ?w = "dropout p tr keep (softmax ms)"
  have sw: "shape ?w = [B, H, Lq, Lk]" using sms by simp
  from matmul_4 [OF sw v]
  obtain att where att: "matmul ?w v = Inr att"
    and satt: "shape att = [B, H, Lq, d]"
    and eatt: "\<And>b h l j. b < B \<Longrightarrow> h < H \<Longrightarrow>
       elem att [b, h, l, j] = (\<Sum>kk\<leftarrow>[0..<Lk]. elem ?w [b, h, l, kk] * elem v [b, h, kk, j])"
    by auto
  have run: "ScaledDotProductAttention_forward p tr keep q k v msk = Inr att"
    using ms unfolding ScaledDotProductAttention_forward_def dk kT ebind_Inr Let_def qk
    by (simp add: att)
  have ex: "exp_score (elem ms [b, h, l, kk]) =
      (if mask_fn msk [b, h, l, kk] then 0
       else exp ((\<Sum>j\<leftarrow>[0..<d]. elem q [b, h, l, j] * elem k [b, h, kk, j]) / sqrt (real d)))"
    if "b < B" "h < H" for b h l kk
    using that by (simp add: ems exp_score_def eqk)
  have w: "elem ?w [b, h, l, kk] =
      (let ex = (\<lambda>kk. if mask_fn msk [b, h, l, kk] then 0
                              else exp ((\<Sum>j\<leftarrow>[0..<d]. elem q [b, h, l, j] * elem k [b, h, kk, j])
                                        / sqrt (real d)));
                   w = ex kk / (\<Sum>kk'\<leftarrow>[0..<Lk]. ex kk')
               in if tr \<and> p \<noteq> 0 then (if keep [b, h, l, kk] then w / (1 - p) else 0) else w)"
    if "b < B" "h < H" for b h l kk
    unfolding elem_dropout elem_softmax_4 [OF sms] Let_def using that by (simp add: ex cong: map_cong)
  show ?thesis
    using run satt eatt w by simp
qed

lemma sum_list_cong:
  "(\<And>x. x \<in> set xs \<Longrightarrow> f x = g x) \<Longrightarrow> (\<Sum>x\<leftarrow>xs. f x) = (\<Sum>x\<leftarrow>xs. (g x :: real))"
  by (simp cong: map_cong)

lemma mha_forward_elem:
  assumes sh: "mha_shaped a E"
    and q: "shape q = [B, Lq, E]" and k: "shape k = [B, Lk, E]" and v: "shape v = [B, Lk, E]"
    and m: "mask_fits msk [B, n_heads a, Lq, Lk]"
  shows "\<exists>out. MultiHeadAttention_forward a tr keep q k v msk = Inr out \<and>
      shape out = [B, Lq, E] \<and>
      (\<forall>b l j. b < B \<longrightarrow> l < Lq \<longrightarrow> elem out [b, l, j] = mha_elem a tr keep msk q k v b l j)"
proof -
  define H where "H = n_heads a"
  define d where "d = head_dim a"
  have E: "E = H * d" and ES: "mha_embed_size a = E"
    and lq: "linear_shaped (q_weights a) E E" and lk: "linear_shaped (k_weights a) E E"
    and lv: "linear_shaped (v_weights a) E E" and lp: "linear_shaped (proj a) E E"
    using sh by (auto simp add: mha_shaped_def H_def d_def)
  let ?qp = "\<lparr>shape = [B, Lq, E], elem = linear_elem (q_weights a) q\<rparr>"
  let ?kp = "\<lparr>shape = [B, Lk, E], elem = linear_elem (k_weights a) k\<rparr>"
  let ?vp = "\<lparr>shape = [B, Lk, E], elem = linear_elem (v_weights a) v\<rparr>"
  have qp: "Linear_forward (q_weights a) q = Inr ?qp"
    and kp: "Linear_forward (k_weights a) k = Inr ?kp"
    and vp: "Linear_forward (v_weights a) v = Inr ?vp"
    using Linear_forward_3 [OF lq q] Linear_forward_3 [OF lk k] Linear_forward_3 [OF lv v]
    by simp_all
  have "shape ?qp = [B, Lq, H * d]" "shape ?kp = [B, Lk, H * d]" "shape ?vp = [B, Lk, H * d]"
    by (simp_all add: E)
  from view_split [OF this(1)] view_split [OF this(2)] view_split [OF this(3)]
  obtain q4 k4 v4 where
    q4: "view ?qp [B, Lq, H, d] = Inr q4" and sq4: "shape q4 = [B, Lq, H, d]"
    and eq4: "\<And>b l h j. b < B \<Longrightarrow> l < Lq \<Longrightarrow> h < H \<Longrightarrow> j < d \<Longrightarrow>
        elem q4 [b, l, h, j] = linear_elem (q_weights a) q [b, l, h * d + j]"
    and k4: "view ?kp [B, Lk, H, d] = Inr k4" and sk4: "shape k4 = [B, Lk, H, d]"
    and ek4: "\<And>b l h j. b < B \<Longrightarrow> l < Lk \<Longrightarrow> h < H \<Longrightarrow> j < d \<Longrightarrow>
        elem k4 [b, l, h, j] = linear_elem (k_weights a) k [b, l, h * d + j]"
    and v4: "view ?vp [B, Lk, H, d] = Inr v4" and sv4: "shape v4 = [B, Lk, H, d]"
    and ev4: "\<And>b l h j. b < B \<Longrightarrow> l < Lk \<Longrightarrow> h < H \<Longrightarrow> j < d \<Longrightarrow>
        elem v4 [b, l, h, j] = linear_elem (v_weights a) v [b, l, h * d + j]"
    by (auto simp del: One_nat_def)
  let ?q = "transpose_dims q4 1 2" and ?k = "transpose_dims k4 1 2" and ?v = "transpose_dims v4 1 2"
  have st: "shape ?q = [B, H, Lq, d]" "shape ?k = [B, H, Lk, d]" "shape ?v = [B, H, Lk, d]"
    using sq4 sk4 sv4 by simp_all
  have m': "mask_fits msk [B, H, Lq, Lk]" using m by (simp add: H_def)
  from sdpa_4 [OF st m', of "sdpa_p a" tr keep]
  obtain att where att: "ScaledDotProductAttention_forward (sdpa_p a) tr keep ?q ?k ?v msk = Inr att"
    and satt: "shape att = [B, H, Lq, d]"
    and eatt: "\<And>b h l j. b < B \<Longrightarrow> h < H \<Longrightarrow>
         elem att [b, h, l, j] =
           (\<Sum>kk\<leftarrow>[0..<Lk].
              (let ex = (\<lambda>kk. if mask_fn msk [b, h, l, kk] then 0
                              else exp ((\<Sum>j\<leftarrow>[0..<d]. elem ?q [b, h, l, j] * elem ?k [b, h, kk, j])
                                        / sqrt (real d)));
                   w = ex kk / (\<Sum>kk'\<leftarrow>[0..<Lk]. ex kk')
               in if tr \<and> sdpa_p a \<noteq> 0 then (if keep [b, h, l, kk] then w / (1 - sdpa_p a) else 0) else w)
              * elem ?v [b, h, kk, j])"
    by blast
  have "shape (transpose_dims att 1 2) = [B, Lq, H, d]" using satt by simp
  from view_merge [OF this]
  obtain mg where mg: "view (transpose_dims att 1 2) [B, Lq, H * d] = Inr mg"
    and smg: "shape mg = [B, Lq, H * d]"
    and emg: "\<And>b l e. b < B \<Longrightarrow> l < Lq \<Longrightarrow> e < H * d \<Longrightarrow>
        elem mg [b, l, e] = elem att [b, e div d, l, e mod d]"
    by (auto simp del: One_nat_def)
  have smg': "shape mg = [B, Lq, E]" using smg E by simp
  let ?out = "\<lparr>shape = [B, Lq, E], elem = linear_elem (proj a) mg\<rparr>"
  have out: "Linear_forward (proj a) mg = Inr ?out"
    by (rule Linear_forward_3 [OF lp smg'])
  have sz: "size_dim q 0 = Inr B" "size_dim ?qp 1 = Inr Lq" "size_dim ?kp 1 = Inr Lk"
    "size_dim ?vp 1 = Inr Lk" "size_dim ?q 2 = Inr Lq"
    using q st by (simp_all add: size_dim_def)
  have run: "MultiHeadAttention_forward a tr keep q k v msk = Inr ?out"
  proof -
    have mg': "view (transpose_dims att 1 2) [B, Lq, E] = Inr mg" using mg E by simp
    show ?thesis
      using sz qp kp vp q4 k4 v4 att mg' out ES
      by (simp add: MultiHeadAttention_forward_def H_def [symmetric] d_def [symmetric])
  qed
  have ex: "attn_exp a msk q k b h l kk =
      (if mask_fn msk [b, h, l, kk] then 0
       else exp ((\<Sum>j\<leftarrow>[0..<d]. elem ?q [b, h, l, j] * elem ?k [b, h, kk, j]) / sqrt (real d)))"
    if "b < B" "h < H" "l < Lq" "kk < Lk" for b h l kk
  proof -
    have "(\<Sum>j\<leftarrow>[0..<d]. elem ?q [b, h, l, j] * elem ?k [b, h, kk, j]) =
          (\<Sum>j\<leftarrow>[0..<d]. linear_elem (q_weights a) q [b, l, h * d + j] *
                           linear_elem (k_weights a) k [b, kk, h * d + j])"
      by (rule sum_list_cong) (use that in \<open>simp add: eq4 ek4\<close>)
    then show ?thesis by (simp add: attn_exp_def d_def)
  qed
  have w: "attn_weight a tr keep msk q k b h l kk =
      (let ex = (\<lambda>kk. if mask_fn msk [b, h, l, kk] then 0
                              else exp ((\<Sum>j\<leftarrow>[0..<d]. elem ?q [b, h, l, j] * elem ?k [b, h, kk, j])
                                        / sqrt (real d)));
                   w = ex kk / (\<Sum>kk'\<leftarrow>[0..<Lk]. ex kk')
               in if tr \<and> sdpa_p a \<noteq> 0 then (if keep [b, h, l, kk] then w / (1 - sdpa_p a) else 0) else w)"
    if "b < B" "h < H" "l < Lq" "kk < Lk" for b h l kk
  proof -
    have "(\<Sum>kk'\<leftarrow>[0..<Lk]. attn_exp a msk q k b h l kk') =
          (\<Sum>kk'\<leftarrow>[0..<Lk]. if mask_fn msk [b, h, l, kk'] then 0
                              else exp ((\<Sum>j\<leftarrow>[0..<d]. elem ?q [b, h, l, j] * elem ?k [b, h, kk', j])
                                        / sqrt (real d)))"
      by (rule sum_list_cong) (use that in \<open>simp add: ex\<close>)
    then show ?thesis
      using that k by (simp add: attn_weight_def Let_def ex)
  qed
  have mgv: "elem mg [b, l, e] = attn_merged a tr keep msk q k v b l e"
    if "b < B" "l < Lq" "e < E" for b l e
  proof -
    have e: "e < H * d" using that E by simp
    then have d0: "0 < d" by (cases d) simp_all
    have h: "e div d < H" using e d0 by (simp add: less_mult_imp_div_less)
    have j: "e mod d < d" using d0 by simp
    have "elem att [b, e div d, l, e mod d] =
        (\<Sum>kk\<leftarrow>[0..<Lk]. attn_weight a tr keep msk q k b (e div d) l kk *
            linear_elem (v_weights a) v [b, kk, (e div d) * d + e mod d])"
      unfolding eatt [OF that(1) h]
      by (rule sum_list_cong) (use that h j in \<open>simp add: w ev4\<close>)
    then show ?thesis
      using that e k by (simp add: emg attn_merged_def d_def)
  qed
  have "elem ?out [b, l, j] = mha_elem a tr keep msk q k v b l j" if "b < B" "l < Lq" for b l j
  proof -
    have "(\<Sum>e\<leftarrow>[0..<E]. elem mg [b, l, e] * elem (lin_weight (proj a)) [j, e]) =
          (\<Sum>e\<leftarrow>[0..<E]. attn_merged a tr keep msk q k v b l e * elem (lin_weight (proj a)) [j, e])"
      by (rule sum_list_cong) (use that in \<open>simp add: mgv\<close>)
    then show ?thesis
      using lp by (simp add: linear_elem_def mha_elem_def ES linear_shaped_def)
  qed
  then show ?thesis using run by simp
qed

lemma sum_list_tail_zero:
  fixes f :: "nat \<Rightarrow> real"
  assumes "c \<le> n" "\<And>kk. c \<le> kk \<Longrightarrow> kk < n \<Longrightarrow> f kk = 0"
  shows "(\<Sum>kk\<leftarrow>[0..<n]. f kk) = (\<Sum>kk\<leftarrow>[0..<c]. f kk)"
proof -
  have "[0..<n] = [0..<c] @ [c..<n]"
    using assms(1) by (metis le_add_diff_inverse upt_add_eq_append zero_le)
  moreover have "(\<Sum>kk\<leftarrow>[c..<n]. f kk) = (\<Sum>kk\<leftarrow>[c..<n]. 0)"
    by (rule sum_list_cong) (use assms(2) in simp)
  ultimately show ?thesis by simp
qed

lemma linear_elem_cong:
  assumes "shape (lin_weight l) = [n_out, n_in]"
    and "\<And>e. e < n_in \<Longrightarrow> elem x [b, t, e] = elem x' [b, t, e]"
  shows "linear_elem l x [b, t, j] = linear_elem l x' [b, t, j]"
proof -
  have "(\<Sum>k\<leftarrow>[0..<n_in]. elem x [b, t, k] * elem (lin_weight l) [j, k]) =
        (\<Sum>k\<leftarrow>[0..<n_in]. elem x' [b, t, k] * elem (lin_weight l) [j, k])"
    by (rule sum_list_cong) (simp add: assms(2))
  then show ?thesis using assms(1) by (simp add: linear_elem_def)
qed

lemma rel_res_bind:
  assumes "rel_res P m m'" "\<And>y y'. P y y' \<Longrightarrow> rel_res Q (f y) (f' y')"
  shows "rel_res Q (ebind m f) (ebind m' f')"
  using assms by (auto simp add: rel_res_def)

lemma rel_res_Inr [simp]: "rel_res P (Inr y) (Inr y') \<longleftrightarrow> P y y'"
  by (simp add: rel_res_def)

lemma mha_agree:
  assumes sh: "mha_shaped a E"
    and qq: "agree B Lq Lq' E R q q'"
    and k: "shape k = [B, Lk, E]" and k': "shape k' = [B, Lk', E]"
    and v: "shape v = [B, Lk, E]" and v': "shape v' = [B, Lk', E]"
    and m: "mask_fits msk [B, n_heads a, Lq, Lk]" and m': "mask_fits msk' [B, n_heads a, Lq', Lk']"
    and key: "\<And>b l. b < B \<Longrightarrow> l < Lq \<Longrightarrow> l < Lq' \<Longrightarrow> R b l \<Longrightarrow>
       \<exists>c. c \<le> Lk \<and> c \<le> Lk' \<and>
         (\<forall>h kk. h < n_heads a \<longrightarrow> c \<le> kk \<longrightarrow>
             (kk < Lk \<longrightarrow> mask_fn msk [b, h, l, kk]) \<and> (kk < Lk' \<longrightarrow> mask_fn msk' [b, h, l, kk])) \<and>
         (\<forall>h kk. h < n_heads a \<longrightarrow> kk < c \<longrightarrow>
             mask_fn msk [b, h, l, kk] = mask_fn msk' [b, h, l, kk] \<and>
             (\<not> mask_fn msk [b, h, l, kk] \<longrightarrow>
                (\<forall>e<E. elem k [b, kk, e] = elem k' [b, kk, e] \<and>
                        elem v [b, kk, e] = elem v' [b, kk, e])))"
  shows "rel_res (agree B Lq Lq' E R)
           (MultiHeadAttention_forward a tr keep q k v msk)
           (MultiHeadAttention_forward a tr keep q' k' v' msk')"
proof -
  define H where "H = n_heads a"
  define d where "d = head_dim a"
  have E: "E = H * d" and ES: "mha_embed_size a = E"
    and lq: "shape (lin_weight (q_weights a)) = [E, E]"
    and lk: "shape (lin_weight (k_weights a)) = [E, E]"
    and lv: "shape (lin_weight (v_weights a)) = [E, E]"
    using sh by (auto simp add: mha_shaped_def H_def d_def linear_shaped_def)
  have q: "shape q = [B, Lq, E]" and q': "shape q' = [B, Lq', E]"
    and qe: "\<And>b l e. b < B \<Longrightarrow> l < Lq \<Longrightarrow> l < Lq' \<Longrightarrow> R b l \<Longrightarrow> e < E \<Longrightarrow>
               elem q [b, l, e] = elem q' [b, l, e]"
    using qq by (auto simp add: agree_def)
  from mha_forward_elem [OF sh q k v m, of tr keep]
  obtain out where out: "MultiHeadAttention_forward a tr keep q k v msk = Inr out"
    and sout: "shape out = [B, Lq, E]"
    and eout: "\<And>b l j. b < B \<Longrightarrow> l < Lq \<Longrightarrow> elem out [b, l, j] = mha_elem a tr keep msk q k v b l j"
    by blast
  from mha_forward_elem [OF sh q' k' v' m', of tr keep]
  obtain out' where out': "MultiHeadAttention_forward a tr keep q' k' v' msk' = Inr out'"
    and sout': "shape out' = [B, Lq', E]"
    and eout': "\<And>b l j. b < B \<Longrightarrow> l < Lq' \<Longrightarrow> elem out' [b, l, j] = mha_elem a tr keep msk' q' k' v' b l j"
    by blast
  have mg: "attn_merged a tr keep msk q k v b l e = attn_merged a tr keep msk' q' k' v' b l e"
    if b: "b < B" and l: "l < Lq" "l < Lq'" and r: "R b l" and e: "e < E" for b l e
  proof -
    from key [OF b l r] obtain c where c: "c \<le> Lk" "c \<le> Lk'"
      and tail: "\<And>h kk. h < H \<Longrightarrow> c \<le> kk \<Longrightarrow> kk < Lk \<Longrightarrow> mask_fn msk [b, h, l, kk]"
      and tail': "\<And>h kk. h < H \<Longrightarrow> c \<le> kk \<Longrightarrow> kk < Lk' \<Longrightarrow> mask_fn msk' [b, h, l, kk]"
      and same: "\<And>h kk. h < H \<Longrightarrow> kk < c \<Longrightarrow> mask_fn msk [b, h, l, kk] = mask_fn msk' [b, h, l, kk]"
      and vis: "\<And>h kk e. h < H \<Longrightarrow> kk < c \<Longrightarrow> \<not> mask_fn msk [b, h, l, kk] \<Longrightarrow> e < E \<Longrightarrow>
                 elem k [b, kk, e] = elem k' [b, kk, e] \<and> elem v [b, kk, e] = elem v' [b, kk, e]"
      unfolding H_def by blast
    have e': "e < H * d" using e E by simp
    then have d0: "0 < d" by (cases d) simp_all
    define h where "h = e div d"
    have h: "h < H" using e' d0 by (simp add: h_def less_mult_imp_div_less)
    have ql: "linear_elem (q_weights a) q [b, l, j] = linear_elem (q_weights a) q' [b, l, j]" for j
      by (rule linear_elem_cong [OF lq]) (use qe b l r in simp)
    have ex: "attn_exp a msk q k b h l kk = attn_exp a msk' q' k' b h l kk" if "kk < c" for kk
    proof (cases "mask_fn msk [b, h, l, kk]")
      case True
      then show ?thesis using same [OF h that] by (simp add: attn_exp_def)
    next
      case False
      have "linear_elem (k_weights a) k [b, kk, j] = linear_elem (k_weights a) k' [b, kk, j]" for j
        by (rule linear_elem_cong [OF lk]) (use vis [OF h that False] in simp)
      then show ?thesis using False same [OF h that] by (simp add: attn_exp_def ql)
    qed
    have ex0: "attn_exp a msk q k b h l kk = 0" if "c \<le> kk" "kk < Lk" for kk
      using tail [OF h that] by (simp add: attn_exp_def)
    have ex0': "attn_exp a msk' q' k' b h l kk = 0" if "c \<le> kk" "kk < Lk'" for kk
      using tail' [OF h that] by (simp add: attn_exp_def)
    have den: "(\<Sum>kk'\<leftarrow>[0..<Lk]. attn_exp a msk q k b h l kk') =
               (\<Sum>kk'\<leftarrow>[0..<Lk']. attn_exp a msk' q' k' b h l kk')"
    proof -
      have "(\<Sum>kk'\<leftarrow>[0..<Lk]. attn_exp a msk q k b h l kk') =
            (\<Sum>kk'\<leftarrow>[0..<c]. attn_exp a msk q k b h l kk')"
        by (rule sum_list_tail_zero [OF c(1)]) (rule ex0)
      also have "\<dots> = (\<Sum>kk'\<leftarrow>[0..<c]. attn_exp a msk' q' k' b h l kk')"
        by (rule sum_list_cong) (simp add: ex)
      also have "\<dots> = (\<Sum>kk'\<leftarrow>[0..<Lk']. attn_exp a msk' q' k' b h l kk')"
        by (rule sum_list_tail_zero [OF c(2), symmetric]) (rule ex0')
      finally show ?thesis .
    qed
    have w: "attn_weight a tr keep msk q k b h l kk = attn_weight a tr keep msk' q' k' b h l kk"
      if "kk < c" for kk
      using ex [OF that] den k k' by (simp add: attn_weight_def)
    have w0: "attn_weight a tr keep msk q k b h l kk = 0" if "c \<le> kk" "kk < Lk" for kk
      using ex0 [OF that] by (simp add: attn_weight_def)
    have w0': "attn_weight a tr keep msk' q' k' b h l kk = 0" if "c \<le> kk" "kk < Lk'" for kk
      using ex0' [OF that] by (simp add: attn_weight_def)
    have wm: "attn_weight a tr keep msk q k b h l kk = 0" if "kk < c" "mask_fn msk [b, h, l, kk]" for kk
      using that by (simp add: attn_weight_def attn_exp_def)
    let ?t = "\<lambda>kk. attn_weight a tr keep msk q k b h l kk *
                   linear_elem (v_weights a) v [b, kk, h * d + e mod d]"
    let ?t' = "\<lambda>kk. attn_weight a tr keep msk' q' k' b h l kk *
                   linear_elem (v_weights a) v' [b, kk, h * d + e mod d]"
    have t: "?t kk = ?t' kk" if "kk < c" for kk
    proof (cases "mask_fn msk [b, h, l, kk]")
      case True
      then show ?thesis using wm [OF that True] w [OF that] by simp
    next
      case False
      have "linear_elem (v_weights a) v [b, kk, j] = linear_elem (v_weights a) v' [b, kk, j]" for j
        by (rule linear_elem_cong [OF lv]) (use vis [OF h that False] in simp)
      then show ?thesis using w [OF that] by simp
    qed
    have "(\<Sum>kk\<leftarrow>[0..<Lk]. ?t kk) = (\<Sum>kk\<leftarrow>[0..<c]. ?t kk)"
      by (rule sum_list_tail_zero [OF c(1)]) (simp add: w0)
    also have "\<dots> = (\<Sum>kk\<leftarrow>[0..<c]. ?t' kk)"
      by (rule sum_list_cong) (simp add: t)
    also have "\<dots> = (\<Sum>kk\<leftarrow>[0..<Lk']. ?t' kk)"
      by (rule sum_list_tail_zero [OF c(2), symmetric]) (simp add: w0')
    finally show ?thesis
      using k k' by (simp add: attn_merged_def h_def d_def)
  qed
  have "elem out [b, l, j] = elem out' [b, l, j]"
    if b: "b < B" and l: "l < Lq" "l < Lq'" and r: "R b l" for b l j
  proof -
    have "mha_elem a tr keep msk q k v b l j = mha_elem a tr keep msk' q' k' v' b l j"
      unfolding mha_elem_def ES
      by (rule arg_cong [where f = "\<lambda>s. s + _"], rule sum_list_cong) (simp add: mg [OF b l r])
    then show ?thesis using eout [OF b l(1)] eout' [OF b l(2)] by simp
  qed
  then show ?thesis
    using out out' sout sout' by (simp add: agree_def)
qed

subsection \<open>The positional table\<close>

lemma angles:
  "\<exists>a. broadcast2 (\<lambda>p d. real_of_int p * d) (unsqueeze (torch_arange 0 n 1) 1)
         (map_tensor (\<lambda>i. exp (- ln 10000 * real_of_int i / real E)) (torch_arange 0 E 2)) = Inr a
     \<and> shape a = [n, (E + 1) div 2]
     \<and> (\<forall>pos i. pos < n \<longrightarrow> i < (E + 1) div 2 \<longrightarrow>
          elem a [pos, i] = real pos * exp (- ln 10000 * real (2 * i) / real E))"
proof -
  let ?h = "(E + 1) div 2"
  let ?p = "unsqueeze (torch_arange 0 n 1) 1"
  let ?d = "map_tensor (\<lambda>i. exp (- ln 10000 * real_of_int i / real E)) (torch_arange 0 E 2)"
  have sp: "shape ?p = [n, 1]"
    by (simp add: unsqueeze_def torch_arange_def slice_len_def)
  have sd: "shape ?d = [?h]"
    by (simp add: map_tensor_def torch_arange_def slice_len_def)
  have bs: "broadcast_shapes [n, 1] [?h] = Inr [n, ?h]"
    by (simp add: broadcast_shapes_def pad_left_def)
  have ep: "expandable [n, 1] [n, ?h]" and ed: "expandable [?h] [n, ?h]"
    by (simp_all add: expandable_def)
  have ev: "elem ?p (broadcast_index [n, 1] [pos, i]) = int pos" if "pos < n" for pos i
    using that by (simp add: broadcast_index_def unsqueeze_def torch_arange_def)
  have dv: "elem ?d (broadcast_index [?h] [pos, i]) = exp (- ln 10000 * real (2 * i) / real E)"
    if "i < ?h" for pos i
    using that by (auto simp add: broadcast_index_def map_tensor_def torch_arange_def)
  have "broadcast2 (\<lambda>p d. real_of_int p * d) ?p ?d =
      Inr \<lparr>shape = [n, ?h], elem = (\<lambda>idx. real_of_int (elem ?p (broadcast_index [n, 1] idx)) *
                                           elem ?d (broadcast_index [?h] idx))\<rparr>"
    using sp sd bs ep ed by (simp add: broadcast2_def expand_def)
  then show ?thesis using ev dv by simp
qed

lemma setitem_cols_Inr:
  "shape t = [n, E] \<Longrightarrow> shape v = [n, h] \<Longrightarrow> h = slice_len start step E \<or> h = 1 \<Longrightarrow>
   \<exists>t'. setitem_cols start step t v = Inr t' \<and> shape t' = [n, E] \<and>
     (\<forall>r c. elem t' [r, c] = (if start \<le> c \<and> (c - start) mod step = 0
                         then elem v [if n = 1 then 0 else r, if h = 1 then 0 else (c - start) div step]
                         else elem t [r, c]))"
  by (auto simp add: setitem_cols_def expand_def expandable_def broadcast_index_def)

lemma setitem_cols_Inl:
  "shape t = [n, E] \<Longrightarrow> shape v = [n, h] \<Longrightarrow> h \<noteq> slice_len start step E \<Longrightarrow> h \<noteq> 1 \<Longrightarrow>
   setitem_cols start step t v = Inl RuntimeError"
  by (auto simp add: setitem_cols_def expand_def expandable_def)

lemma positional_encoding_odd:
  assumes "odd E" "3 \<le> E"
  shows "positional_encoding n E = Inl RuntimeError"
proof -
  obtain a where a: "broadcast2 (\<lambda>p d. real_of_int p * d) (unsqueeze (torch_arange 0 n 1) 1)
         (map_tensor (\<lambda>i. exp (- ln 10000 * real_of_int i / real E)) (torch_arange 0 E 2)) = Inr a"
    and sa: "shape a = [n, (E + 1) div 2]"
    using angles [of n E] by blast
  have h1: "(E + 1) div 2 = slice_len 0 2 E \<or> (E + 1) div 2 = 1" by (simp add: slice_len_def)
  have h2: "(E + 1) div 2 \<noteq> slice_len 1 2 E" "(E + 1) div 2 \<noteq> 1"
    using assms by (auto simp add: slice_len_def elim!: oddE)
  have "shape (torch_empty [n, E]) = [n, E]" "shape (map_tensor sin a) = [n, (E + 1) div 2]"
    using sa by (simp_all add: torch_empty_def map_tensor_def)
  from setitem_cols_Inr [OF this h1]
  obtain t1 where s1: "setitem_cols 0 2 (torch_empty [n, E]) (map_tensor sin a) = Inr t1"
    and st1: "shape t1 = [n, E]" by blast
  have "shape (map_tensor cos a) = [n, (E + 1) div 2]"
    using sa by (simp add: map_tensor_def)
  from setitem_cols_Inl [OF st1 this h2]
  have s2: "setitem_cols 1 2 t1 (map_tensor cos a) = Inl RuntimeError" .
  show ?thesis
    unfolding positional_encoding_def Let_def a ebind_Inr s1 s2 ebind_Inl ..
qed

lemma positional_encoding_ok:
  assumes "even E \<or> E = 1"
  shows "\<exists>t. positional_encoding n E = Inr t \<and> shape t = [n, E] \<and>
     (\<forall>pos c. pos < n \<longrightarrow> c < E \<longrightarrow>
        elem t [pos, c] = (if even c then sin (real pos * exp (- ln 10000 * real c / real E))
                           else cos (real pos * exp (- ln 10000 * real (c - 1) / real E))))"
proof -
  obtain a where a: "broadcast2 (\<lambda>p d. real_of_int p * d) (unsqueeze (torch_arange 0 n 1) 1)
         (map_tensor (\<lambda>i. exp (- ln 10000 * real_of_int i / real E)) (torch_arange 0 E 2)) = Inr a"
    and sa: "shape a = [n, (E + 1) div 2]"
    and ea: "\<And>pos i. pos < n \<Longrightarrow> i < (E + 1) div 2 \<Longrightarrow>
          elem a [pos, i] = real pos * exp (- ln 10000 * real (2 * i) / real E)"
    using angles [of n E] by blast
  have h1: "(E + 1) div 2 = slice_len 0 2 E \<or> (E + 1) div 2 = 1" by (simp add: slice_len_def)
  have h2: "(E + 1) div 2 = slice_len 1 2 E \<or> (E + 1) div 2 = 1"
    using assms by (auto simp add: slice_len_def elim!: evenE)
  have "shape (torch_empty [n, E]) = [n, E]" "shape (map_tensor sin a) = [n, (E + 1) div 2]"
    using sa by (simp_all add: torch_empty_def map_tensor_def)
  from setitem_cols_Inr [OF this h1]
  obtain t1 where s1: "setitem_cols 0 2 (torch_empty [n, E]) (map_tensor sin a) = Inr t1"
    and st1: "shape t1 = [n, E]"
    and et1: "\<And>r c. elem t1 [r, c] = (if 0 \<le> c \<and> (c - 0) mod 2 = 0
                         then elem (map_tensor sin a) [if n = 1 then 0 else r, if (E + 1) div 2 = 1 then 0 else (c - 0) div 2]
                         else elem (torch_empty [n, E]) [r, c])" by blast
  have "shape (map_tensor cos a) = [n, (E + 1) div 2]"
    using sa by (simp add: map_tensor_def)
  from setitem_cols_Inr [OF st1 this h2]
  obtain t2 where s2: "setitem_cols 1 2 t1 (map_tensor cos a) = Inr t2"
    and st2: "shape t2 = [n, E]"
    and et2: "\<And>r c. elem t2 [r, c] = (if 1 \<le> c \<and> (c - 1) mod 2 = 0
                         then elem (map_tensor cos a) [if n = 1 then 0 else r, if (E + 1) div 2 = 1 then 0 else (c - 1) div 2]
                         else elem t1 [r, c])" by blast
  have pe: "positional_encoding n E = Inr t2"
    unfolding positional_encoding_def Let_def a ebind_Inr s1 s2 ..
  have ev: "elem t2 [pos, c] = (if even c then sin (real pos * exp (- ln 10000 * real c / real E))
                           else cos (real pos * exp (- ln 10000 * real (c - 1) / real E)))"
    if "pos < n" "c < E" for pos c
  proof (cases "even c")
    case True
    then obtain i where c: "c = 2 * i" by (elim evenE)
    have i: "i < (E + 1) div 2" using that c by auto
    have r: "(if n = 1 then 0 else pos) = pos" using that by auto
    have k: "(if (E + 1) div 2 = 1 then 0 else i) = i" using i by auto
    have "elem t2 [pos, c] = elem t1 [pos, c]"
      unfolding et2 using c by (cases i) auto
    also have "\<dots> = sin (elem a [pos, i])"
      unfolding et1 r using c i by (auto simp add: map_tensor_def)
    finally show ?thesis using that(1) i True c by (simp add: ea)
  next
    case False
    then obtain i where c: "c = 2 * i + 1" by (elim oddE)
    have i: "i < (E + 1) div 2" using that c by auto
    have r: "(if n = 1 then 0 else pos) = pos" using that by auto
    have k: "(if (E + 1) div 2 = 1 then 0 else i) = i" using i by auto
    have "elem t2 [pos, c] = cos (elem a [pos, i])"
      unfolding et2 r using c i by (auto simp add: map_tensor_def)
    then show ?thesis using that(1) i False c by (simp add: ea)
  qed
  show ?thesis using pe st2 ev by simp
qed

section \<open>The causal mask\<close>

text \<open>
  Claim C3. \<open>create_causal_mask seq_len\<close> is a (seq_len, seq_len) matrix of zeros and
  ones whose entry (i, j) is 1 exactly when \<open>j \<le> i\<close>. For \<open>seq_len = 4\<close> it is
  \<open>[[1,0,0,0],[1,1,0,0],[1,1,1,0],[1,1,1,1]]\<close>, and row \<open>i\<close> holds \<open>i + 1\<close> ones and
  \<open>3 - i\<close> zeros.
\<close>

theorem create_causal_mask_lower_triangular:
  "shape (create_causal_mask n) = [n, n] \<and>
   (\<forall>i j. i < n \<longrightarrow> j < n \<longrightarrow>
      elem (create_causal_mask n) [i, j] = (if j \<le> i then 1 else 0)) \<and>
   tolist2 (create_causal_mask 4) = [[1, 0, 0, 0], [1, 1, 0, 0], [1, 1, 1, 0], [1, 1, 1, 1]] \<and>
   (\<forall>i. i < 4 \<longrightarrow> count_list (tolist2 (create_causal_mask 4) ! i) 1 = i + 1 \<and>
                   count_list (tolist2 (create_causal_mask 4) ! i) 0 = 3 - i)"
proof -
  have t: "tolist2 (create_causal_mask 4) = [[1, 0, 0, 0], [1, 1, 0, 0], [1, 1, 1, 0], [1, 1, 1, 1]]"
    by (simp add: tolist2_def shape_create_causal_mask elem_create_causal_mask upt_rec)
  have c: "count_list (tolist2 (create_causal_mask 4) ! i) 1 = i + 1 \<and>
           count_list (tolist2 (create_causal_mask 4) ! i) 0 = 3 - i" if "i < 4" for i
  proof -
    from that have "i = 0 \<or> i = 1 \<or> i = 2 \<or> i = 3" by arith
    then show ?thesis unfolding t by auto
  qed
  show ?thesis
    using t c by (simp add: shape_create_causal_mask elem_create_causal_mask)
qed

theorem create_causal_mask_witness:
  "(2::nat) < 3 \<and> (1::nat) < 3 \<and> shape (create_causal_mask 3) = [3, 3] \<and>
   elem (create_causal_mask 3) [2, 1] = 1 \<and> elem (create_causal_mask 3) [1, 2] = 0 \<and>
   count_list (tolist2 (create_causal_mask 4) ! 2) 1 = 3 \<and>
   count_list (tolist2 (create_causal_mask 4) ! 2) 0 = 1"
proof -
  have a: "(2::nat) < 3" and b: "(1::nat) < 3" and c: "(2::nat) < 4" by simp_all
  note t = create_causal_mask_lower_triangular [of 3]
  from t a b have "elem (create_causal_mask 3) [2, 1] = (if (1::nat) \<le> 2 then 1 else 0)"
    by blast
  moreover from t a b have "elem (create_causal_mask 3) [1, 2] = (if (2::nat) \<le> 1 then 1 else 0)"
    by blast
  moreover from t have "shape (create_causal_mask 3) = [3, 3]" by blast
  moreover from t c have "count_list (tolist2 (create_causal_mask 4) ! 2) 1 = 2 + 1 \<and>
      count_list (tolist2 (create_causal_mask 4) ! 2) 0 = 3 - 2" by blast
  ultimately show ?thesis by simp
qed

section \<open>Embedding sizes the positional table accepts\<close>

lemma Transformer_init_positional:
  "positional_encoding (max_len cfg) (embed_size cfg) = Inl e \<Longrightarrow> Transformer_init cfg rng = Inl e"
  by (simp add: Transformer_init_def)

text \<open>
  Claim C10, as amended. \<open>positional_encoding seq_len embed_size\<close> raises for every odd
  \<open>embed_size \<ge> 3\<close> (the cosine columns do not fit), and so does the construction of a
  Transformer with such a config. It returns a table when \<open>embed_size\<close> is even and also
  when \<open>embed_size = 1\<close>, where the one cosine column is broadcast to the empty slice.
  For an even \<open>embed_size\<close> the table has shape (seq_len, embed_size), with
  \<open>sin (pos * exp (- ln 10000 * 2i / embed_size))\<close> in column \<open>2i\<close> and the cosine of
  the same angle in column \<open>2i + 1\<close>.
\<close>

theorem positional_encoding_embed_size:
  "(odd E \<and> 3 \<le> E \<longrightarrow> positional_encoding n E = Inl RuntimeError) \<and>
   (odd (embed_size cfg) \<and> 3 \<le> embed_size cfg \<longrightarrow> Transformer_init cfg rng = Inl RuntimeError) \<and>
   (even E \<or> E = 1 \<longrightarrow> \<not> isl (positional_encoding n E)) \<and>
   (even E \<longrightarrow>
      (\<exists>t. positional_encoding n E = Inr t \<and> shape t = [n, E] \<and>
         (\<forall>pos i. pos < n \<longrightarrow> 2 * i + 1 < E \<longrightarrow>
            elem t [pos, 2 * i] = sin (real pos * exp (- ln 10000 * real (2 * i) / real E)) \<and>
            elem t [pos, 2 * i + 1] = cos (real pos * exp (- ln 10000 * real (2 * i) / real E)))))"
proof (intro conjI impI)
  assume "odd E \<and> 3 \<le> E"
  then show "positional_encoding n E = Inl RuntimeError"
    by (simp add: positional_encoding_odd)
next
  assume "odd (embed_size cfg) \<and> 3 \<le> embed_size cfg"
  then have "positional_encoding (max_len cfg) (embed_size cfg) = Inl RuntimeError"
    by (simp add: positional_encoding_odd)
  then show "Transformer_init cfg rng = Inl RuntimeError"
    by (rule Transformer_init_positional)
next
  assume "even E \<or> E = 1"
  from positional_encoding_ok [OF this, of n]
  show "\<not> isl (positional_encoding n E)" by auto
next
  assume "even E"
  then have "even E \<or> E = 1" by simp
  from positional_encoding_ok [OF this, of n]
  obtain t where t: "positional_encoding n E = Inr t" "shape t = [n, E]"
    and e: "\<And>pos c. pos < n \<Longrightarrow> c < E \<Longrightarrow>
        elem t [pos, c] = (if even c then sin (real pos * exp (- ln 10000 * real c / real E))
                           else cos (real pos * exp (- ln 10000 * real (c - 1) / real E)))"
    by blast
  have "elem t [pos, 2 * i] = sin (real pos * exp (- ln 10000 * real (2 * i) / real E)) \<and>
        elem t [pos, 2 * i + 1] = cos (real pos * exp (- ln 10000 * real (2 * i) / real E))"
    if "pos < n" "2 * i + 1 < E" for pos i
    using e [OF that(1), of "2 * i"] e [OF that] that(2) by simp
  with t show "\<exists>t. positional_encoding n E = Inr t \<and> shape t = [n, E] \<and>
         (\<forall>pos i. pos < n \<longrightarrow> 2 * i + 1 < E \<longrightarrow>
            elem t [pos, 2 * i] = sin (real pos * exp (- ln 10000 * real (2 * i) / real E)) \<and>
            elem t [pos, 2 * i + 1] = cos (real pos * exp (- ln 10000 * real (2 * i) / real E)))"
    by blast
qed

theorem positional_encoding_embed_size_witness:
  "odd (3::nat) \<and> positional_encoding 2 3 = Inl RuntimeError \<and>
   even (4::nat) \<and> \<not> isl (positional_encoding 2 4) \<and>
   (\<exists>t. positional_encoding 2 4 = Inr t \<and> shape t = [2, 4] \<and>
      elem t [1, 2] = sin (exp (- ln 10000 * 2 / 4)) \<and>
      elem t [1, 3] = cos (exp (- ln 10000 * 2 / 4)))"
proof -
  note a = positional_encoding_embed_size [of 3 2]
  note b = positional_encoding_embed_size [of 4 2]
  have "positional_encoding 2 3 = Inl RuntimeError" using a by simp
  moreover have "\<not> isl (positional_encoding 2 4)" using b by simp
  moreover have "even (4::nat)" by simp
  with b obtain t where t: "positional_encoding 2 4 = Inr t" "shape t = [2, 4]"
    and e: "\<And>pos i. pos < 2 \<Longrightarrow> 2 * i + 1 < 4 \<Longrightarrow>
            elem t [pos, 2 * i] = sin (real pos * exp (- ln 10000 * real (2 * i) / real 4)) \<and>
            elem t [pos, 2 * i + 1] = cos (real pos * exp (- ln 10000 * real (2 * i) / real 4))"
    by blast
  from e [of 1 1] have "elem t [1, 2] = sin (exp (- ln 10000 * 2 / 4)) \<and>
      elem t [1, 3] = cos (exp (- ln 10000 * 2 / 4))" by simp
  ultimately show ?thesis using t by simp
qed

text \<open>
  The claim as first stated, that the call succeeds only for an even \<open>embed_size\<close>, fails
  at \<open>embed_size = 1\<close>: the call returns the one-column table of sines.
\<close>

theorem positional_encoding_one_column:
  "odd (1::nat) \<and> \<not> isl (positional_encoding 2 1) \<and>
   shape (projr (positional_encoding 2 1)) = [2, 1] \<and>
   elem (projr (positional_encoding 2 1)) [1, 0] = sin 1"
proof -
  have "even (1::nat) \<or> (1::nat) = 1" by simp
  from positional_encoding_ok [OF this, of 2]
  obtain t where t: "positional_encoding 2 1 = Inr t" "shape t = [2, 1]"
    and e: "\<And>pos c. pos < 2 \<Longrightarrow> c < 1 \<Longrightarrow>
        elem t [pos, c] = (if even c then sin (real pos * exp (- ln 10000 * real c / real 1))
                           else cos (real pos * exp (- ln 10000 * real (c - 1) / real 1)))"
    by auto
  from e [of 1 0] have "elem t [1, 0] = sin 1" by simp
  then show ?thesis using t by simp
qed

section \<open>Construction\<close>

lemma build_layers_ok:
  assumes "\<And>i. i \<in> set ixs \<Longrightarrow> \<exists>l. mk i = Inr l \<and> P l"
  shows "\<exists>ls. build_layers mk ixs = Inr ls \<and> list_all P ls \<and> length ls = length ixs"
  using assms
proof (induction ixs)
  case Nil
  then show ?case by simp
next
  case (Cons i ixs)
  from Cons.prems [of i] obtain l where l: "mk i = Inr l" "P l" by auto
  from Cons.IH Cons.prems obtain ls where "build_layers mk ixs = Inr ls" "list_all P ls"
    "length ls = length ixs" by auto
  with l show ?case by simp
qed

lemma build_layers_fails:
  assumes "ixs \<noteq> []" "\<And>i. isl (mk i)"
  shows "isl (build_layers mk ixs)"
proof (cases ixs)
  case Nil
  with assms show ?thesis by simp
next
  case (Cons i rest)
  from assms(2) [of i] obtain e where "mk i = Inl e" by (cases "mk i") auto
  with Cons show ?thesis by simp
qed

lemma Linear_init_shaped [simp]: "linear_shaped (Linear_init rng n_in n_out) n_in n_out"
  by (simp add: Linear_init_def linear_shaped_def)

lemma LayerNorm_init_shaped [simp]: "layer_norm_shaped (LayerNorm_init n) n"
  by (simp add: LayerNorm_init_def layer_norm_shaped_def)

lemma FeedForward_init_shaped [simp]: "ff_shaped (FeedForward_init rng e dff ud) e dff"
  by (simp add: FeedForward_init_def ff_shaped_def)

lemma MultiHeadAttention_init_ok:
  assumes "nh \<noteq> 0" "e mod nh = 0"
  shows "\<exists>a. MultiHeadAttention_init rng nh e ud = Inr a \<and> mha_shaped a e"
  using assms by (simp add: MultiHeadAttention_init_def mha_shaped_def)

lemma MultiHeadAttention_init_fails:
  assumes "nh = 0 \<or> e mod nh \<noteq> 0"
  shows "isl (MultiHeadAttention_init rng nh e ud)"
  using assms by (auto simp add: MultiHeadAttention_init_def)

lemma EncoderLayer_init_ok:
  assumes "nh \<noteq> 0" "e mod nh = 0"
  shows "\<exists>l. EncoderLayer_init rng nh e dff pl ud = Inr l \<and> encoder_layer_shaped l e dff"
proof -
  from MultiHeadAttention_init_ok [OF assms, of "sub rng 1" ud]
  obtain a where "MultiHeadAttention_init (sub rng 1) nh e ud = Inr a" "mha_shaped a e" by blast
  then show ?thesis
    by (simp add: EncoderLayer_init_def encoder_layer_shaped_def Let_def)
qed

lemma EncoderLayer_init_fails:
  assumes "nh = 0 \<or> e mod nh \<noteq> 0"
  shows "isl (EncoderLayer_init rng nh e dff pl ud)"
proof -
  from MultiHeadAttention_init_fails [OF assms, of "sub rng 1" ud]
  obtain err where "MultiHeadAttention_init (sub rng 1) nh e ud = Inl err"
    by (cases "MultiHeadAttention_init (sub rng 1) nh e ud") auto
  then show ?thesis by (simp add: EncoderLayer_init_def Let_def)
qed

lemma DecoderLayer_init_ok:
  assumes "nh \<noteq> 0" "e mod nh = 0"
  shows "\<exists>l. DecoderLayer_init rng nh e dff pl ud = Inr l \<and> decoder_layer_shaped l e dff"
proof -
  from MultiHeadAttention_init_ok [OF assms, of "sub rng 1" ud]
  obtain a where a: "MultiHeadAttention_init (sub rng 1) nh e ud = Inr a" "mha_shaped a e" by blast
  from MultiHeadAttention_init_ok [OF assms, of "sub rng 2" ud]
  obtain a' where "MultiHeadAttention_init (sub rng 2) nh e ud = Inr a'" "mha_shaped a' e" by blast
  with a show ?thesis
    by (simp add: DecoderLayer_init_def decoder_layer_shaped_def Let_def)
qed

lemma DecoderLayer_init_fails:
  assumes "nh = 0 \<or> e mod nh \<noteq> 0"
  shows "isl (DecoderLayer_init rng nh e dff pl ud)"
proof -
  from MultiHeadAttention_init_fails [OF assms, of "sub rng 1" ud]
  obtain err where "MultiHeadAttention_init (sub rng 1) nh e ud = Inl err"
    by (cases "MultiHeadAttention_init (sub rng 1) nh e ud") auto
  then show ?thesis by (simp add: DecoderLayer_init_def Let_def)
qed

lemma Encoder_init_ok:
  assumes "n = 0 \<or> (nh \<noteq> 0 \<and> e mod nh = 0)"
  shows "\<exists>enc. Encoder_init rng n nh e dff pl ud = Inr enc \<and> encoder_shaped enc e dff \<and>
           length (encoder_layers enc) = n"
proof -
  have "\<exists>l. EncoderLayer_init (sub rng i) nh e dff pl ud = Inr l \<and> encoder_layer_shaped l e dff"
    if "i \<in> set [0..<n]" for i
    using that assms by (intro EncoderLayer_init_ok) auto
  from build_layers_ok [of "[0..<n]" "\<lambda>i. EncoderLayer_init (sub rng i) nh e dff pl ud"
      "\<lambda>l. encoder_layer_shaped l e dff", OF this]
  obtain ls where "build_layers (\<lambda>i. EncoderLayer_init (sub rng i) nh e dff pl ud) [0..<n] = Inr ls"
    "list_all (\<lambda>l. encoder_layer_shaped l e dff) ls" "length ls = n" by auto
  then show ?thesis
    by (simp add: Encoder_init_def encoder_shaped_def)
qed

lemma Encoder_init_fails:
  assumes "0 < n" "nh = 0 \<or> e mod nh \<noteq> 0"
  shows "isl (Encoder_init rng n nh e dff pl ud)"
proof -
  have "isl (build_layers (\<lambda>i. EncoderLayer_init (sub rng i) nh e dff pl ud) [0..<n])"
    by (rule build_layers_fails) (use assms in \<open>simp_all add: EncoderLayer_init_fails\<close>)
  then show ?thesis
    by (cases "build_layers (\<lambda>i. EncoderLayer_init (sub rng i) nh e dff pl ud) [0..<n]")
       (simp_all add: Encoder_init_def)
qed

lemma Decoder_init_ok:
  assumes "n = 0 \<or> (nh \<noteq> 0 \<and> e mod nh = 0)"
  shows "\<exists>dec. Decoder_init rng n nh e dff pl ud = Inr dec \<and> decoder_shaped dec e dff \<and>
           length (decoder_layers dec) = n"
proof -
  have "\<exists>l. DecoderLayer_init (sub rng i) nh e dff pl ud = Inr l \<and> decoder_layer_shaped l e dff"
    if "i \<in> set [0..<n]" for i
    using that assms by (intro DecoderLayer_init_ok) auto
  from build_layers_ok [of "[0..<n]" "\<lambda>i. DecoderLayer_init (sub rng i) nh e dff pl ud"
      "\<lambda>l. decoder_layer_shaped l e dff", OF this]
  obtain ls where "build_layers (\<lambda>i. DecoderLayer_init (sub rng i) nh e dff pl ud) [0..<n] = Inr ls"
    "list_all (\<lambda>l. decoder_layer_shaped l e dff) ls" "length ls = n" by auto
  then show ?thesis
    by (simp add: Decoder_init_def decoder_shaped_def)
qed

lemma Decoder_init_fails:
  assumes "0 < n" "nh = 0 \<or> e mod nh \<noteq> 0"
  shows "isl (Decoder_init rng n nh e dff pl ud)"
proof -
  have "isl (build_layers (\<lambda>i. DecoderLayer_init (sub rng i) nh e dff pl ud) [0..<n])"
    by (rule build_layers_fails) (use assms in \<open>simp_all add: DecoderLayer_init_fails\<close>)
  then show ?thesis
    by (cases "build_layers (\<lambda>i. DecoderLayer_init (sub rng i) nh e dff pl ud) [0..<n]")
       (simp_all add: Decoder_init_def)
qed

subsection \<open>Xavier initialisation keeps every shape\<close>

lemma ebind_Inr_iff: "ebind r f = Inr y \<longleftrightarrow> (\<exists>x. r = Inr x \<and> f x = Inr y)"
  by (cases r) simp_all

lemma xavier_uniform_2:
  "shape p = [a, b] \<Longrightarrow>
     xavier_uniform v p =
       (if a + b = 0 then Inl ZeroDivisionError else Inr \<lparr>shape = [a, b], elem = v\<rparr>)"
  by (simp add: xavier_uniform_def Let_def)

lemma xavier_uniform_shape: "xavier_uniform v p = Inr t \<Longrightarrow> shape t = shape p"
  by (auto simp add: xavier_uniform_def Let_def split: if_splits)

lemma init_linear_Inr:
  assumes "init_linear rng l = Inr l'"
  shows "shape (lin_weight l') = shape (lin_weight l)" and "lin_bias l' = lin_bias l"
  using assms
  by (auto simp add: init_linear_def ebind_Inr_iff split: if_splits dest: xavier_uniform_shape)

lemma init_linear_shaped:
  "init_linear rng l = Inr l' \<Longrightarrow> linear_shaped l' n_in n_out = linear_shaped l n_in n_out"
  by (simp add: linear_shaped_def init_linear_Inr)

lemma init_linear_ok:
  assumes "linear_shaped l n_in n_out" "0 < n_in + n_out"
  shows "\<exists>l'. init_linear rng l = Inr l'"
proof -
  from assms(1) have s: "shape (lin_weight l) = [n_out, n_in]" by (simp add: linear_shaped_def)
  show ?thesis using assms(2) by (auto simp add: init_linear_def s xavier_uniform_2 [OF s])
qed

lemma init_linear_fails:
  assumes "linear_shaped l 0 0"
  shows "init_linear rng l = Inl ZeroDivisionError"
proof -
  from assms have s: "shape (lin_weight l) = [0, 0]" by (simp add: linear_shaped_def)
  show ?thesis by (simp add: init_linear_def s xavier_uniform_2 [OF s])
qed

lemma init_mha_shaped:
  assumes "init_mha rng a = Inr a'"
  shows "mha_shaped a' e = mha_shaped a e"
proof -
  from assms obtain q k v pr where
    l: "init_linear (sub rng 0) (q_weights a) = Inr q"
    "init_linear (sub rng 1) (k_weights a) = Inr k"
    "init_linear (sub rng 2) (v_weights a) = Inr v"
    "init_linear (sub rng 3) (proj a) = Inr pr"
    and a': "a' = a\<lparr>q_weights := q, k_weights := k, v_weights := v, proj := pr\<rparr>"
    by (auto simp add: init_mha_def ebind_Inr_iff)
  show ?thesis
    by (simp add: a' mha_shaped_def init_linear_shaped [OF l(1)] init_linear_shaped [OF l(2)]
        init_linear_shaped [OF l(3)] init_linear_shaped [OF l(4)])
qed

lemma init_mha_ok:
  assumes "mha_shaped a e" "0 < e"
  shows "\<exists>a'. init_mha rng a = Inr a'"
proof -
  from assms(1) have s: "linear_shaped (q_weights a) e e" "linear_shaped (k_weights a) e e"
    "linear_shaped (v_weights a) e e" "linear_shaped (proj a) e e"
    by (simp_all add: mha_shaped_def)
  from assms(2) have p: "0 < e + e" by simp
  from init_linear_ok [OF s(1) p, of "sub rng 0"] init_linear_ok [OF s(2) p, of "sub rng 1"]
    init_linear_ok [OF s(3) p, of "sub rng 2"] init_linear_ok [OF s(4) p, of "sub rng 3"]
  obtain q k v pr where "init_linear (sub rng 0) (q_weights a) = Inr q"
    "init_linear (sub rng 1) (k_weights a) = Inr k"
    "init_linear (sub rng 2) (v_weights a) = Inr v"
    "init_linear (sub rng 3) (proj a) = Inr pr"
    by (elim exE)
  then show ?thesis by (simp add: init_mha_def)
qed

lemma init_mha_fails:
  assumes "mha_shaped a 0"
  shows "init_mha rng a = Inl ZeroDivisionError"
proof -
  from assms have "linear_shaped (q_weights a) 0 0" by (simp add: mha_shaped_def)
  from init_linear_fails [OF this] show ?thesis by (simp add: init_mha_def)
qed

lemma init_ff_shaped:
  assumes "init_ff rng f = Inr f'"
  shows "ff_shaped f' e dff = ff_shaped f e dff"
proof -
  from assms obtain l1 l2 where
    l: "init_linear (sub rng 0) (ff_lin1 f) = Inr l1" "init_linear (sub rng 3) (ff_lin2 f) = Inr l2"
    and f': "f' = f\<lparr>ff_lin1 := l1, ff_lin2 := l2\<rparr>"
    by (auto simp add: init_ff_def ebind_Inr_iff)
  show ?thesis
    by (simp add: f' ff_shaped_def init_linear_shaped [OF l(1)] init_linear_shaped [OF l(2)])
qed

lemma init_ff_ok:
  assumes "ff_shaped f e dff" "0 < e"
  shows "\<exists>f'. init_ff rng f = Inr f'"
proof -
  from assms(1) have s: "linear_shaped (ff_lin1 f) e dff" "linear_shaped (ff_lin2 f) dff e"
    by (simp_all add: ff_shaped_def)
  from assms(2) have p: "0 < e + dff" "0 < dff + e" by simp_all
  from init_linear_ok [OF s(1) p(1), of "sub rng 0"] init_linear_ok [OF s(2) p(2), of "sub rng 3"]
  obtain l1 l2 where "init_linear (sub rng 0) (ff_lin1 f) = Inr l1"
    "init_linear (sub rng 3) (ff_lin2 f) = Inr l2" by (elim exE)
  then show ?thesis by (simp add: init_ff_def)
qed

lemma init_linear_error: "init_linear rng l = Inl e \<Longrightarrow> e = ZeroDivisionError"
  by (cases "xavier_uniform (rng [0]) (lin_weight l)")
     (auto simp add: init_linear_def xavier_uniform_def Let_def split: if_splits)

lemma init_ff_error: "init_ff rng f = Inl e \<Longrightarrow> e = ZeroDivisionError"
  by (cases "init_linear (sub rng 0) (ff_lin1 f)"; cases "init_linear (sub rng 3) (ff_lin2 f)")
     (auto simp add: init_ff_def dest: init_linear_error)

lemma init_encoder_layer_fails:
  assumes "encoder_layer_shaped l 0 dff"
  shows "init_encoder_layer rng l = Inl ZeroDivisionError"
proof -
  from assms have "mha_shaped (enc_mha l) 0" by (simp add: encoder_layer_shaped_def)
  then have m: "init_mha r (enc_mha l) = Inl ZeroDivisionError" for r
    by (rule init_mha_fails)
  show ?thesis
    by (cases "init_ff (sub rng 0) (enc_ff l)")
       (auto simp add: init_encoder_layer_def m dest: init_ff_error)
qed

lemma init_encoder_layer_shaped:
  assumes "init_encoder_layer rng l = Inr l'"
  shows "encoder_layer_shaped l' e dff = encoder_layer_shaped l e dff"
proof -
  from assms obtain f a where
    i: "init_ff (sub rng 0) (enc_ff l) = Inr f" "init_mha (sub rng 1) (enc_mha l) = Inr a"
    and l': "l' = l\<lparr>enc_ff := f, enc_mha := a\<rparr>"
    by (auto simp add: init_encoder_layer_def ebind_Inr_iff)
  show ?thesis
    by (simp add: l' encoder_layer_shaped_def init_ff_shaped [OF i(1)] init_mha_shaped [OF i(2)])
qed

lemma init_encoder_layer_ok:
  assumes "encoder_layer_shaped l e dff" "0 < e"
  shows "\<exists>l'. init_encoder_layer rng l = Inr l'"
proof -
  from assms(1) have s: "ff_shaped (enc_ff l) e dff" "mha_shaped (enc_mha l) e"
    by (simp_all add: encoder_layer_shaped_def)
  from init_ff_ok [OF s(1) assms(2), of "sub rng 0"] init_mha_ok [OF s(2) assms(2), of "sub rng 1"]
  obtain f a where "init_ff (sub rng 0) (enc_ff l) = Inr f"
    "init_mha (sub rng 1) (enc_mha l) = Inr a" by (elim exE)
  then show ?thesis by (simp add: init_encoder_layer_def)
qed

lemma init_decoder_layer_shaped:
  assumes "init_decoder_layer rng l = Inr l'"
  shows "decoder_layer_shaped l' e dff = decoder_layer_shaped l e dff"
proof -
  from assms obtain f a ma where
    i: "init_ff (sub rng 0) (dec_ff l) = Inr f" "init_mha (sub rng 1) (dec_mha l) = Inr a"
    "init_mha (sub rng 2) (dec_mmha l) = Inr ma"
    and l': "l' = l\<lparr>dec_ff := f, dec_mha := a, dec_mmha := ma\<rparr>"
    by (auto simp add: init_decoder_layer_def ebind_Inr_iff)
  show ?thesis
    by (simp add: l' decoder_layer_shaped_def init_ff_shaped [OF i(1)] init_mha_shaped [OF i(2)]
        init_mha_shaped [OF i(3)])
qed

lemma init_decoder_layer_ok:
  assumes "decoder_layer_shaped l e dff" "0 < e"
  shows "\<exists>l'. init_decoder_layer rng l = Inr l'"
proof -
  from assms(1) have s: "ff_shaped (dec_ff l) e dff" "mha_shaped (dec_mha l) e"
    "mha_shaped (dec_mmha l) e"
    by (simp_all add: decoder_layer_shaped_def)
  from init_ff_ok [OF s(1) assms(2), of "sub rng 0"] init_mha_ok [OF s(2) assms(2), of "sub rng 1"]
    init_mha_ok [OF s(3) assms(2), of "sub rng 2"]
  obtain f a ma where "init_ff (sub rng 0) (dec_ff l) = Inr f"
    "init_mha (sub rng 1) (dec_mha l) = Inr a" "init_mha (sub rng 2) (dec_mmha l) = Inr ma"
    by (elim exE)
  then show ?thesis by (simp add: init_decoder_layer_def)
qed

lemma init_layers_shaped:
  assumes "\<forall>rng l l'. f rng l = Inr l' \<longrightarrow> P l' = P l"
  shows "init_layers f rng i ls = Inr ls' \<Longrightarrow> list_all P ls' = list_all P ls"
proof (induction ls arbitrary: i ls')
  case Nil
  then show ?case by simp
next
  case (Cons l ls)
  from Cons.prems obtain l' ls2 where a: "f (sub rng i) l = Inr l'"
    and b: "init_layers f rng (Suc i) ls = Inr ls2" and c: "ls' = l' # ls2"
    by (auto simp add: ebind_Inr_iff)
  from assms a have "P l' = P l" by simp
  with Cons.IH [OF b] c show ?case by simp
qed

lemma init_layers_ok:
  assumes "\<forall>rng l. P l \<longrightarrow> (\<exists>l'. f rng l = Inr l')"
  shows "list_all P ls \<Longrightarrow> \<exists>ls'. init_layers f rng i ls = Inr ls'"
proof (induction ls arbitrary: i)
  case Nil
  then show ?case by simp
next
  case (Cons l ls)
  from Cons.prems have "P l" "list_all P ls" by simp_all
  from assms this(1) obtain l' where a: "f (sub rng i) l = Inr l'" by (elim allE impE) auto
  from Cons.IH [OF \<open>list_all P ls\<close>, of "Suc i"] obtain ls' where
    "init_layers f rng (Suc i) ls = Inr ls'" by (elim exE)
  with a show ?case by simp
qed

lemma init_params_Inr:
  assumes "init_params rng m = Inr m'"
  shows "config m' = config m" and "pos_enc m' = pos_enc m" and "sqrt_dmodel m' = sqrt_dmodel m"
    and "embeddings_weight m' = embeddings_weight m" and "fc_weight m' = fc_weight m"
    and "fc_bias m' = fc_bias m" and "training m' = training m" and "dropout_p m' = dropout_p m"
    and "shape (storage m' a) = shape (storage m a)"
    and "encoder_shaped (encoder m') e dff = encoder_shaped (encoder m) e dff"
    and "decoder_shaped (decoder m') e dff = decoder_shaped (decoder m) e dff"
proof -
  from assms obtain els dls where
    els: "init_layers init_encoder_layer (sub rng 0) 0 (encoder_layers (encoder m)) = Inr els"
    and dls: "init_layers init_decoder_layer (sub rng 1) 0 (decoder_layers (decoder m)) = Inr dls"
    by (auto simp add: init_params_def ebind_Inr_iff)
  define m1 where "m1 = m\<lparr>encoder := (encoder m)\<lparr>encoder_layers := els\<rparr>,
                          decoder := (decoder m)\<lparr>decoder_layers := dls\<rparr>\<rparr>"
  from assms have "ebind (if length (shape (storage m1 (embeddings_weight m1))) > 1
          then ebind (xavier_uniform (rng [2]) (storage m1 (embeddings_weight m1))) (\<lambda>w.
                 Inr (update_inplace (embeddings_weight m1) w m1))
          else Inr m1) (\<lambda>m.
        if fc_weight m \<noteq> embeddings_weight m \<and> length (shape (storage m (fc_weight m))) > 1
        then ebind (xavier_uniform (rng [3]) (storage m (fc_weight m))) (\<lambda>w.
               Inr (update_inplace (fc_weight m) w m))
        else Inr m) = Inr m'"
    unfolding init_params_def els dls ebind_Inr Let_def m1_def .
  then obtain m2 where
    m2: "(if length (shape (storage m1 (embeddings_weight m1))) > 1
          then ebind (xavier_uniform (rng [2]) (storage m1 (embeddings_weight m1))) (\<lambda>w.
                 Inr (update_inplace (embeddings_weight m1) w m1))
          else Inr m1) = Inr m2"
    and m': "(if fc_weight m2 \<noteq> embeddings_weight m2 \<and> length (shape (storage m2 (fc_weight m2))) > 1
          then ebind (xavier_uniform (rng [3]) (storage m2 (fc_weight m2))) (\<lambda>w.
                 Inr (update_inplace (fc_weight m2) w m2))
          else Inr m2) = Inr m'"
    unfolding ebind_Inr_iff by (elim exE conjE)
  from m2 have 2: "m2\<lparr>storage := storage m1\<rparr> = m1"
    "shape (storage m2 a) = shape (storage m1 a)"
    by (auto simp add: ebind_Inr_iff update_inplace_def split: if_splits
        dest: xavier_uniform_shape)
  from m' have 3: "m'\<lparr>storage := storage m2\<rparr> = m2"
    "shape (storage m' a) = shape (storage m2 a)"
    by (auto simp add: ebind_Inr_iff update_inplace_def split: if_splits
        dest: xavier_uniform_shape)
  have f: "config m' = config m1" "pos_enc m' = pos_enc m1" "sqrt_dmodel m' = sqrt_dmodel m1"
    "embeddings_weight m' = embeddings_weight m1" "fc_weight m' = fc_weight m1"
    "fc_bias m' = fc_bias m1" "training m' = training m1" "dropout_p m' = dropout_p m1"
    "encoder m' = encoder m1" "decoder m' = decoder m1"
    using arg_cong [OF 2(1), of config] arg_cong [OF 3(1), of config]
      arg_cong [OF 2(1), of pos_enc] arg_cong [OF 3(1), of pos_enc]
      arg_cong [OF 2(1), of sqrt_dmodel] arg_cong [OF 3(1), of sqrt_dmodel]
      arg_cong [OF 2(1), of embeddings_weight] arg_cong [OF 3(1), of embeddings_weight]
      arg_cong [OF 2(1), of fc_weight] arg_cong [OF 3(1), of fc_weight]
      arg_cong [OF 2(1), of fc_bias] arg_cong [OF 3(1), of fc_bias]
      arg_cong [OF 2(1), of training] arg_cong [OF 3(1), of training]
      arg_cong [OF 2(1), of dropout_p] arg_cong [OF 3(1), of dropout_p]
      arg_cong [OF 2(1), of encoder] arg_cong [OF 3(1), of encoder]
      arg_cong [OF 2(1), of decoder] arg_cong [OF 3(1), of decoder]
    by simp_all
  show "config m' = config m" "pos_enc m' = pos_enc m" "sqrt_dmodel m' = sqrt_dmodel m"
    "embeddings_weight m' = embeddings_weight m" "fc_weight m' = fc_weight m"
    "fc_bias m' = fc_bias m" "training m' = training m" "dropout_p m' = dropout_p m"
    using f by (simp_all add: m1_def)
  show "shape (storage m' a) = shape (storage m a)"
    using 2(2) 3(2) by (simp add: m1_def)
  have "list_all (\<lambda>l. encoder_layer_shaped l e dff) els =
        list_all (\<lambda>l. encoder_layer_shaped l e dff) (encoder_layers (encoder m))"
    by (rule init_layers_shaped [OF _ els]) (simp add: init_encoder_layer_shaped)
  then show "encoder_shaped (encoder m') e dff = encoder_shaped (encoder m) e dff"
    using f(9) by (simp add: m1_def encoder_shaped_def)
  have "list_all (\<lambda>l. decoder_layer_shaped l e dff) dls =
        list_all (\<lambda>l. decoder_layer_shaped l e dff) (decoder_layers (decoder m))"
    by (rule init_layers_shaped [OF _ dls]) (simp add: init_decoder_layer_shaped)
  then show "decoder_shaped (decoder m') e dff = decoder_shaped (decoder m) e dff"
    using f(10) by (simp add: m1_def decoder_shaped_def)
qed

lemma init_params_well_shaped:
  "init_params rng m = Inr m' \<Longrightarrow> well_shaped m' = well_shaped m"
  by (simp add: well_shaped_def Let_def init_params_Inr)

lemma init_params_ok:
  assumes ws: "well_shaped m" and e: "0 < embed_size (config m)"
  shows "\<exists>m'. init_params rng m = Inr m'"
proof -
  from ws have es: "list_all (\<lambda>l. encoder_layer_shaped l (embed_size (config m)) (d_ff (config m)))
      (encoder_layers (encoder m))"
    and ds: "list_all (\<lambda>l. decoder_layer_shaped l (embed_size (config m)) (d_ff (config m)))
      (decoder_layers (decoder m))"
    and sh: "shape (storage m (embeddings_weight m)) = [vocab_size (config m), embed_size (config m)]"
      "shape (storage m (fc_weight m)) = [vocab_size (config m), embed_size (config m)]"
    by (simp_all add: well_shaped_def Let_def encoder_shaped_def decoder_shaped_def)
  have "\<forall>rng l. encoder_layer_shaped l (embed_size (config m)) (d_ff (config m)) \<longrightarrow>
      (\<exists>l'. init_encoder_layer rng l = Inr l')"
    using e by (intro allI impI) (rule init_encoder_layer_ok)
  from init_layers_ok [OF this es, of "sub rng 0" 0]
  obtain els where els:
    "init_layers init_encoder_layer (sub rng 0) 0 (encoder_layers (encoder m)) = Inr els"
    by (elim exE)
  have "\<forall>rng l. decoder_layer_shaped l (embed_size (config m)) (d_ff (config m)) \<longrightarrow>
      (\<exists>l'. init_decoder_layer rng l = Inr l')"
    using e by (intro allI impI) (rule init_decoder_layer_ok)
  from init_layers_ok [OF this ds, of "sub rng 1" 0]
  obtain dls where dls:
    "init_layers init_decoder_layer (sub rng 1) 0 (decoder_layers (decoder m)) = Inr dls"
    by (elim exE)
  have x: "xavier_uniform v p = Inr \<lparr>shape = shape p, elem = v\<rparr>"
    if "shape p = [vocab_size (config m), embed_size (config m)]" for v p
    using e by (simp add: xavier_uniform_2 [OF that] that)
  show ?thesis
    unfolding init_params_def els dls ebind_Inr Let_def
    by (simp add: sh x update_inplace_def)
qed

lemma Transformer_init_ok:
  assumes pe: "even (embed_size cfg) \<or> embed_size cfg = 1"
    and enc: "n_encoder_layers cfg = 0 \<or>
              (n_encoder_heads cfg \<noteq> 0 \<and> embed_size cfg mod n_encoder_heads cfg = 0)"
    and dec: "n_decoder_layers cfg = 0 \<or>
              (n_decoder_heads cfg \<noteq> 0 \<and> embed_size cfg mod n_decoder_heads cfg = 0)"
    and xav: "\<not> xavier_initialization cfg \<or> 0 < embed_size cfg"
  shows "\<exists>m. Transformer_init cfg rng = Inr m \<and> well_shaped m \<and> config m = cfg \<and>
           training m \<and> fc_weight m = 1 \<and>
           embeddings_weight m = (if tie_embeddings cfg then 1 else 0)"
proof -
  from positional_encoding_ok [OF pe, of "max_len cfg"]
  obtain t where t: "positional_encoding (max_len cfg) (embed_size cfg) = Inr t"
    "shape t = [max_len cfg, embed_size cfg]" by blast
  from Encoder_init_ok [OF enc]
  obtain e where e: "Encoder_init (sub rng 0) (n_encoder_layers cfg) (n_encoder_heads cfg)
       (embed_size cfg) (d_ff cfg) (post_ln cfg) (use_additional_dropout cfg) = Inr e"
    "encoder_shaped e (embed_size cfg) (d_ff cfg)" by blast
  from Decoder_init_ok [OF dec]
  obtain d where d: "Decoder_init (sub rng 1) (n_decoder_layers cfg) (n_decoder_heads cfg)
       (embed_size cfg) (d_ff cfg) (post_ln cfg) (use_additional_dropout cfg) = Inr d"
    "decoder_shaped d (embed_size cfg) (d_ff cfg)" by blast
  define m0 where "m0 = \<lparr>config = cfg, pos_enc = t, encoder = e, decoder = d,
      sqrt_dmodel = sqrt (real (embed_size cfg)),
      storage = (\<lambda>a. if a = 0
         then \<lparr>shape = [vocab_size cfg, embed_size cfg], elem = rng [2]\<rparr>
         else lin_weight (Linear_init (sub rng 3) (embed_size cfg) (vocab_size cfg))),
      embeddings_weight = (if tie_embeddings cfg then 1 else 0), fc_weight = 1,
      fc_bias = lin_bias (Linear_init (sub rng 3) (embed_size cfg) (vocab_size cfg)),
      dropout_p = 1 / 10, training = True\<rparr>"
  have i: "Transformer_init cfg rng =
      (if xavier_initialization cfg then init_params (sub rng 4) m0 else Inr m0)"
    using t e d by (cases "tie_embeddings cfg") (simp_all add: Transformer_init_def Let_def m0_def)
  have w0: "well_shaped m0" "config m0 = cfg" "training m0" "fc_weight m0 = 1"
    "embeddings_weight m0 = (if tie_embeddings cfg then 1 else 0)"
    using t e d by (simp_all add: m0_def well_shaped_def Let_def Linear_init_def)
  show ?thesis
  proof (cases "xavier_initialization cfg")
    case False
    with i w0 show ?thesis by simp
  next
    case True
    with xav w0 have "0 < embed_size (config m0)" by simp
    from init_params_ok [OF w0(1) this, of "sub rng 4"]
    obtain m where m: "init_params (sub rng 4) m0 = Inr m" by (elim exE)
    show ?thesis
      using True i m w0 init_params_Inr(1,4,5,7) [OF m] init_params_well_shaped [OF m]
      by simp
  qed
qed

lemma Transformer_init_Inr:
  assumes "Transformer_init cfg rng = Inr m"
  obtains pe enc dec m0 where
    "positional_encoding (max_len cfg) (embed_size cfg) = Inr pe"
    "Encoder_init (sub rng 0) (n_encoder_layers cfg) (n_encoder_heads cfg) (embed_size cfg)
       (d_ff cfg) (post_ln cfg) (use_additional_dropout cfg) = Inr enc"
    "Decoder_init (sub rng 1) (n_decoder_layers cfg) (n_decoder_heads cfg) (embed_size cfg)
       (d_ff cfg) (post_ln cfg) (use_additional_dropout cfg) = Inr dec"
    "m0 = \<lparr>config = cfg, pos_enc = pe, encoder = enc, decoder = dec,
           sqrt_dmodel = sqrt (real (embed_size cfg)),
           storage = (\<lambda>a. if a = 0
              then \<lparr>shape = [vocab_size cfg, embed_size cfg], elem = rng [2]\<rparr>
              else lin_weight (Linear_init (sub rng 3) (embed_size cfg) (vocab_size cfg))),
           embeddings_weight = (if tie_embeddings cfg then 1 else 0), fc_weight = 1,
           fc_bias = lin_bias (Linear_init (sub rng 3) (embed_size cfg) (vocab_size cfg)),
           dropout_p = 1 / 10, training = True\<rparr>"
    "(if xavier_initialization cfg then init_params (sub rng 4) m0 else Inr m0) = Inr m"
proof -
  from assms obtain t e d where t: "positional_encoding (max_len cfg) (embed_size cfg) = Inr t"
    and e: "Encoder_init (sub rng 0) (n_encoder_layers cfg) (n_encoder_heads cfg)
       (embed_size cfg) (d_ff cfg) (post_ln cfg) (use_additional_dropout cfg) = Inr e"
    and d: "Decoder_init (sub rng 1) (n_decoder_layers cfg) (n_decoder_heads cfg)
       (embed_size cfg) (d_ff cfg) (post_ln cfg) (use_additional_dropout cfg) = Inr d"
    by (auto simp add: Transformer_init_def ebind_Inr_iff)
  show thesis
  proof (rule that [OF t e d refl])
    show "(if xavier_initialization cfg
           then init_params (sub rng 4)
             \<lparr>config = cfg, pos_enc = t, encoder = e, decoder = d,
              sqrt_dmodel = sqrt (real (embed_size cfg)),
              storage = (\<lambda>a. if a = 0
                 then \<lparr>shape = [vocab_size cfg, embed_size cfg], elem = rng [2]\<rparr>
                 else lin_weight (Linear_init (sub rng 3) (embed_size cfg) (vocab_size cfg))),
              embeddings_weight = (if tie_embeddings cfg then 1 else 0), fc_weight = 1,
              fc_bias = lin_bias (Linear_init (sub rng 3) (embed_size cfg) (vocab_size cfg)),
              dropout_p = 1 / 10, training = True\<rparr>
           else Inr \<lparr>config = cfg, pos_enc = t, encoder = e, decoder = d,
              sqrt_dmodel = sqrt (real (embed_size cfg)),
              storage = (\<lambda>a. if a = 0
                 then \<lparr>shape = [vocab_size cfg, embed_size cfg], elem = rng [2]\<rparr>
                 else lin_weight (Linear_init (sub rng 3) (embed_size cfg) (vocab_size cfg))),
              embeddings_weight = (if tie_embeddings cfg then 1 else 0), fc_weight = 1,
              fc_bias = lin_bias (Linear_init (sub rng 3) (embed_size cfg) (vocab_size cfg)),
              dropout_p = 1 / 10, training = True\<rparr>) = Inr m"
      using assms t e d
      by (cases "tie_embeddings cfg"; cases "xavier_initialization cfg")
         (simp_all add: Transformer_init_def Let_def)
  qed
qed

lemma Transformer_init_well_shaped:
  assumes "Transformer_init cfg rng = Inr m"
  shows "well_shaped m \<and> config m = cfg"
proof -
  from assms obtain t e d m0 where
    t: "positional_encoding (max_len cfg) (embed_size cfg) = Inr t"
    and e: "Encoder_init (sub rng 0) (n_encoder_layers cfg) (n_encoder_heads cfg)
       (embed_size cfg) (d_ff cfg) (post_ln cfg) (use_additional_dropout cfg) = Inr e"
    and d: "Decoder_init (sub rng 1) (n_decoder_layers cfg) (n_decoder_heads cfg)
       (embed_size cfg) (d_ff cfg) (post_ln cfg) (use_additional_dropout cfg) = Inr d"
    and m0: "m0 = \<lparr>config = cfg, pos_enc = t, encoder = e, decoder = d,
           sqrt_dmodel = sqrt (real (embed_size cfg)),
           storage = (\<lambda>a. if a = 0
              then \<lparr>shape = [vocab_size cfg, embed_size cfg], elem = rng [2]\<rparr>
              else lin_weight (Linear_init (sub rng 3) (embed_size cfg) (vocab_size cfg))),
           embeddings_weight = (if tie_embeddings cfg then 1 else 0), fc_weight = 1,
           fc_bias = lin_bias (Linear_init (sub rng 3) (embed_size cfg) (vocab_size cfg)),
           dropout_p = 1 / 10, training = True\<rparr>"
    and m: "(if xavier_initialization cfg then init_params (sub rng 4) m0 else Inr m0) = Inr m"
    by (rule Transformer_init_Inr)
  have pe: "even (embed_size cfg) \<or> embed_size cfg = 1"
  proof (rule ccontr)
    assume "\<not> ?thesis"
    then have "odd (embed_size cfg)" "3 \<le> embed_size cfg"
      by (auto elim!: oddE)
    from positional_encoding_odd [OF this, of "max_len cfg"] t show False by simp
  qed
  have enc: "n_encoder_layers cfg = 0 \<or>
              (n_encoder_heads cfg \<noteq> 0 \<and> embed_size cfg mod n_encoder_heads cfg = 0)"
  proof (rule ccontr)
    assume "\<not> ?thesis"
    then have "0 < n_encoder_layers cfg"
      "n_encoder_heads cfg = 0 \<or> embed_size cfg mod n_encoder_heads cfg \<noteq> 0" by auto
    from Encoder_init_fails [OF this, of "sub rng 0" "d_ff cfg" "post_ln cfg"
        "use_additional_dropout cfg"] e show False by simp
  qed
  have dec: "n_decoder_layers cfg = 0 \<or>
              (n_decoder_heads cfg \<noteq> 0 \<and> embed_size cfg mod n_decoder_heads cfg = 0)"
  proof (rule ccontr)
    assume "\<not> ?thesis"
    then have "0 < n_decoder_layers cfg"
      "n_decoder_heads cfg = 0 \<or> embed_size cfg mod n_decoder_heads cfg \<noteq> 0" by auto
    from Decoder_init_fails [OF this, of "sub rng 1" "d_ff cfg" "post_ln cfg"
        "use_additional_dropout cfg"] d show False by simp
  qed
  from positional_encoding_ok [OF pe, of "max_len cfg"] t
  have ts: "shape t = [max_len cfg, embed_size cfg]" by auto
  from Encoder_init_ok [OF enc, of "sub rng 0" "d_ff cfg" "post_ln cfg"
      "use_additional_dropout cfg"] e
  have es: "encoder_shaped e (embed_size cfg) (d_ff cfg)" by auto
  from Decoder_init_ok [OF dec, of "sub rng 1" "d_ff cfg" "post_ln cfg"
      "use_additional_dropout cfg"] d
  have ds: "decoder_shaped d (embed_size cfg) (d_ff cfg)" by auto
  have w0: "well_shaped m0" "config m0 = cfg"
    using ts es ds by (simp_all add: m0 well_shaped_def Let_def Linear_init_def)
  show ?thesis
  proof (cases "xavier_initialization cfg")
    case False
    with m w0 show ?thesis by simp
  next
    case True
    with m have "init_params (sub rng 4) m0 = Inr m" by simp
    from init_params_well_shaped [OF this] init_params_Inr(1) [OF this] w0 show ?thesis by simp
  qed
qed

section \<open>Embedding and positional rows\<close>

lemma isl_ebind: "isl (ebind m f) \<longleftrightarrow> isl m \<or> (\<exists>x. m = Inr x \<and> isl (f x))"
  by (cases m) simp_all

lemma set_indices_2: "set (indices [B, L]) = {[b, l] | b l. b < B \<and> l < L}"
  by (auto simp add: indices_def)

lemma F_embedding_2:
  assumes "shape ids = [B, L]" "shape w = [V, E]"
  shows "F_embedding ids w =
     (if \<forall>b l. b < B \<and> l < L \<longrightarrow> 0 \<le> elem ids [b, l] \<and> elem ids [b, l] < int V
      then Inr \<lparr>shape = [B, L, E], elem = (\<lambda>idx. elem w [nat (elem ids (butlast idx)), last idx])\<rparr>
      else Inl IndexError)"
  using assms by (auto simp add: F_embedding_def list_all_iff set_indices_2)

lemma scaled_embeddings_ok:
  assumes "well_shaped m" "ids_valid ids B L (vocab_size (config m))"
  shows "\<exists>t. scaled_embeddings m ids = Inr t \<and> shape t = [B, L, embed_size (config m)] \<and>
     (\<forall>b l e. elem t [b, l, e] =
        elem (storage m (embeddings_weight m)) [nat (elem ids [b, l]), e] *
        sqrt (real (embed_size (config m))))"
proof -
  have w: "shape (storage m (embeddings_weight m)) = [vocab_size (config m), embed_size (config m)]"
    and s: "sqrt_dmodel m = sqrt (real (embed_size (config m)))"
    using assms(1) by (simp_all add: well_shaped_def Let_def)
  have i: "shape ids = [B, L]" using assms(2) by (simp add: ids_valid_def)
  show ?thesis
    using assms(2) unfolding scaled_embeddings_def embeddings_forward_def F_embedding_2 [OF i w]
    by (simp add: ids_valid_def s)
qed

lemma scaled_embeddings_shape:
  assumes "well_shaped m" "shape ids = [B, L]" "scaled_embeddings m ids = Inr t"
  shows "shape t = [B, L, embed_size (config m)]"
proof -
  have w: "shape (storage m (embeddings_weight m)) = [vocab_size (config m), embed_size (config m)]"
    using assms(1) by (simp add: well_shaped_def Let_def)
  show ?thesis
    using assms(3) unfolding scaled_embeddings_def embeddings_forward_def F_embedding_2 [OF assms(2) w]
    by (auto split: if_splits)
qed

lemma shape_slice_rows: "shape t = [P, E] \<Longrightarrow> shape (slice_rows t n) = [min n P, E]"
  and elem_slice_rows [simp]: "elem (slice_rows t n) idx = elem t idx"
  by (simp_all add: slice_rows_def)

lemma expandable_2_3: "expandable [r, e] [B, L, E] \<longleftrightarrow> (r = L \<or> r = 1) \<and> (e = E \<or> e = 1)"
  by (simp add: expandable_def)

lemma add_positions_fails:
  assumes "shape x = [B, L, E]" "shape p = [P, E]" "P < L" "P \<noteq> 1"
  shows "inplace2 (+) x (slice_rows p L) = Inl RuntimeError"
proof -
  have "shape (slice_rows p L) = [P, E]"
    using shape_slice_rows [OF assms(2), of L] assms(3) by simp
  moreover have "\<not> expandable [P, E] [B, L, E]"
    using assms(3,4) by (auto simp add: expandable_2_3)
  ultimately show ?thesis
    using assms(1) by (simp add: inplace2_def expand_def)
qed

lemma add_positions_ok:
  assumes "shape x = [B, L, E]" "shape p = [P, E]" "L \<le> P \<or> P = 1"
  shows "\<exists>y. inplace2 (+) x (slice_rows p L) = Inr y \<and> shape y = [B, L, E] \<and>
     (\<forall>b l e. l < L \<longrightarrow> e < E \<longrightarrow>
        elem y [b, l, e] = elem x [b, l, e] + elem p [if L \<le> P then l else 0, e])"
proof -
  have s: "shape (slice_rows p L) = [min L P, E]"
    by (rule shape_slice_rows [OF assms(2)])
  have ex: "expandable [min L P, E] [B, L, E]"
    using assms(3) by (auto simp add: expandable_2_3 min_def)
  have "broadcast_index [min L P, E] [b, l, e] = [if L \<le> P then l else 0, e]"
    if "l < L" "e < E" for b l e
    using that assms(3) by (auto simp add: broadcast_index_def min_def)
  then show ?thesis
    using assms(1) s ex by (simp add: inplace2_def expand_def)
qed

lemma encode_too_long:
  assumes ws: "well_shaped m" and src: "shape src = [B, Ls]"
    and long: "max_len (config m) < Ls" and one: "max_len (config m) \<noteq> 1"
  shows "isl (encode m rng src src_mask)"
proof -
  have p: "shape (pos_enc m) = [max_len (config m), embed_size (config m)]"
    using ws by (simp add: well_shaped_def Let_def)
  have sz: "size_dim src 1 = Inr Ls" using src by (simp add: size_dim_def)
  let ?mk = "case src_mask of
              None \<Rightarrow> Inr None
            | Some mk \<Rightarrow> if shape mk = [] then Inl IndexError else Inr (Some (unsqueeze mk 1))"
  show ?thesis
  proof (cases ?mk)
    case (Inl e)
    then show ?thesis by (simp add: encode_def)
  next
    case mk: (Inr sm)
    show ?thesis
    proof (cases "scaled_embeddings m src")
      case (Inl e)
      then show ?thesis using mk by (simp add: encode_def)
    next
      case (Inr t)
      from scaled_embeddings_shape [OF ws src Inr]
      have "inplace2 (+) t (slice_rows (pos_enc m) Ls) = Inl RuntimeError"
        by (rule add_positions_fails [OF _ p long one])
      then show ?thesis using Inr sz mk by (simp add: encode_def)
    qed
  qed
qed

lemma decode_too_long:
  assumes ws: "well_shaped m" and tgt: "shape tgt = [B, Lt]"
    and long: "max_len (config m) < Lt" and one: "max_len (config m) \<noteq> 1"
  shows "isl (decode m rng memory tgt src_mask)"
proof -
  have p: "shape (pos_enc m) = [max_len (config m), embed_size (config m)]"
    using ws by (simp add: well_shaped_def Let_def)
  have sz: "size_dim tgt 1 = Inr Lt" using tgt by (simp add: size_dim_def)
  show ?thesis
  proof (cases "scaled_embeddings m tgt")
    case (Inl e)
    then show ?thesis by (simp add: decode_def)
  next
    case (Inr t)
    from scaled_embeddings_shape [OF ws tgt Inr]
    have "inplace2 (+) t (slice_rows (pos_enc m) Lt) = Inl RuntimeError"
      by (rule add_positions_fails [OF _ p long one])
    then show ?thesis using Inr sz by (simp add: decode_def)
  qed
qed

section \<open>Layers on two runs\<close>

lemma agreeI:
  assumes "shape x = [B, L, E]" "shape x' = [B, L', E]"
    "\<And>b l e. b < B \<Longrightarrow> l < L \<Longrightarrow> l < L' \<Longrightarrow> R b l \<Longrightarrow> e < E \<Longrightarrow> elem x [b, l, e] = elem x' [b, l, e]"
  shows "agree B L L' E R x x'"
  using assms by (simp add: agree_def)

lemma agreeD:
  assumes "agree B L L' E R x x'"
  shows "shape x = [B, L, E]" "shape x' = [B, L', E]"
    "\<And>b l e. b < B \<Longrightarrow> l < L \<Longrightarrow> l < L' \<Longrightarrow> R b l \<Longrightarrow> e < E \<Longrightarrow> elem x [b, l, e] = elem x' [b, l, e]"
  using assms by (simp_all add: agree_def)

lemma agree_refl: "shape x = [B, L, E] \<Longrightarrow> agree B L L E R x x"
  by (simp add: agree_def)

lemma agree_linear:
  assumes l: "linear_shaped l n_in n_out" and a: "agree B L L' n_in R x x'"
  shows "rel_res (agree B L L' n_out R) (Linear_forward l x) (Linear_forward l x')"
proof -
  note x = agreeD [OF a]
  have w: "shape (lin_weight l) = [n_out, n_in]" using l by (simp add: linear_shaped_def)
  have "linear_elem l x [b, t, j] = linear_elem l x' [b, t, j]"
    if "b < B" "t < L" "t < L'" "R b t" for b t j
    by (rule linear_elem_cong [OF w]) (use x(3) that in simp)
  then show ?thesis
    unfolding Linear_forward_3 [OF l x(1)] Linear_forward_3 [OF l x(2)]
    by (simp add: agree_def)
qed

lemma agree_layer_norm:
  assumes l: "layer_norm_shaped lnm E" and a: "agree B L L' E R x x'"
  shows "rel_res (agree B L L' E R) (LayerNorm_forward lnm x) (LayerNorm_forward lnm x')"
proof -
  note x = agreeD [OF a]
  let ?f = "\<lambda>x b l j. (let mean = (\<Sum>k\<leftarrow>[0..<E]. elem x [b, l, k]) / real E;
             var = (\<Sum>k\<leftarrow>[0..<E]. (elem x [b, l, k] - mean)\<^sup>2) / real E
         in (elem x [b, l, j] - mean) / sqrt (var + ln_eps lnm) * elem (ln_weight lnm) [j]
            + elem (ln_bias lnm) [j])"
  from LayerNorm_forward_3 [OF l x(1)] obtain y where y: "LayerNorm_forward lnm x = Inr y"
    "shape y = [B, L, E]" "\<And>b l j. elem y [b, l, j] = ?f x b l j" by blast
  from LayerNorm_forward_3 [OF l x(2)] obtain y' where y': "LayerNorm_forward lnm x' = Inr y'"
    "shape y' = [B, L', E]" "\<And>b l j. elem y' [b, l, j] = ?f x' b l j" by blast
  have "?f x b t j = ?f x' b t j" if "b < B" "t < L" "t < L'" "R b t" "j < E" for b t j
  proof -
    have s: "(\<Sum>k\<leftarrow>[0..<E]. elem x [b, t, k]) = (\<Sum>k\<leftarrow>[0..<E]. elem x' [b, t, k])"
      by (rule sum_list_cong) (use x(3) that in simp)
    have "(\<Sum>k\<leftarrow>[0..<E]. (elem x [b, t, k] - c)\<^sup>2) = (\<Sum>k\<leftarrow>[0..<E]. (elem x' [b, t, k] - c)\<^sup>2)" for c
      by (rule sum_list_cong) (use x(3) that in simp)
    then show ?thesis using s x(3) [OF that] by (simp add: Let_def)
  qed
  then show ?thesis using y y' by (simp add: agree_def)
qed

lemma agree_add:
  assumes a: "agree B L L' E R x x'" and b: "agree B L L' E R y y'"
  shows "rel_res (agree B L L' E R) (add x y) (add x' y')"
proof -
  note x = agreeD [OF a] and y = agreeD [OF b]
  from add_3 [OF x(1) y(1)] obtain z where z: "add x y = Inr z" "shape z = [B, L, E]"
    "\<And>b l e. b < B \<Longrightarrow> l < L \<Longrightarrow> e < E \<Longrightarrow> elem z [b, l, e] = elem x [b, l, e] + elem y [b, l, e]"
    by blast
  from add_3 [OF x(2) y(2)] obtain z' where z': "add x' y' = Inr z'" "shape z' = [B, L', E]"
    "\<And>b l e. b < B \<Longrightarrow> l < L' \<Longrightarrow> e < E \<Longrightarrow> elem z' [b, l, e] = elem x' [b, l, e] + elem y' [b, l, e]"
    by blast
  show ?thesis using z z' x(3) y(3) by (simp add: agree_def)
qed

lemma agree_dropout:
  assumes "agree B L L' E R x x'"
  shows "agree B L L' E R (dropout p tr keep x) (dropout p tr keep x')"
  using assms by (simp add: agree_def elem_dropout)

lemma agree_relu:
  assumes "agree B L L' E R x x'"
  shows "agree B L L' E R (relu x) (relu x')"
  using assms by (simp add: agree_def relu_def)

lemma agree_add_dropout:
  assumes "agree B L L' E R x x'" "agree B L L' E R y y'"
  shows "rel_res (agree B L L' E R) (add x (dropout p tr keep y)) (add x' (dropout p tr keep y'))"
  by (intro agree_add agree_dropout assms)

lemma agree_ff:
  assumes f: "ff_shaped f E dff" and a: "agree B L L' E R x x'"
  shows "rel_res (agree B L L' E R) (FeedForward_forward f tr keep x) (FeedForward_forward f tr keep x')"
proof -
  have 1: "linear_shaped (ff_lin1 f) E dff" and 2: "linear_shaped (ff_lin2 f) dff E"
    using f by (simp_all add: ff_shaped_def)
  show ?thesis
    unfolding FeedForward_forward_def
    by (rule rel_res_bind [OF agree_linear [OF 1 a]])
       (intro agree_linear [OF 2] agree_dropout agree_relu)
qed

subsection \<open>Masks\<close>

lemma pad_mask_fits:
  assumes "pad_mask_shaped msk B Ls"
  shows "mask_fits msk [B, H, Lq, Ls]"
  using assms
  by (cases msk) (simp_all add: pad_mask_shaped_def mask_fits_def unsqueeze_def expandable_def)

lemma pad_mask_fn:
  assumes "pad_mask_shaped msk B Ls" "b < B" "kk < Ls"
  shows "mask_fn msk [b, h, l, kk] = padded msk b kk"
  using assms
  by (cases msk)
     (simp_all add: pad_mask_shaped_def mask_fn_def padded_def unsqueeze_def broadcast_index_def)

lemma causal_mask_fits:
  "mask_fits (Some (unsqueeze (create_causal_mask L) 0)) [B, H, L, L]"
  by (simp add: mask_fits_def unsqueeze_def expandable_def shape_create_causal_mask)

lemma causal_mask_fn:
  assumes "l < L" "kk < L"
  shows "mask_fn (Some (unsqueeze (create_causal_mask L) 0)) [b, h, l, kk] \<longleftrightarrow> l < kk"
  using assms
  by (simp add: mask_fn_def unsqueeze_def broadcast_index_def shape_create_causal_mask
      elem_create_causal_mask)

subsection \<open>Attention inside the layers\<close>

lemma self_attention_padding:
  assumes sh: "mha_shaped a E" and p: "pad_mask_shaped msk B L"
    and cl: "\<forall>b l kk. R b l \<longrightarrow> kk < L \<longrightarrow> \<not> padded msk b kk \<longrightarrow> R b kk"
    and a: "agree B L L E R x x'"
  shows "rel_res (agree B L L E R)
           (MultiHeadAttention_forward a tr keep x x x msk)
           (MultiHeadAttention_forward a tr keep x' x' x' msk)"
proof (rule mha_agree [OF sh a])
  note x = agreeD [OF a]
  show "shape x = [B, L, E]" "shape x' = [B, L, E]" "shape x = [B, L, E]" "shape x' = [B, L, E]"
    using x by simp_all
  show "mask_fits msk [B, n_heads a, L, L]" "mask_fits msk [B, n_heads a, L, L]"
    by (rule pad_mask_fits [OF p])+
  fix b l
  assume b: "b < B" and l: "l < L" and r: "R b l"
  have "\<forall>h kk. h < n_heads a \<longrightarrow> kk < L \<longrightarrow>
          mask_fn msk [b, h, l, kk] = mask_fn msk [b, h, l, kk] \<and>
          (\<not> mask_fn msk [b, h, l, kk] \<longrightarrow>
             (\<forall>e<E. elem x [b, kk, e] = elem x' [b, kk, e] \<and> elem x [b, kk, e] = elem x' [b, kk, e]))"
    using x(3) cl r b by (auto simp add: pad_mask_fn [OF p b])
  then show "\<exists>c\<le>L. c \<le> L \<and>
       (\<forall>h kk. h < n_heads a \<longrightarrow> c \<le> kk \<longrightarrow>
          (kk < L \<longrightarrow> mask_fn msk [b, h, l, kk]) \<and> (kk < L \<longrightarrow> mask_fn msk [b, h, l, kk])) \<and>
       (\<forall>h kk. h < n_heads a \<longrightarrow> kk < c \<longrightarrow>
          mask_fn msk [b, h, l, kk] = mask_fn msk [b, h, l, kk] \<and>
          (\<not> mask_fn msk [b, h, l, kk] \<longrightarrow>
             (\<forall>e<E. elem x [b, kk, e] = elem x' [b, kk, e] \<and> elem x [b, kk, e] = elem x' [b, kk, e])))"
    by (intro exI [of _ L]) simp
qed

lemma self_attention_causal:
  assumes sh: "mha_shaped a E"
    and cl: "\<forall>b l kk. R b l \<longrightarrow> kk \<le> l \<longrightarrow> R b kk"
    and a: "agree B L L' E R x x'"
  shows "rel_res (agree B L L' E R)
           (MultiHeadAttention_forward a tr keep x x x (Some (unsqueeze (create_causal_mask L) 0)))
           (MultiHeadAttention_forward a tr keep x' x' x' (Some (unsqueeze (create_causal_mask L') 0)))"
proof (rule mha_agree [OF sh a])
  note x = agreeD [OF a]
  show "shape x = [B, L, E]" "shape x' = [B, L', E]" "shape x = [B, L, E]" "shape x' = [B, L', E]"
    using x by simp_all
  show "mask_fits (Some (unsqueeze (create_causal_mask L) 0)) [B, n_heads a, L, L]"
    "mask_fits (Some (unsqueeze (create_causal_mask L') 0)) [B, n_heads a, L', L']"
    by (rule causal_mask_fits)+
  fix b l
  assume b: "b < B" and l: "l < L" "l < L'" and r: "R b l"
  let ?m = "Some (unsqueeze (create_causal_mask L) 0)"
  let ?m' = "Some (unsqueeze (create_causal_mask L') 0)"
  have t: "mask_fn ?m [b, h, l, kk]" if "Suc l \<le> kk" "kk < L" for h kk
    using that l by (simp add: causal_mask_fn)
  have t': "mask_fn ?m' [b, h, l, kk]" if "Suc l \<le> kk" "kk < L'" for h kk
    using that l by (simp add: causal_mask_fn)
  have v: "\<not> mask_fn ?m [b, h, l, kk]" "\<not> mask_fn ?m' [b, h, l, kk]" if "kk < Suc l" for h kk
    using that l by (simp_all add: causal_mask_fn)
  have e: "elem x [b, kk, e] = elem x' [b, kk, e]" if "kk < Suc l" "e < E" for kk e
    using x(3) [of b kk e] cl r that b l by auto
  show "\<exists>c\<le>L. c \<le> L' \<and>
       (\<forall>h kk. h < n_heads a \<longrightarrow> c \<le> kk \<longrightarrow>
          (kk < L \<longrightarrow> mask_fn ?m [b, h, l, kk]) \<and> (kk < L' \<longrightarrow> mask_fn ?m' [b, h, l, kk])) \<and>
       (\<forall>h kk. h < n_heads a \<longrightarrow> kk < c \<longrightarrow>
          mask_fn ?m [b, h, l, kk] = mask_fn ?m' [b, h, l, kk] \<and>
          (\<not> mask_fn ?m [b, h, l, kk] \<longrightarrow>
             (\<forall>e<E. elem x [b, kk, e] = elem x' [b, kk, e] \<and> elem x [b, kk, e] = elem x' [b, kk, e])))"
    using l t t' v e by (intro exI [of _ "Suc l"]) simp
qed

lemma cross_attention:
  assumes sh: "mha_shaped a E" and p: "pad_mask_shaped msk B Ls"
    and cl: "\<forall>b l kk. R b l \<longrightarrow> kk < Ls \<longrightarrow> \<not> padded msk b kk \<longrightarrow> Rm b kk"
    and a: "agree B L L' E R x x'" and mm: "agree B Ls Ls E Rm mem mem'"
  shows "rel_res (agree B L L' E R)
           (MultiHeadAttention_forward a tr keep x mem mem msk)
           (MultiHeadAttention_forward a tr keep x' mem' mem' msk)"
proof (rule mha_agree [OF sh a])
  note y = agreeD [OF mm]
  show "shape mem = [B, Ls, E]" "shape mem' = [B, Ls, E]" "shape mem = [B, Ls, E]"
    "shape mem' = [B, Ls, E]"
    using y by simp_all
  show "mask_fits msk [B, n_heads a, L, Ls]" "mask_fits msk [B, n_heads a, L', Ls]"
    by (rule pad_mask_fits [OF p])+
  fix b l
  assume b: "b < B" and r: "R b l"
  have "\<forall>h kk. h < n_heads a \<longrightarrow> kk < Ls \<longrightarrow>
          mask_fn msk [b, h, l, kk] = mask_fn msk [b, h, l, kk] \<and>
          (\<not> mask_fn msk [b, h, l, kk] \<longrightarrow>
             (\<forall>e<E. elem mem [b, kk, e] = elem mem' [b, kk, e] \<and> elem mem [b, kk, e] = elem mem' [b, kk, e]))"
    using y(3) cl r b by (auto simp add: pad_mask_fn [OF p b])
  then show "\<exists>c\<le>Ls. c \<le> Ls \<and>
       (\<forall>h kk. h < n_heads a \<longrightarrow> c \<le> kk \<longrightarrow>
          (kk < Ls \<longrightarrow> mask_fn msk [b, h, l, kk]) \<and> (kk < Ls \<longrightarrow> mask_fn msk [b, h, l, kk])) \<and>
       (\<forall>h kk. h < n_heads a \<longrightarrow> kk < c \<longrightarrow>
          mask_fn msk [b, h, l, kk] = mask_fn msk [b, h, l, kk] \<and>
          (\<not> mask_fn msk [b, h, l, kk] \<longrightarrow>
             (\<forall>e<E. elem mem [b, kk, e] = elem mem' [b, kk, e] \<and> elem mem [b, kk, e] = elem mem' [b, kk, e])))"
    by (intro exI [of _ Ls]) simp
qed

subsection \<open>Encoder\<close>

lemma EncoderLayer_agree:
  assumes sh: "encoder_layer_shaped l E dff" and p: "pad_mask_shaped msk B L"
    and cl: "\<forall>b l kk. R b l \<longrightarrow> kk < L \<longrightarrow> \<not> padded msk b kk \<longrightarrow> R b kk"
    and a: "agree B L L E R x x'"
  shows "rel_res (agree B L L E R)
           (EncoderLayer_forward l tr rng x msk) (EncoderLayer_forward l tr rng x' msk)"
proof -
  have f: "ff_shaped (enc_ff l) E dff" and m: "mha_shaped (enc_mha l) E"
    and n1: "layer_norm_shaped (enc_ln1 l) E" and n2: "layer_norm_shaped (enc_ln2 l) E"
    using sh by (simp_all add: encoder_layer_shaped_def)
  note att = self_attention_padding [OF m p cl]
  show ?thesis
  proof (cases "enc_post_ln l")
    case True
    show ?thesis
      unfolding EncoderLayer_forward_def using True
      by (simp only: if_True)
         ((rule rel_res_bind | rule att | rule agree_add_dropout | rule agree_layer_norm [OF n1]
           | rule agree_layer_norm [OF n2] | rule agree_ff [OF f] | rule a | assumption)+)
  next
    case False
    show ?thesis
      unfolding EncoderLayer_forward_def using False
      by (simp only: if_False)
         ((rule rel_res_bind | rule att | rule agree_add_dropout | rule agree_layer_norm [OF n1]
           | rule agree_layer_norm [OF n2] | rule agree_ff [OF f] | rule a | assumption)+)
  qed
qed

lemma encoder_loop_agree:
  assumes sh: "list_all (\<lambda>l. encoder_layer_shaped l E dff) ls" and p: "pad_mask_shaped msk B L"
    and cl: "\<forall>b l kk. R b l \<longrightarrow> kk < L \<longrightarrow> \<not> padded msk b kk \<longrightarrow> R b kk"
    and a: "agree B L L E R x x'"
  shows "rel_res (agree B L L E R)
           (encoder_loop ls i tr rng x msk) (encoder_loop ls i tr rng x' msk)"
  using sh a
proof (induction ls arbitrary: i x x')
  case Nil
  then show ?case by simp
next
  case (Cons l ls)
  from Cons.prems have l: "encoder_layer_shaped l E dff"
    and ls: "list_all (\<lambda>l. encoder_layer_shaped l E dff) ls" by simp_all
  show ?case
    unfolding encoder_loop.simps
    by (rule rel_res_bind [OF EncoderLayer_agree [OF l p cl Cons.prems(2)]])
       (rule Cons.IH [OF ls])
qed

lemma Encoder_forward_agree:
  assumes sh: "encoder_shaped enc E dff" and p: "pad_mask_shaped msk B L"
    and cl: "\<forall>b l kk. R b l \<longrightarrow> kk < L \<longrightarrow> \<not> padded msk b kk \<longrightarrow> R b kk"
    and a: "agree B L L E R x x'"
  shows "rel_res (agree B L L E R)
           (Encoder_forward enc tr rng x msk) (Encoder_forward enc tr rng x' msk)"
proof -
  have ls: "list_all (\<lambda>l. encoder_layer_shaped l E dff) (encoder_layers enc)"
    and fl: "\<And>fln. enc_final_ln enc = Some fln \<Longrightarrow> layer_norm_shaped fln E"
    using sh by (simp_all add: encoder_shaped_def)
  have fin: "rel_res (agree B L L E R)
      (case enc_final_ln enc of None \<Rightarrow> Inr y | Some fln \<Rightarrow> LayerNorm_forward fln y)
      (case enc_final_ln enc of None \<Rightarrow> Inr y' | Some fln \<Rightarrow> LayerNorm_forward fln y')"
    if "agree B L L E R y y'" for y y'
    using that fl by (cases "enc_final_ln enc") (simp_all add: agree_layer_norm)
  show ?thesis
    unfolding Encoder_forward_def
    by (rule rel_res_bind [OF encoder_loop_agree [OF ls p cl a]]) (rule fin)
qed

subsection \<open>Decoder\<close>

lemma DecoderLayer_agree:
  assumes sh: "decoder_layer_shaped l E dff" and p: "pad_mask_shaped msk B Ls"
    and cl: "\<forall>b l kk. R b l \<longrightarrow> kk \<le> l \<longrightarrow> R b kk"
    and clm: "\<forall>b l kk. R b l \<longrightarrow> kk < Ls \<longrightarrow> \<not> padded msk b kk \<longrightarrow> Rm b kk"
    and a: "agree B L L' E R x x'" and mm: "agree B Ls Ls E Rm mem mem'"
  shows "rel_res (agree B L L' E R)
           (DecoderLayer_forward l tr rng x mem (unsqueeze (create_causal_mask L) 0) msk)
           (DecoderLayer_forward l tr rng x' mem' (unsqueeze (create_causal_mask L') 0) msk)"
proof -
  have f: "ff_shaped (dec_ff l) E dff" and m: "mha_shaped (dec_mha l) E"
    and m2: "mha_shaped (dec_mmha l) E"
    and n1: "layer_norm_shaped (dec_ln1 l) E" and n2: "layer_norm_shaped (dec_ln2 l) E"
    and n3: "layer_norm_shaped (dec_ln3 l) E"
    using sh by (simp_all add: decoder_layer_shaped_def)
  note self = self_attention_causal [OF m2 cl]
  have cross: "rel_res (agree B L L' E R)
           (MultiHeadAttention_forward (dec_mha l) tr keep y mem mem msk)
           (MultiHeadAttention_forward (dec_mha l) tr keep y' mem' mem' msk)"
    if "agree B L L' E R y y'" for y y' keep
    by (rule cross_attention [OF m p clm that mm])
  show ?thesis
  proof (cases "dec_post_ln l")
    case True
    show ?thesis
      unfolding DecoderLayer_forward_def using True
      by (simp only: if_True)
         ((rule rel_res_bind | rule self | rule cross | rule agree_add_dropout
           | rule agree_layer_norm [OF n1] | rule agree_layer_norm [OF n2]
           | rule agree_layer_norm [OF n3] | rule agree_ff [OF f] | rule a | assumption)+)
  next
    case False
    show ?thesis
      unfolding DecoderLayer_forward_def using False
      by (simp only: if_False)
         ((rule rel_res_bind | rule self | rule cross | rule agree_add_dropout
           | rule agree_layer_norm [OF n1] | rule agree_layer_norm [OF n2]
           | rule agree_layer_norm [OF n3] | rule agree_ff [OF f] | rule a | assumption)+)
  qed
qed

lemma decoder_loop_agree:
  assumes sh: "list_all (\<lambda>l. decoder_layer_shaped l E dff) ls" and p: "pad_mask_shaped msk B Ls"
    and cl: "\<forall>b l kk. R b l \<longrightarrow> kk \<le> l \<longrightarrow> R b kk"
    and clm: "\<forall>b l kk. R b l \<longrightarrow> kk < Ls \<longrightarrow> \<not> padded msk b kk \<longrightarrow> Rm b kk"
    and a: "agree B L L' E R x x'" and mm: "agree B Ls Ls E Rm mem mem'"
  shows "rel_res (agree B L L' E R)
           (decoder_loop ls i tr rng x mem (unsqueeze (create_causal_mask L) 0) msk)
           (decoder_loop ls i tr rng x' mem' (unsqueeze (create_causal_mask L') 0) msk)"
  using sh a
proof (induction ls arbitrary: i x x')
  case Nil
  then show ?case by simp
next
  case (Cons l ls)
  from Cons.prems have l: "decoder_layer_shaped l E dff"
    and ls: "list_all (\<lambda>l. decoder_layer_shaped l E dff) ls" by simp_all
  show ?case
    unfolding decoder_loop.simps
    by (rule rel_res_bind [OF DecoderLayer_agree [OF l p cl clm Cons.prems(2) mm]])
       (rule Cons.IH [OF ls])
qed

lemma Decoder_forward_agree:
  assumes sh: "decoder_shaped dec E dff" and p: "pad_mask_shaped msk B Ls"
    and cl: "\<forall>b l kk. R b l \<longrightarrow> kk \<le> l \<longrightarrow> R b kk"
    and clm: "\<forall>b l kk. R b l \<longrightarrow> kk < Ls \<longrightarrow> \<not> padded msk b kk \<longrightarrow> Rm b kk"
    and a: "agree B L L' E R x x'" and mm: "agree B Ls Ls E Rm mem mem'"
  shows "rel_res (agree B L L' E R)
           (Decoder_forward dec tr rng x mem msk) (Decoder_forward dec tr rng x' mem' msk)"
proof -
  note x = agreeD [OF a]
  have ls: "list_all (\<lambda>l. decoder_layer_shaped l E dff) (decoder_layers dec)"
    and fl: "\<And>fln. dec_final_ln dec = Some fln \<Longrightarrow> layer_norm_shaped fln E"
    using sh by (simp_all add: decoder_shaped_def)
  have sz: "size_dim x 1 = Inr L" "size_dim x' 1 = Inr L'"
    using x by (simp_all add: size_dim_def)
  have fin: "rel_res (agree B L L' E R)
      (case dec_final_ln dec of None \<Rightarrow> Inr y | Some fln \<Rightarrow> LayerNorm_forward fln y)
      (case dec_final_ln dec of None \<Rightarrow> Inr y' | Some fln \<Rightarrow> LayerNorm_forward fln y')"
    if "agree B L L' E R y y'" for y y'
    using that fl by (cases "dec_final_ln dec") (simp_all add: agree_layer_norm)
  show ?thesis
    unfolding Decoder_forward_def sz ebind_Inr Let_def
    by (rule rel_res_bind [OF decoder_loop_agree [OF ls p cl clm a mm]]) (rule fin)
qed

subsection \<open>encode, decode and forward\<close>

lemma embed_agree:
  assumes ws: "well_shaped m"
    and i: "ids_valid ids B L (vocab_size (config m))"
    and i': "ids_valid ids' B L' (vocab_size (config m))"
    and len: "L \<le> max_len (config m) \<or> max_len (config m) = 1"
    and len': "L' \<le> max_len (config m) \<or> max_len (config m) = 1"
    and eq: "\<forall>b l. b < B \<longrightarrow> l < L \<longrightarrow> l < L' \<longrightarrow> R b l \<longrightarrow> elem ids [b, l] = elem ids' [b, l]"
  shows "rel_res (agree B L L' (embed_size (config m)) R)
     (ebind (scaled_embeddings m ids) (\<lambda>embed.
      ebind (size_dim ids 1) (\<lambda>n.
      ebind (inplace2 (+) embed (slice_rows (pos_enc m) n)) (\<lambda>embed.
      Inr (dropout (dropout_p m) (training m) keep embed)))))
     (ebind (scaled_embeddings m ids') (\<lambda>embed.
      ebind (size_dim ids' 1) (\<lambda>n.
      ebind (inplace2 (+) embed (slice_rows (pos_enc m) n)) (\<lambda>embed.
      Inr (dropout (dropout_p m) (training m) keep embed)))))"
proof -
  let ?E = "embed_size (config m)" and ?P = "max_len (config m)"
  let ?W = "storage m (embeddings_weight m)"
  have p: "shape (pos_enc m) = [?P, ?E]"
    using ws by (simp add: well_shaped_def Let_def)
  from scaled_embeddings_ok [OF ws i] obtain t where t: "scaled_embeddings m ids = Inr t"
    "shape t = [B, L, ?E]"
    "\<And>b l e. elem t [b, l, e] = elem ?W [nat (elem ids [b, l]), e] * sqrt (real ?E)" by blast
  from scaled_embeddings_ok [OF ws i'] obtain t' where t': "scaled_embeddings m ids' = Inr t'"
    "shape t' = [B, L', ?E]"
    "\<And>b l e. elem t' [b, l, e] = elem ?W [nat (elem ids' [b, l]), e] * sqrt (real ?E)" by blast
  from add_positions_ok [OF t(2) p len] obtain y where y: "inplace2 (+) t (slice_rows (pos_enc m) L) = Inr y"
    "shape y = [B, L, ?E]"
    "\<And>b l e. l < L \<Longrightarrow> e < ?E \<Longrightarrow>
        elem y [b, l, e] = elem t [b, l, e] + elem (pos_enc m) [if L \<le> ?P then l else 0, e]" by blast
  from add_positions_ok [OF t'(2) p len'] obtain y' where y': "inplace2 (+) t' (slice_rows (pos_enc m) L') = Inr y'"
    "shape y' = [B, L', ?E]"
    "\<And>b l e. l < L' \<Longrightarrow> e < ?E \<Longrightarrow>
        elem y' [b, l, e] = elem t' [b, l, e] + elem (pos_enc m) [if L' \<le> ?P then l else 0, e]" by blast
  have sz: "size_dim ids 1 = Inr L" "size_dim ids' 1 = Inr L'"
    using i i' by (simp_all add: ids_valid_def size_dim_def)
  have row: "(if L \<le> ?P then l else 0) = (if L' \<le> ?P then l else 0)" if "l < L" "l < L'" for l
    using that len len' by auto
  have "agree B L L' ?E R y y'"
  proof (rule agreeI [OF y(2) y'(2)])
    fix b l e
    assume "b < B" "l < L" "l < L'" "R b l" "e < ?E"
    then show "elem y [b, l, e] = elem y' [b, l, e]"
      using eq by (simp add: y(3) y'(3) t(3) t'(3) row)
  qed
  then have "agree B L L' ?E R (dropout (dropout_p m) (training m) keep y)
                                 (dropout (dropout_p m) (training m) keep y')"
    by (rule agree_dropout)
  then show ?thesis
    by (simp del: One_nat_def add: t(1) t'(1) sz y(1) y'(1))
qed

lemma padded_unsqueeze:
  "padded (map_option (\<lambda>mk. unsqueeze mk 1) msk) b l \<longleftrightarrow> \<not> src_visible msk b l"
  by (cases msk) (simp_all add: padded_def src_visible_def unsqueeze_def)

lemma pad_mask_shaped_unsqueeze:
  "src_mask_shaped msk B Ls \<Longrightarrow> pad_mask_shaped (map_option (\<lambda>mk. unsqueeze mk 1) msk) B Ls"
  by (cases msk) (simp_all add: pad_mask_shaped_def src_mask_shaped_def unsqueeze_def)

lemma encode_mask_stage:
  "src_mask_shaped msk B Ls \<Longrightarrow>
   (case msk of None \<Rightarrow> Inr None
    | Some mk \<Rightarrow> if shape mk = [] then Inl IndexError else Inr (Some (unsqueeze mk 1)))
   = (Inr (map_option (\<lambda>mk. unsqueeze mk 1) msk) :: error + 'm tensor option)"
  by (cases msk) (simp_all add: src_mask_shaped_def)

lemma encode_agree:
  assumes ws: "well_shaped m"
    and i: "ids_valid src B Ls (vocab_size (config m))"
    and i': "ids_valid src' B Ls (vocab_size (config m))"
    and len: "Ls \<le> max_len (config m) \<or> max_len (config m) = 1"
    and ms: "src_mask_shaped msk B Ls"
    and eq: "\<forall>b l. b < B \<longrightarrow> l < Ls \<longrightarrow> src_visible msk b l \<longrightarrow> elem src [b, l] = elem src' [b, l]"
  shows "rel_res (\<lambda>r r'. agree B Ls Ls (embed_size (config m)) (src_visible msk) (fst r) (fst r') \<and>
                         snd r = map_option (\<lambda>mk. unsqueeze mk 1) msk \<and> snd r' = snd r)
           (encode m rng src msk) (encode m rng src' msk)"
proof -
  let ?E = "embed_size (config m)"
  let ?msk = "map_option (\<lambda>mk. unsqueeze mk 1) msk"
  have es: "encoder_shaped (encoder m) ?E (d_ff (config m))"
    using ws by (simp add: well_shaped_def Let_def)
  have eq': "\<forall>b l. b < B \<longrightarrow> l < Ls \<longrightarrow> l < Ls \<longrightarrow> src_visible msk b l \<longrightarrow> elem src [b, l] = elem src' [b, l]"
    using eq by simp
  have cl: "\<forall>b l kk. src_visible msk b l \<longrightarrow> kk < Ls \<longrightarrow> \<not> padded ?msk b kk \<longrightarrow> src_visible msk b kk"
    by (simp del: One_nat_def add: padded_unsqueeze)
  note emb = embed_agree [OF ws i i' len len eq', of "rng [0]"]
  have enc: "rel_res (agree B Ls Ls ?E (src_visible msk))
        (Encoder_forward (encoder m) (training m) (sub rng 1) y ?msk)
        (Encoder_forward (encoder m) (training m) (sub rng 1) y' ?msk)"
    if "agree B Ls Ls ?E (src_visible msk) y y'" for y y'
    by (rule Encoder_forward_agree [OF es pad_mask_shaped_unsqueeze [OF ms] cl that])
  from emb obtain y y' where y: "ebind (scaled_embeddings m src) (\<lambda>embed.
      ebind (size_dim src 1) (\<lambda>n.
      ebind (inplace2 (+) embed (slice_rows (pos_enc m) n)) (\<lambda>embed.
      Inr (dropout (dropout_p m) (training m) (rng [0]) embed)))) = Inr y"
    and y': "ebind (scaled_embeddings m src') (\<lambda>embed.
      ebind (size_dim src' 1) (\<lambda>n.
      ebind (inplace2 (+) embed (slice_rows (pos_enc m) n)) (\<lambda>embed.
      Inr (dropout (dropout_p m) (training m) (rng [0]) embed)))) = Inr y'"
    and yy: "agree B Ls Ls ?E (src_visible msk) y y'"
    by (auto simp add: rel_res_def)
  from enc [OF yy] obtain mem mem' where
    mem: "Encoder_forward (encoder m) (training m) (sub rng 1) y ?msk = Inr mem"
    and mem': "Encoder_forward (encoder m) (training m) (sub rng 1) y' ?msk = Inr mem'"
    and mm: "agree B Ls Ls ?E (src_visible msk) mem mem'"
    by (auto simp add: rel_res_def)
  have "encode m rng src msk = Inr (mem, ?msk)"
    using y mem unfolding encode_def encode_mask_stage [OF ms]
    by (auto simp add: ebind_def Let_def split: sum.splits)
  moreover have "encode m rng src' msk = Inr (mem', ?msk)"
    using y' mem' unfolding encode_def encode_mask_stage [OF ms]
    by (auto simp add: ebind_def Let_def split: sum.splits)
  ultimately show ?thesis using mm by simp
qed

lemma fc_forward_agree:
  assumes ws: "well_shaped m" and a: "agree B L L' (embed_size (config m)) R x x'"
  shows "rel_res (agree B L L' (vocab_size (config m)) R) (fc_forward m x) (fc_forward m x')"
proof -
  let ?l = "\<lparr>lin_weight = storage m (fc_weight m), lin_bias = fc_bias m\<rparr>"
  have l: "linear_shaped ?l (embed_size (config m)) (vocab_size (config m))"
    using ws by (simp add: well_shaped_def Let_def linear_shaped_def)
  have "fc_forward m y = Linear_forward ?l y" for y
    by (simp add: fc_forward_def Linear_forward_def)
  then show ?thesis using agree_linear [OF l a] by simp
qed

lemma decode_agree:
  assumes ws: "well_shaped m"
    and i: "ids_valid tgt B L (vocab_size (config m))"
    and i': "ids_valid tgt' B L' (vocab_size (config m))"
    and len: "L \<le> max_len (config m) \<or> max_len (config m) = 1"
    and len': "L' \<le> max_len (config m) \<or> max_len (config m) = 1"
    and p: "pad_mask_shaped msk B Ls"
    and cl: "\<forall>b l kk. R b l \<longrightarrow> kk \<le> l \<longrightarrow> R b kk"
    and clm: "\<forall>b l kk. R b l \<longrightarrow> kk < Ls \<longrightarrow> \<not> padded msk b kk \<longrightarrow> Rm b kk"
    and eq: "\<forall>b l. b < B \<longrightarrow> l < L \<longrightarrow> l < L' \<longrightarrow> R b l \<longrightarrow> elem tgt [b, l] = elem tgt' [b, l]"
    and mm: "agree B Ls Ls (embed_size (config m)) Rm mem mem'"
  shows "rel_res (agree B L L' (vocab_size (config m)) R)
           (decode m rng mem tgt msk) (decode m rng mem' tgt' msk)"
proof -
  let ?E = "embed_size (config m)"
  have ds: "decoder_shaped (decoder m) ?E (d_ff (config m))"
    using ws by (simp add: well_shaped_def Let_def)
  from embed_agree [OF ws i i' len len' eq, of "rng [2]"]
  obtain y y' where y: "ebind (scaled_embeddings m tgt) (\<lambda>embed.
      ebind (size_dim tgt 1) (\<lambda>n.
      ebind (inplace2 (+) embed (slice_rows (pos_enc m) n)) (\<lambda>embed.
      Inr (dropout (dropout_p m) (training m) (rng [2]) embed)))) = Inr y"
    and y': "ebind (scaled_embeddings m tgt') (\<lambda>embed.
      ebind (size_dim tgt' 1) (\<lambda>n.
      ebind (inplace2 (+) embed (slice_rows (pos_enc m) n)) (\<lambda>embed.
      Inr (dropout (dropout_p m) (training m) (rng [2]) embed)))) = Inr y'"
    and yy: "agree B L L' ?E R y y'"
    by (auto simp add: rel_res_def)
  have rest: "rel_res (agree B L L' (vocab_size (config m)) R)
      (ebind (Decoder_forward (decoder m) (training m) (sub rng 3) y mem msk) (fc_forward m))
      (ebind (Decoder_forward (decoder m) (training m) (sub rng 3) y' mem' msk) (fc_forward m))"
    by (rule rel_res_bind [OF Decoder_forward_agree [OF ds p cl clm yy mm]])
       (rule fc_forward_agree [OF ws])
  have "decode m rng mem tgt msk =
        ebind (Decoder_forward (decoder m) (training m) (sub rng 3) y mem msk) (fc_forward m)"
    using y unfolding decode_def
    by (auto simp add: ebind_def Let_def split: sum.splits)
  moreover have "decode m rng mem' tgt' msk =
        ebind (Decoder_forward (decoder m) (training m) (sub rng 3) y' mem' msk) (fc_forward m)"
    using y' unfolding decode_def
    by (auto simp add: ebind_def Let_def split: sum.splits)
  ultimately show ?thesis using rest by simp
qed

lemma forward_agree:
  assumes ws: "well_shaped m"
    and s: "ids_valid src B Ls (vocab_size (config m))"
    and s': "ids_valid src' B Ls (vocab_size (config m))"
    and slen: "Ls \<le> max_len (config m) \<or> max_len (config m) = 1"
    and ms: "src_mask_shaped msk B Ls"
    and seq: "\<forall>b l. b < B \<longrightarrow> l < Ls \<longrightarrow> src_visible msk b l \<longrightarrow> elem src [b, l] = elem src' [b, l]"
    and i: "ids_valid tgt B L (vocab_size (config m))"
    and i': "ids_valid tgt' B L' (vocab_size (config m))"
    and len: "L \<le> max_len (config m) \<or> max_len (config m) = 1"
    and len': "L' \<le> max_len (config m) \<or> max_len (config m) = 1"
    and cl: "\<forall>b l kk. R b l \<longrightarrow> kk \<le> l \<longrightarrow> R b kk"
    and eq: "\<forall>b l. b < B \<longrightarrow> l < L \<longrightarrow> l < L' \<longrightarrow> R b l \<longrightarrow> elem tgt [b, l] = elem tgt' [b, l]"
  shows "rel_res (agree B L L' (vocab_size (config m)) R)
           (forward m rng src tgt msk) (forward m rng src' tgt' msk)"
proof -
  let ?msk = "map_option (\<lambda>mk. unsqueeze mk 1) msk"
  have clm: "\<forall>b l kk. R b l \<longrightarrow> kk < Ls \<longrightarrow> \<not> padded ?msk b kk \<longrightarrow> src_visible msk b kk"
    by (simp del: One_nat_def add: padded_unsqueeze)
  show ?thesis
    unfolding forward_def
  proof (rule rel_res_bind [OF encode_agree [OF ws s s' slen ms seq]])
    fix r r' :: "real tensor \<times> 'a tensor option"
    assume "agree B Ls Ls (embed_size (config m)) (src_visible msk) (fst r) (fst r') \<and>
            snd r = ?msk \<and> snd r' = snd r"
    then have mm: "agree B Ls Ls (embed_size (config m)) (src_visible msk) (fst r) (fst r')"
      and sr: "snd r = ?msk" "snd r' = ?msk" by simp_all
    from decode_agree [OF ws i i' len len' pad_mask_shaped_unsqueeze [OF ms] cl clm eq mm]
    show "rel_res (agree B L L' (vocab_size (config m)) R)
        (case r of (memory, src_mask) \<Rightarrow> decode m rng memory tgt src_mask)
        (case r' of (memory, src_mask) \<Rightarrow> decode m rng memory tgt' src_mask)"
      using sr by (simp add: case_prod_beta)
  qed
qed

section \<open>Head counts that do not divide the embedding size\<close>

lemma Transformer_init_fails_early:
  assumes "isl (positional_encoding (max_len cfg) (embed_size cfg)) \<or>
     isl (Encoder_init (sub rng 0) (n_encoder_layers cfg) (n_encoder_heads cfg) (embed_size cfg)
            (d_ff cfg) (post_ln cfg) (use_additional_dropout cfg)) \<or>
     isl (Decoder_init (sub rng 1) (n_decoder_layers cfg) (n_decoder_heads cfg) (embed_size cfg)
            (d_ff cfg) (post_ln cfg) (use_additional_dropout cfg))"
  shows "isl (Transformer_init cfg rng)"
proof (rule ccontr)
  assume "\<not> isl (Transformer_init cfg rng)"
  then obtain m where "Transformer_init cfg rng = Inr m"
    by (cases "Transformer_init cfg rng") simp_all
  then obtain pe enc dec where
    "positional_encoding (max_len cfg) (embed_size cfg) = Inr pe"
    "Encoder_init (sub rng 0) (n_encoder_layers cfg) (n_encoder_heads cfg) (embed_size cfg)
       (d_ff cfg) (post_ln cfg) (use_additional_dropout cfg) = Inr enc"
    "Decoder_init (sub rng 1) (n_decoder_layers cfg) (n_decoder_heads cfg) (embed_size cfg)
       (d_ff cfg) (post_ln cfg) (use_additional_dropout cfg) = Inr dec"
    by (rule Transformer_init_Inr)
  with assms show False by simp
qed

text \<open>
  Construction can fail for another reason than a head count: with Xavier initialisation
  and \<open>embed_size = 0\<close>, the query weights of the first encoder layer are a (0, 0)
  matrix, whose fans add up to 0.
\<close>

lemma Transformer_init_xavier_zero:
  assumes x: "xavier_initialization cfg" and z: "embed_size cfg = 0"
    and n: "0 < n_encoder_layers cfg" and he: "n_encoder_heads cfg \<noteq> 0"
    and hd: "n_decoder_layers cfg = 0 \<or> n_decoder_heads cfg \<noteq> 0"
  shows "Transformer_init cfg rng = Inl ZeroDivisionError"
proof -
  have pe: "even (embed_size cfg) \<or> embed_size cfg = 1" using z by simp
  from positional_encoding_ok [OF pe, of "max_len cfg"]
  obtain t where t: "positional_encoding (max_len cfg) (embed_size cfg) = Inr t" by blast
  have "n_encoder_layers cfg = 0 \<or>
      (n_encoder_heads cfg \<noteq> 0 \<and> embed_size cfg mod n_encoder_heads cfg = 0)"
    using he z by simp
  from Encoder_init_ok [OF this, of "sub rng 0" "d_ff cfg" "post_ln cfg" "use_additional_dropout cfg"]
  obtain e where e: "Encoder_init (sub rng 0) (n_encoder_layers cfg) (n_encoder_heads cfg)
       (embed_size cfg) (d_ff cfg) (post_ln cfg) (use_additional_dropout cfg) = Inr e"
    and es: "encoder_shaped e (embed_size cfg) (d_ff cfg)"
    and el: "length (encoder_layers e) = n_encoder_layers cfg" by (elim exE conjE)
  have "n_decoder_layers cfg = 0 \<or>
      (n_decoder_heads cfg \<noteq> 0 \<and> embed_size cfg mod n_decoder_heads cfg = 0)"
    using hd z by simp
  from Decoder_init_ok [OF this, of "sub rng 1" "d_ff cfg" "post_ln cfg" "use_additional_dropout cfg"]
  obtain d where d: "Decoder_init (sub rng 1) (n_decoder_layers cfg) (n_decoder_heads cfg)
       (embed_size cfg) (d_ff cfg) (post_ln cfg) (use_additional_dropout cfg) = Inr d"
    by (elim exE conjE)
  from el n obtain l ls where ls: "encoder_layers e = l # ls" by (cases "encoder_layers e") auto
  with es z have "encoder_layer_shaped l 0 (d_ff cfg)" by (simp add: encoder_shaped_def)
  from init_encoder_layer_fails [OF this]
  have f: "init_layers init_encoder_layer r 0 (encoder_layers e) = Inl ZeroDivisionError" for r
    by (simp add: ls)
  show ?thesis
    using x t e d by (cases "tie_embeddings cfg") (simp_all add: Transformer_init_def Let_def init_params_def f)
qed

text \<open>
  Claim C8, as amended. A head count is checked where a layer is built, by the
  \<open>assert\<close> of \<open>MultiHeadAttention.__init__\<close>. So constructing a Transformer raises,
  and returns no model, when the encoder has at least one layer and \<open>embed_size\<close> is not
  evenly divisible by \<open>n_encoder_heads\<close> (a head count of 0 included, where \<open>%\<close> itself
  raises), and likewise for the decoder. When both head counts divide \<open>embed_size\<close>,
  construction succeeds on that account: every attention module, and with it the encoder
  and the decoder, is built.
\<close>

theorem Transformer_init_head_counts:
  "((0 < n_encoder_layers cfg \<and>
       (n_encoder_heads cfg = 0 \<or> embed_size cfg mod n_encoder_heads cfg \<noteq> 0)) \<or>
    (0 < n_decoder_layers cfg \<and>
       (n_decoder_heads cfg = 0 \<or> embed_size cfg mod n_decoder_heads cfg \<noteq> 0))
    \<longrightarrow> isl (Transformer_init cfg rng)) \<and>
   (n_encoder_heads cfg \<noteq> 0 \<and> embed_size cfg mod n_encoder_heads cfg = 0 \<and>
    n_decoder_heads cfg \<noteq> 0 \<and> embed_size cfg mod n_decoder_heads cfg = 0
    \<longrightarrow> \<not> isl (MultiHeadAttention_init rng' (n_encoder_heads cfg) (embed_size cfg)
                  (use_additional_dropout cfg)) \<and>
        \<not> isl (MultiHeadAttention_init rng' (n_decoder_heads cfg) (embed_size cfg)
                  (use_additional_dropout cfg)) \<and>
        \<not> isl (Encoder_init (sub rng 0) (n_encoder_layers cfg) (n_encoder_heads cfg)
                  (embed_size cfg) (d_ff cfg) (post_ln cfg) (use_additional_dropout cfg)) \<and>
        \<not> isl (Decoder_init (sub rng 1) (n_decoder_layers cfg) (n_decoder_heads cfg)
                  (embed_size cfg) (d_ff cfg) (post_ln cfg) (use_additional_dropout cfg)))"
proof (intro conjI impI)
  assume "(0 < n_encoder_layers cfg \<and>
       (n_encoder_heads cfg = 0 \<or> embed_size cfg mod n_encoder_heads cfg \<noteq> 0)) \<or>
    (0 < n_decoder_layers cfg \<and>
       (n_decoder_heads cfg = 0 \<or> embed_size cfg mod n_decoder_heads cfg \<noteq> 0))"
  then consider
      (enc) "0 < n_encoder_layers cfg"
        "n_encoder_heads cfg = 0 \<or> embed_size cfg mod n_encoder_heads cfg \<noteq> 0"
    | (dec) "0 < n_decoder_layers cfg"
        "n_decoder_heads cfg = 0 \<or> embed_size cfg mod n_decoder_heads cfg \<noteq> 0"
    by fastforce
  then show "isl (Transformer_init cfg rng)"
  proof cases
    case enc
    have "isl (Encoder_init (sub rng 0) (n_encoder_layers cfg) (n_encoder_heads cfg)
            (embed_size cfg) (d_ff cfg) (post_ln cfg) (use_additional_dropout cfg))"
      by (rule Encoder_init_fails [OF enc])
    then show ?thesis by (intro Transformer_init_fails_early disjI2 disjI1)
  next
    case dec
    have "isl (Decoder_init (sub rng 1) (n_decoder_layers cfg) (n_decoder_heads cfg)
            (embed_size cfg) (d_ff cfg) (post_ln cfg) (use_additional_dropout cfg))"
      by (rule Decoder_init_fails [OF dec])
    then show ?thesis by (intro Transformer_init_fails_early disjI2)
  qed
next
  assume a: "n_encoder_heads cfg \<noteq> 0 \<and> embed_size cfg mod n_encoder_heads cfg = 0 \<and>
    n_decoder_heads cfg \<noteq> 0 \<and> embed_size cfg mod n_decoder_heads cfg = 0"
  then have e: "n_encoder_heads cfg \<noteq> 0" "embed_size cfg mod n_encoder_heads cfg = 0"
    and d: "n_decoder_heads cfg \<noteq> 0" "embed_size cfg mod n_decoder_heads cfg = 0"
    by simp_all
  from MultiHeadAttention_init_ok [OF e, of rng' "use_additional_dropout cfg"]
  show "\<not> isl (MultiHeadAttention_init rng' (n_encoder_heads cfg) (embed_size cfg)
                  (use_additional_dropout cfg))"
    by (elim exE conjE) simp
  from MultiHeadAttention_init_ok [OF d, of rng' "use_additional_dropout cfg"]
  show "\<not> isl (MultiHeadAttention_init rng' (n_decoder_heads cfg) (embed_size cfg)
                  (use_additional_dropout cfg))"
    by (elim exE conjE) simp
  show "\<not> isl (Encoder_init (sub rng 0) (n_encoder_layers cfg) (n_encoder_heads cfg)
            (embed_size cfg) (d_ff cfg) (post_ln cfg) (use_additional_dropout cfg))"
  proof -
    from e have "n_encoder_layers cfg = 0 \<or>
        (n_encoder_heads cfg \<noteq> 0 \<and> embed_size cfg mod n_encoder_heads cfg = 0)" by simp
    from Encoder_init_ok [OF this, of "sub rng 0" "d_ff cfg" "post_ln cfg"
        "use_additional_dropout cfg"]
    show ?thesis by (elim exE conjE) simp
  qed
  show "\<not> isl (Decoder_init (sub rng 1) (n_decoder_layers cfg) (n_decoder_heads cfg)
            (embed_size cfg) (d_ff cfg) (post_ln cfg) (use_additional_dropout cfg))"
  proof -
    from d have "n_decoder_layers cfg = 0 \<or>
        (n_decoder_heads cfg \<noteq> 0 \<and> embed_size cfg mod n_decoder_heads cfg = 0)" by simp
    from Decoder_init_ok [OF this, of "sub rng 1" "d_ff cfg" "post_ln cfg"
        "use_additional_dropout cfg"]
    show ?thesis by (elim exE conjE) simp
  qed
qed

theorem Transformer_init_head_counts_witness:
  "isl (Transformer_init (example_config\<lparr>n_encoder_heads := 3\<rparr>) zero_draws) \<and>
   isl (Transformer_init (example_config\<lparr>n_decoder_heads := 0\<rparr>) zero_draws) \<and>
   \<not> isl (Encoder_init (sub zero_draws 0) 1 2 4 8 True False) \<and>
   \<not> isl (Decoder_init (sub zero_draws 1) 1 2 4 8 True False)"
proof -
  let ?c1 = "example_config\<lparr>n_encoder_heads := 3\<rparr>"
  let ?c2 = "example_config\<lparr>n_decoder_heads := 0\<rparr>"
  have p1: "(0 < n_encoder_layers ?c1 \<and>
       (n_encoder_heads ?c1 = 0 \<or> embed_size ?c1 mod n_encoder_heads ?c1 \<noteq> 0)) \<or>
    (0 < n_decoder_layers ?c1 \<and>
       (n_decoder_heads ?c1 = 0 \<or> embed_size ?c1 mod n_decoder_heads ?c1 \<noteq> 0))"
    by (simp add: example_config_def)
  have p2: "(0 < n_encoder_layers ?c2 \<and>
       (n_encoder_heads ?c2 = 0 \<or> embed_size ?c2 mod n_encoder_heads ?c2 \<noteq> 0)) \<or>
    (0 < n_decoder_layers ?c2 \<and>
       (n_decoder_heads ?c2 = 0 \<or> embed_size ?c2 mod n_decoder_heads ?c2 \<noteq> 0))"
    by (simp add: example_config_def)
  have p3: "n_encoder_heads example_config \<noteq> 0 \<and>
      embed_size example_config mod n_encoder_heads example_config = 0 \<and>
      n_decoder_heads example_config \<noteq> 0 \<and>
      embed_size example_config mod n_decoder_heads example_config = 0"
    by (simp add: example_config_def)
  have "isl (Transformer_init ?c1 zero_draws)"
    using Transformer_init_head_counts [of ?c1 zero_draws, THEN conjunct1] p1 by (rule mp)
  moreover have "isl (Transformer_init ?c2 zero_draws)"
    using Transformer_init_head_counts [of ?c2 zero_draws, THEN conjunct1] p2 by (rule mp)
  moreover have "\<not> isl (Encoder_init (sub zero_draws 0) 1 2 4 8 True False) \<and>
      \<not> isl (Decoder_init (sub zero_draws 1) 1 2 4 8 True False)"
    using Transformer_init_head_counts [of example_config zero_draws zero_draws,
        THEN conjunct2, THEN mp, OF p3]
    by (simp add: example_config_def)
  ultimately show ?thesis by simp
qed

text \<open>
  The claim as first stated fails for a stack without layers: no attention module is
  built, so nothing checks its head count. Here the encoder has no layer and 3 heads,
  and 3 does not divide the embedding size 4; construction returns a model.
\<close>

theorem Transformer_init_no_layers:
  "embed_size (example_config\<lparr>n_encoder_layers := 0, n_encoder_heads := 3\<rparr>)
     mod n_encoder_heads (example_config\<lparr>n_encoder_layers := 0, n_encoder_heads := 3\<rparr>) = 1 \<and>
   \<not> isl (Transformer_init (example_config\<lparr>n_encoder_layers := 0, n_encoder_heads := 3\<rparr>)
            zero_draws)"
proof -
  let ?cfg = "example_config\<lparr>n_encoder_layers := 0, n_encoder_heads := 3\<rparr>"
  have "\<exists>m. Transformer_init ?cfg zero_draws = Inr m \<and> well_shaped m \<and> config m = ?cfg \<and>
           training m \<and> fc_weight m = 1 \<and>
           embeddings_weight m = (if tie_embeddings ?cfg then 1 else 0)"
    by (rule Transformer_init_ok) (simp_all add: example_config_def)
  then have "\<not> isl (Transformer_init ?cfg zero_draws)" by (elim exE conjE) simp
  moreover have "embed_size ?cfg mod n_encoder_heads ?cfg = 1"
    by (simp add: example_config_def)
  ultimately show ?thesis by simp
qed

section \<open>Sequences longer than the positional table\<close>

lemma rel_res_success: "rel_res P r r' \<Longrightarrow> \<not> isl r"
  by (auto simp add: rel_res_def)

lemma encode_returns:
  assumes "well_shaped m" "ids_valid src B Ls (vocab_size (config m))"
    "Ls \<le> max_len (config m) \<or> max_len (config m) = 1" "src_mask_shaped msk B Ls"
  shows "\<not> isl (encode m rng src msk)"
  by (rule rel_res_success, rule encode_agree [OF assms(1) assms(2) assms(2) assms(3) assms(4)]) simp

lemma example_model:
  assumes "even (embed_size cfg) \<or> embed_size cfg = 1"
    and "n_encoder_layers cfg = 0 \<or>
         (n_encoder_heads cfg \<noteq> 0 \<and> embed_size cfg mod n_encoder_heads cfg = 0)"
    and "n_decoder_layers cfg = 0 \<or>
         (n_decoder_heads cfg \<noteq> 0 \<and> embed_size cfg mod n_decoder_heads cfg = 0)"
    and "\<not> xavier_initialization cfg \<or> 0 < embed_size cfg"
  shows "Transformer_init cfg rng = Inr (projr (Transformer_init cfg rng))"
    and "well_shaped (projr (Transformer_init cfg rng))"
    and "config (projr (Transformer_init cfg rng)) = cfg"
    and "fc_weight (projr (Transformer_init cfg rng)) = 1"
    and "embeddings_weight (projr (Transformer_init cfg rng)) = (if tie_embeddings cfg then 1 else 0)"
proof -
  from Transformer_init_ok [OF assms, of rng]
  obtain m where m: "Transformer_init cfg rng = Inr m" "well_shaped m" "config m = cfg"
    "fc_weight m = 1" "embeddings_weight m = (if tie_embeddings cfg then 1 else 0)"
    by (elim exE conjE)
  show "Transformer_init cfg rng = Inr (projr (Transformer_init cfg rng))"
    and "well_shaped (projr (Transformer_init cfg rng))"
    and "config (projr (Transformer_init cfg rng)) = cfg"
    and "fc_weight (projr (Transformer_init cfg rng)) = 1"
    and "embeddings_weight (projr (Transformer_init cfg rng)) = (if tie_embeddings cfg then 1 else 0)"
    using m by simp_all
qed

lemma ids_valid_ids_of:
  assumes "rows \<noteq> []" "list_all (\<lambda>r. length r = L \<and> list_all (\<lambda>x. 0 \<le> x \<and> x < int V) r) rows"
    and B: "length rows = B"
  shows "ids_valid (ids_of rows) B L V"
proof -
  have "length (hd rows) = L" using assms by (cases rows) simp_all
  moreover have "0 \<le> rows ! b ! l \<and> rows ! b ! l < int V" if "b < length rows" "l < L" for b l
  proof -
    have "rows ! b \<in> set rows" using that by simp
    with assms(2) have "length (rows ! b) = L" "list_all (\<lambda>x. 0 \<le> x \<and> x < int V) (rows ! b)"
      by (simp_all add: list_all_iff)
    then show ?thesis using that by (simp add: list_all_length)
  qed
  ultimately show ?thesis using B by (auto simp add: ids_valid_def ids_of_def)
qed

text \<open>
  Claim C9, as amended. The code has no length check of its own: a sequence longer than
  \<open>max_len\<close> fails where the rows of the positional table are added, because the
  \<open>max_len\<close> rows do not broadcast to the longer sequence. So \<open>encode\<close> with a source
  of length \<open>Ls > max_len\<close> and \<open>decode\<close> with a target of length \<open>Lt > max_len\<close>
  raise and return nothing, provided \<open>max_len \<noteq> 1\<close>. When \<open>max_len = 1\<close> the single
  row of the table broadcasts to every position, and \<open>encode\<close> returns for valid ids of
  any length.
\<close>

theorem too_long_sequences:
  "(well_shaped m \<and> shape src = [B, Ls] \<and> max_len (config m) < Ls \<and> max_len (config m) \<noteq> 1
      \<longrightarrow> isl (encode m rng src src_mask)) \<and>
   (well_shaped m \<and> shape tgt = [B, Lt] \<and> max_len (config m) < Lt \<and> max_len (config m) \<noteq> 1
      \<longrightarrow> isl (decode m rng memory tgt mem_mask)) \<and>
   (well_shaped m \<and> ids_valid src B Ls (vocab_size (config m)) \<and> src_mask_shaped src_mask B Ls \<and>
    max_len (config m) = 1
      \<longrightarrow> \<not> isl (encode m rng src src_mask))"
proof (intro conjI impI)
  assume "well_shaped m \<and> shape src = [B, Ls] \<and> max_len (config m) < Ls \<and> max_len (config m) \<noteq> 1"
  then show "isl (encode m rng src src_mask)"
    by (elim conjE) (rule encode_too_long)
next
  assume "well_shaped m \<and> shape tgt = [B, Lt] \<and> max_len (config m) < Lt \<and> max_len (config m) \<noteq> 1"
  then show "isl (decode m rng memory tgt mem_mask)"
    by (elim conjE) (rule decode_too_long)
next
  assume "well_shaped m \<and> ids_valid src B Ls (vocab_size (config m)) \<and>
    src_mask_shaped src_mask B Ls \<and> max_len (config m) = 1"
  then show "\<not> isl (encode m rng src src_mask)"
    by (elim conjE) (rule encode_returns, simp_all)
qed

theorem too_long_sequences_witness:
  "max_len (config (projr (Transformer_init (example_config\<lparr>max_len := 2\<rparr>) zero_draws))) < 3 \<and>
   isl (encode (projr (Transformer_init (example_config\<lparr>max_len := 2\<rparr>) zero_draws)) no_drops
          (ids_of [[1, 2, 3]]) (None :: real tensor option)) \<and>
   isl (decode (projr (Transformer_init (example_config\<lparr>max_len := 2\<rparr>) zero_draws)) no_drops
          (torch_ones [1, 2, 4]) (ids_of [[1, 2, 3]]) (None :: real tensor option))"
proof -
  let ?cfg = "example_config\<lparr>max_len := 2\<rparr>"
  let ?m = "projr (Transformer_init ?cfg zero_draws)"
  have m: "well_shaped ?m" "config ?m = ?cfg"
    by (rule example_model; simp add: example_config_def)+
  have s: "shape (ids_of [[1, 2, 3]]) = [1, 3]" by (simp add: ids_of_def)
  have l: "max_len (config ?m) < 3" "max_len (config ?m) \<noteq> 1"
    unfolding m(2) by (simp_all add: example_config_def)
  have "isl (encode ?m no_drops (ids_of [[1, 2, 3]]) (None :: real tensor option))"
    using too_long_sequences [of ?m "ids_of [[1, 2, 3]]" 1 3 no_drops None, THEN conjunct1]
      m(1) s l by simp
  moreover have "isl (decode ?m no_drops (torch_ones [1, 2, 4]) (ids_of [[1, 2, 3]])
      (None :: real tensor option))"
    using too_long_sequences [where m = ?m and tgt = "ids_of [[1, 2, 3]]" and B = 1 and Lt = 3
        and rng = no_drops and memory = "torch_ones [1, 2, 4]"
        and mem_mask = "None :: real tensor option", THEN conjunct2, THEN conjunct1]
      m(1) s l by simp
  ultimately show ?thesis using l(1) by simp
qed

text \<open>
  The claim as first stated fails at \<open>max_len = 1\<close>: with a positional table of one
  row, \<open>encode\<close> of a source of length 2 returns a result.
\<close>

theorem encode_beyond_max_len_one:
  "max_len (config (projr (Transformer_init (example_config\<lparr>max_len := 1\<rparr>) zero_draws))) = 1 \<and>
   shape (ids_of [[1, 2]]) = [1, 2] \<and>
   \<not> isl (encode (projr (Transformer_init (example_config\<lparr>max_len := 1\<rparr>) zero_draws)) no_drops
            (ids_of [[1, 2]]) (None :: real tensor option))"
proof -
  let ?cfg = "example_config\<lparr>max_len := 1\<rparr>"
  let ?m = "projr (Transformer_init ?cfg zero_draws)"
  have m: "well_shaped ?m" "config ?m = ?cfg"
    by (rule example_model; simp add: example_config_def)+
  have l: "max_len (config ?m) = 1" "vocab_size (config ?m) = 5"
    unfolding m(2) by (simp_all add: example_config_def)
  have "ids_valid (ids_of [[1, 2]]) 1 2 5"
    by (rule ids_valid_ids_of) simp_all
  then have i: "ids_valid (ids_of [[1, 2]]) 1 2 (vocab_size (config ?m))"
    using l by simp
  have "\<not> isl (encode ?m no_drops (ids_of [[1, 2]]) (None :: real tensor option))"
    by (rule encode_returns [OF m(1) i]) (use l in \<open>simp_all add: src_mask_shaped_def\<close>)
  then show ?thesis using l by (simp add: ids_of_def)
qed

section \<open>Scaling of the embeddings\<close>

text \<open>
  Claim C7. In \<open>encode\<close> and in \<open>decode\<close> the tensor to which the rows of the
  positional table are added is \<open>scaled_embeddings\<close> of the token ids, and each of its
  elements is the element of the raw embedding lookup (the row of the embedding matrix
  that the token id selects) times \<open>sqrt embed_size\<close>. A constructed model holds
  \<open>sqrt embed_size\<close> as its \<open>sqrt_dmodel\<close>.
\<close>

theorem scaled_embeddings_sqrt:
  "(Transformer_init cfg init = Inr m \<longrightarrow> well_shaped m \<and> config m = cfg) \<and>
   (well_shaped m \<and> ids_valid ids B L (vocab_size (config m)) \<longrightarrow>
      (\<exists>raw t. embeddings_forward m ids = Inr raw \<and> scaled_embeddings m ids = Inr t \<and>
         shape t = shape raw \<and>
         (\<forall>idx. elem t idx = elem raw idx * sqrt (real (embed_size (config m)))) \<and>
         (\<forall>b l e. elem raw [b, l, e] =
            elem (storage m (embeddings_weight m)) [nat (elem ids [b, l]), e]))) \<and>
   encode m rng src src_mask =
     ebind (case src_mask of
              None \<Rightarrow> Inr None
            | Some mk \<Rightarrow> if shape mk = [] then Inl IndexError else Inr (Some (unsqueeze mk 1)))
       (\<lambda>src_mask.
     ebind (scaled_embeddings m src) (\<lambda>src_embed.
     ebind (size_dim src 1) (\<lambda>n.
     ebind (inplace2 (+) src_embed (slice_rows (pos_enc m) n)) (\<lambda>src_embed.
     ebind (Encoder_forward (encoder m) (training m) (sub rng 1)
              (dropout (dropout_p m) (training m) (rng [0]) src_embed) src_mask) (\<lambda>memory.
     Inr (memory, src_mask)))))) \<and>
   decode m rng memory tgt mem_mask =
     ebind (scaled_embeddings m tgt) (\<lambda>tgt_embed.
     ebind (size_dim tgt 1) (\<lambda>n.
     ebind (inplace2 (+) tgt_embed (slice_rows (pos_enc m) n)) (\<lambda>tgt_embed.
     ebind (Decoder_forward (decoder m) (training m) (sub rng 3)
              (dropout (dropout_p m) (training m) (rng [2]) tgt_embed) memory mem_mask)
       (fc_forward m))))"
proof (intro conjI impI)
  assume "Transformer_init cfg init = Inr m"
  from Transformer_init_well_shaped [OF this]
  show "well_shaped m" "config m = cfg" by simp_all
next
  assume a: "well_shaped m \<and> ids_valid ids B L (vocab_size (config m))"
  then have ws: "well_shaped m" and i: "ids_valid ids B L (vocab_size (config m))" by simp_all
  have w: "shape (storage m (embeddings_weight m)) = [vocab_size (config m), embed_size (config m)]"
    and s: "sqrt_dmodel m = sqrt (real (embed_size (config m)))"
    using ws by (simp_all add: well_shaped_def Let_def)
  have sh: "shape ids = [B, L]" using i by (simp add: ids_valid_def)
  let ?raw = "\<lparr>shape = [B, L, embed_size (config m)],
      elem = (\<lambda>idx. elem (storage m (embeddings_weight m)) [nat (elem ids (butlast idx)), last idx])\<rparr>"
  have raw: "embeddings_forward m ids = Inr ?raw"
    using i unfolding embeddings_forward_def F_embedding_2 [OF sh w]
    by (simp add: ids_valid_def)
  have "scaled_embeddings m ids = Inr (map_tensor (\<lambda>x. x * sqrt_dmodel m) ?raw)"
    by (simp add: scaled_embeddings_def raw)
  then show "\<exists>raw t. embeddings_forward m ids = Inr raw \<and> scaled_embeddings m ids = Inr t \<and>
         shape t = shape raw \<and>
         (\<forall>idx. elem t idx = elem raw idx * sqrt (real (embed_size (config m)))) \<and>
         (\<forall>b l e. elem raw [b, l, e] =
            elem (storage m (embeddings_weight m)) [nat (elem ids [b, l]), e])"
    using raw s by simp
next
  show "encode m rng src src_mask =
     ebind (case src_mask of
              None \<Rightarrow> Inr None
            | Some mk \<Rightarrow> if shape mk = [] then Inl IndexError else Inr (Some (unsqueeze mk 1)))
       (\<lambda>src_mask.
     ebind (scaled_embeddings m src) (\<lambda>src_embed.
     ebind (size_dim src 1) (\<lambda>n.
     ebind (inplace2 (+) src_embed (slice_rows (pos_enc m) n)) (\<lambda>src_embed.
     ebind (Encoder_forward (encoder m) (training m) (sub rng 1)
              (dropout (dropout_p m) (training m) (rng [0]) src_embed) src_mask) (\<lambda>memory.
     Inr (memory, src_mask))))))"
    unfolding encode_def Let_def ..
next
  show "decode m rng memory tgt mem_mask =
     ebind (scaled_embeddings m tgt) (\<lambda>tgt_embed.
     ebind (size_dim tgt 1) (\<lambda>n.
     ebind (inplace2 (+) tgt_embed (slice_rows (pos_enc m) n)) (\<lambda>tgt_embed.
     ebind (Decoder_forward (decoder m) (training m) (sub rng 3)
              (dropout (dropout_p m) (training m) (rng [2]) tgt_embed) memory mem_mask)
       (fc_forward m))))"
    unfolding decode_def Let_def ..
qed

theorem scaled_embeddings_sqrt_witness:
  "ids_valid (ids_of [[1, 2, 3]]) 1 3 5 \<and>
   (\<exists>raw t. embeddings_forward (projr (Transformer_init example_config zero_draws))
                (ids_of [[1, 2, 3]]) = Inr raw \<and>
      scaled_embeddings (projr (Transformer_init example_config zero_draws))
                (ids_of [[1, 2, 3]]) = Inr t \<and>
      shape t = shape raw \<and> elem t [0, 1, 2] = elem raw [0, 1, 2] * sqrt 4)"
proof -
  let ?m = "projr (Transformer_init example_config zero_draws)"
  have m: "well_shaped ?m" "config ?m = example_config"
    by (rule example_model; simp add: example_config_def)+
  have i: "ids_valid (ids_of [[1, 2, 3]]) 1 3 5"
    by (rule ids_valid_ids_of) simp_all
  have c: "vocab_size (config ?m) = 5" "embed_size (config ?m) = 4"
    unfolding m(2) by (simp_all add: example_config_def)
  have "well_shaped ?m \<and> ids_valid (ids_of [[1, 2, 3]]) 1 3 (vocab_size (config ?m))"
    using m(1) i c by simp
  from scaled_embeddings_sqrt [where m = ?m and ids = "ids_of [[1, 2, 3]]" and B = 1 and L = 3,
      THEN conjunct2, THEN conjunct1, THEN mp, OF this]
  obtain raw t where "embeddings_forward ?m (ids_of [[1, 2, 3]]) = Inr raw"
    "scaled_embeddings ?m (ids_of [[1, 2, 3]]) = Inr t" "shape t = shape raw"
    "\<forall>idx. elem t idx = elem raw idx * sqrt (real (embed_size (config ?m)))"
    by (elim exE conjE)
  then show ?thesis using i c by auto
qed

section \<open>The shape law\<close>

text \<open>
  Claim C1. Every constructed model has well-shaped parameters. For a model with
  well-shaped parameters, source ids of shape (B, Ls) and target ids of shape
  (B, Lt), all inside the vocabulary, with \<open>Ls\<close> and \<open>Lt\<close> at most \<open>max_len\<close>,
  and no source mask or one of shape (B, Ls), \<open>forward\<close> returns a tensor of shape
  (B, Lt, vocab_size), in training and in evaluation mode.
\<close>

theorem forward_shape:
  "(Transformer_init cfg init = Inr m \<longrightarrow> well_shaped m \<and> config m = cfg) \<and>
   (well_shaped m \<and>
    ids_valid src B Ls (vocab_size (config m)) \<and> ids_valid tgt B Lt (vocab_size (config m)) \<and>
    Ls \<le> max_len (config m) \<and> Lt \<le> max_len (config m) \<and> src_mask_shaped msk B Ls \<longrightarrow>
      (\<exists>out. forward m rng src tgt msk = Inr out \<and> shape out = [B, Lt, vocab_size (config m)]))"
proof (intro conjI impI)
  assume "Transformer_init cfg init = Inr m"
  from Transformer_init_well_shaped [OF this]
  show "well_shaped m" "config m = cfg" by simp_all
next
  assume "well_shaped m \<and>
    ids_valid src B Ls (vocab_size (config m)) \<and> ids_valid tgt B Lt (vocab_size (config m)) \<and>
    Ls \<le> max_len (config m) \<and> Lt \<le> max_len (config m) \<and> src_mask_shaped msk B Ls"
  then have ws: "well_shaped m"
    and s: "ids_valid src B Ls (vocab_size (config m))"
    and t: "ids_valid tgt B Lt (vocab_size (config m))"
    and ls: "Ls \<le> max_len (config m) \<or> max_len (config m) = 1"
    and lt: "Lt \<le> max_len (config m) \<or> max_len (config m) = 1"
    and ms: "src_mask_shaped msk B Ls"
    by simp_all
  have "rel_res (agree B Lt Lt (vocab_size (config m)) (\<lambda>b l. True))
          (forward m rng src tgt msk) (forward m rng src tgt msk)"
    by (rule forward_agree [OF ws s s ls ms _ t t lt lt]) simp_all
  then show "\<exists>out. forward m rng src tgt msk = Inr out \<and> shape out = [B, Lt, vocab_size (config m)]"
    by (auto simp add: rel_res_def agree_def)
qed

theorem forward_shape_witness:
  "ids_valid (ids_of [[1, 2, 3], [4, 0, 0]]) 2 3 5 \<and> ids_valid (ids_of [[0, 4], [2, 2]]) 2 2 5 \<and>
   src_mask_shaped (Some (ids_of [[1, 1, 1], [1, 0, 0]])) 2 3 \<and>
   (\<exists>out. forward (projr (Transformer_init example_config zero_draws)) no_drops
             (ids_of [[1, 2, 3], [4, 0, 0]]) (ids_of [[0, 4], [2, 2]])
             (Some (ids_of [[1, 1, 1], [1, 0, 0]])) = Inr out \<and>
          shape out = [2, 2, 5])"
proof -
  let ?m = "projr (Transformer_init example_config zero_draws)"
  have m: "well_shaped ?m" "config ?m = example_config"
    by (rule example_model; simp add: example_config_def)+
  have c: "vocab_size (config ?m) = 5" "max_len (config ?m) = 6"
    unfolding m(2) by (simp_all add: example_config_def)
  have s: "ids_valid (ids_of [[1, 2, 3], [4, 0, 0]]) 2 3 5"
    by (rule ids_valid_ids_of) simp_all
  have t: "ids_valid (ids_of [[0, 4], [2, 2]]) 2 2 5"
    by (rule ids_valid_ids_of) simp_all
  have k: "src_mask_shaped (Some (ids_of [[1, 1, 1], [1, 0, 0]])) 2 3"
    by (simp add: src_mask_shaped_def ids_of_def)
  have "well_shaped ?m \<and>
    ids_valid (ids_of [[1, 2, 3], [4, 0, 0]]) 2 3 (vocab_size (config ?m)) \<and>
    ids_valid (ids_of [[0, 4], [2, 2]]) 2 2 (vocab_size (config ?m)) \<and>
    3 \<le> max_len (config ?m) \<and> 2 \<le> max_len (config ?m) \<and>
    src_mask_shaped (Some (ids_of [[1, 1, 1], [1, 0, 0]])) 2 3"
    using m(1) s t k c by simp
  from forward_shape [where m = ?m and rng = no_drops, THEN conjunct2, THEN mp, OF this]
  show ?thesis using s t k c by simp
qed

section \<open>Causality of the decoder\<close>

text \<open>
  Claim C2. Take a model with well-shaped parameters, a position \<open>i\<close> and two tensors
  of target ids, of lengths \<open>Lt\<close> and \<open>Lt'\<close> at most \<open>max_len\<close>, that hold the same ids
  at every position up to \<open>i\<close>. Then \<open>decode\<close> on one memory and \<open>forward\<close> on one
  source return for both, and the two results hold the same logits at every position up
  to \<open>i\<close>. Both runs use the same dropout draws \<open>rng\<close>; in evaluation mode no draw is
  read at all.
\<close>

theorem causal_noninterference:
  "(well_shaped m \<and>
    ids_valid tgt B Lt (vocab_size (config m)) \<and> ids_valid tgt' B Lt' (vocab_size (config m)) \<and>
    Lt \<le> max_len (config m) \<and> Lt' \<le> max_len (config m) \<and>
    (\<forall>b l. b < B \<longrightarrow> l \<le> i \<longrightarrow> l < Lt \<longrightarrow> l < Lt' \<longrightarrow> elem tgt [b, l] = elem tgt' [b, l]) \<and>
    shape memory = [B, Ls, embed_size (config m)] \<and> pad_mask_shaped mem_mask B Ls \<longrightarrow>
      (\<exists>out out'. decode m rng memory tgt mem_mask = Inr out \<and>
         decode m rng memory tgt' mem_mask = Inr out' \<and>
         (\<forall>b l v. b < B \<longrightarrow> l \<le> i \<longrightarrow> l < Lt \<longrightarrow> l < Lt' \<longrightarrow> v < vocab_size (config m) \<longrightarrow>
            elem out [b, l, v] = elem out' [b, l, v]))) \<and>
   (well_shaped m \<and>
    ids_valid tgt B Lt (vocab_size (config m)) \<and> ids_valid tgt' B Lt' (vocab_size (config m)) \<and>
    Lt \<le> max_len (config m) \<and> Lt' \<le> max_len (config m) \<and>
    (\<forall>b l. b < B \<longrightarrow> l \<le> i \<longrightarrow> l < Lt \<longrightarrow> l < Lt' \<longrightarrow> elem tgt [b, l] = elem tgt' [b, l]) \<and>
    ids_valid src B Ls (vocab_size (config m)) \<and> Ls \<le> max_len (config m) \<and>
    src_mask_shaped src_mask B Ls \<longrightarrow>
      (\<exists>out out'. forward m rng src tgt src_mask = Inr out \<and>
         forward m rng src tgt' src_mask = Inr out' \<and>
         (\<forall>b l v. b < B \<longrightarrow> l \<le> i \<longrightarrow> l < Lt \<longrightarrow> l < Lt' \<longrightarrow> v < vocab_size (config m) \<longrightarrow>
            elem out [b, l, v] = elem out' [b, l, v])))"
proof (intro conjI impI)
  assume "well_shaped m \<and>
    ids_valid tgt B Lt (vocab_size (config m)) \<and> ids_valid tgt' B Lt' (vocab_size (config m)) \<and>
    Lt \<le> max_len (config m) \<and> Lt' \<le> max_len (config m) \<and>
    (\<forall>b l. b < B \<longrightarrow> l \<le> i \<longrightarrow> l < Lt \<longrightarrow> l < Lt' \<longrightarrow> elem tgt [b, l] = elem tgt' [b, l]) \<and>
    shape memory = [B, Ls, embed_size (config m)] \<and> pad_mask_shaped mem_mask B Ls"
  then have ws: "well_shaped m"
    and t: "ids_valid tgt B Lt (vocab_size (config m))"
    and t': "ids_valid tgt' B Lt' (vocab_size (config m))"
    and lt: "Lt \<le> max_len (config m) \<or> max_len (config m) = 1"
    and lt': "Lt' \<le> max_len (config m) \<or> max_len (config m) = 1"
    and eq: "\<forall>b l. b < B \<longrightarrow> l < Lt \<longrightarrow> l < Lt' \<longrightarrow> l \<le> i \<longrightarrow> elem tgt [b, l] = elem tgt' [b, l]"
    and mem: "shape memory = [B, Ls, embed_size (config m)]"
    and p: "pad_mask_shaped mem_mask B Ls"
    by simp_all
  have mm: "agree B Ls Ls (embed_size (config m)) (\<lambda>b l. True) memory memory"
    by (rule agree_refl [OF mem])
  have "rel_res (agree B Lt Lt' (vocab_size (config m)) (\<lambda>b l. l \<le> i))
          (decode m rng memory tgt mem_mask) (decode m rng memory tgt' mem_mask)"
    by (rule decode_agree [OF ws t t' lt lt' p _ _ eq mm]) simp_all
  then show "\<exists>out out'. decode m rng memory tgt mem_mask = Inr out \<and>
         decode m rng memory tgt' mem_mask = Inr out' \<and>
         (\<forall>b l v. b < B \<longrightarrow> l \<le> i \<longrightarrow> l < Lt \<longrightarrow> l < Lt' \<longrightarrow> v < vocab_size (config m) \<longrightarrow>
            elem out [b, l, v] = elem out' [b, l, v])"
    by (auto simp add: rel_res_def agree_def)
next
  assume "well_shaped m \<and>
    ids_valid tgt B Lt (vocab_size (config m)) \<and> ids_valid tgt' B Lt' (vocab_size (config m)) \<and>
    Lt \<le> max_len (config m) \<and> Lt' \<le> max_len (config m) \<and>
    (\<forall>b l. b < B \<longrightarrow> l \<le> i \<longrightarrow> l < Lt \<longrightarrow> l < Lt' \<longrightarrow> elem tgt [b, l] = elem tgt' [b, l]) \<and>
    ids_valid src B Ls (vocab_size (config m)) \<and> Ls \<le> max_len (config m) \<and>
    src_mask_shaped src_mask B Ls"
  then have ws: "well_shaped m"
    and t: "ids_valid tgt B Lt (vocab_size (config m))"
    and t': "ids_valid tgt' B Lt' (vocab_size (config m))"
    and lt: "Lt \<le> max_len (config m) \<or> max_len (config m) = 1"
    and lt': "Lt' \<le> max_len (config m) \<or> max_len (config m) = 1"
    and eq: "\<forall>b l. b < B \<longrightarrow> l < Lt \<longrightarrow> l < Lt' \<longrightarrow> l \<le> i \<longrightarrow> elem tgt [b, l] = elem tgt' [b, l]"
    and s: "ids_valid src B Ls (vocab_size (config m))"
    and ls: "Ls \<le> max_len (config m) \<or> max_len (config m) = 1"
    and ms: "src_mask_shaped src_mask B Ls"
    by simp_all
  have "rel_res (agree B Lt Lt' (vocab_size (config m)) (\<lambda>b l. l \<le> i))
          (forward m rng src tgt src_mask) (forward m rng src tgt' src_mask)"
    by (rule forward_agree [OF ws s s ls ms _ t t' lt lt' _ eq]) simp_all
  then show "\<exists>out out'. forward m rng src tgt src_mask = Inr out \<and>
         forward m rng src tgt' src_mask = Inr out' \<and>
         (\<forall>b l v. b < B \<longrightarrow> l \<le> i \<longrightarrow> l < Lt \<longrightarrow> l < Lt' \<longrightarrow> v < vocab_size (config m) \<longrightarrow>
            elem out [b, l, v] = elem out' [b, l, v])"
    by (auto simp add: rel_res_def agree_def)
qed

theorem causal_noninterference_witness:
  "ids_valid (ids_of [[0, 4, 1]]) 1 3 5 \<and> ids_valid (ids_of [[0, 4, 3, 2]]) 1 4 5 \<and>
   elem (ids_of [[0, 4, 1]]) [0, 2] \<noteq> elem (ids_of [[0, 4, 3, 2]]) [0, 2] \<and>
   (\<exists>out out'. forward (projr (Transformer_init example_config zero_draws)) no_drops
                  (ids_of [[1, 2, 3]]) (ids_of [[0, 4, 1]]) (None :: real tensor option) = Inr out \<and>
      forward (projr (Transformer_init example_config zero_draws)) no_drops
                  (ids_of [[1, 2, 3]]) (ids_of [[0, 4, 3, 2]]) (None :: real tensor option) = Inr out' \<and>
      elem out [0, 1, 2] = elem out' [0, 1, 2] \<and> elem out [0, 0, 4] = elem out' [0, 0, 4]) \<and>
   (\<exists>out out'. decode (projr (Transformer_init example_config zero_draws)) no_drops
                  (torch_ones [1, 3, 4]) (ids_of [[0, 4, 1]]) (None :: real tensor option) = Inr out \<and>
      decode (projr (Transformer_init example_config zero_draws)) no_drops
                  (torch_ones [1, 3, 4]) (ids_of [[0, 4, 3, 2]]) (None :: real tensor option) = Inr out' \<and>
      elem out [0, 1, 2] = elem out' [0, 1, 2])"
proof -
  let ?m = "projr (Transformer_init example_config zero_draws)"
  let ?tgt = "ids_of [[0, 4, 1]]" and ?tgt' = "ids_of [[0, 4, 3, 2]]" and ?src = "ids_of [[1, 2, 3]]"
  have m: "well_shaped ?m" "config ?m = example_config"
    by (rule example_model; simp add: example_config_def)+
  have c: "vocab_size (config ?m) = 5" "max_len (config ?m) = 6" "embed_size (config ?m) = 4"
    unfolding m(2) by (simp_all add: example_config_def)
  have t: "ids_valid ?tgt 1 3 5" by (rule ids_valid_ids_of) simp_all
  have t': "ids_valid ?tgt' 1 4 5" by (rule ids_valid_ids_of) simp_all
  have s: "ids_valid ?src 1 3 5" by (rule ids_valid_ids_of) simp_all
  have eq: "\<forall>b l. b < 1 \<longrightarrow> l \<le> 1 \<longrightarrow> l < 3 \<longrightarrow> l < 4 \<longrightarrow> elem ?tgt [b, l] = elem ?tgt' [b, l]"
    by (auto simp add: ids_of_def le_Suc_eq)
  have ne: "elem ?tgt [0, 2] \<noteq> elem ?tgt' [0, 2]" by (simp add: ids_of_def)
  have k: "src_mask_shaped (None :: real tensor option) 1 3"
    "pad_mask_shaped (None :: real tensor option) 1 3"
    by (simp_all add: src_mask_shaped_def pad_mask_shaped_def)
  have mem: "shape (torch_ones [1, 3, 4]) = [1, 3, embed_size (config ?m)]"
    using c by (simp add: torch_ones_def)
  have "well_shaped ?m \<and>
    ids_valid ?tgt 1 3 (vocab_size (config ?m)) \<and> ids_valid ?tgt' 1 4 (vocab_size (config ?m)) \<and>
    3 \<le> max_len (config ?m) \<and> 4 \<le> max_len (config ?m) \<and>
    (\<forall>b l. b < 1 \<longrightarrow> l \<le> 1 \<longrightarrow> l < 3 \<longrightarrow> l < 4 \<longrightarrow> elem ?tgt [b, l] = elem ?tgt' [b, l]) \<and>
    ids_valid ?src 1 3 (vocab_size (config ?m)) \<and> 3 \<le> max_len (config ?m) \<and>
    src_mask_shaped (None :: real tensor option) 1 3"
    using m(1) t t' s eq k c by simp
  from causal_noninterference [where m = ?m and rng = no_drops and i = 1, THEN conjunct2, THEN mp,
      OF this]
  obtain out out' where o: "forward ?m no_drops ?src ?tgt (None :: real tensor option) = Inr out"
    "forward ?m no_drops ?src ?tgt' (None :: real tensor option) = Inr out'"
    and e: "\<forall>b l v. b < 1 \<longrightarrow> l \<le> 1 \<longrightarrow> l < 3 \<longrightarrow> l < 4 \<longrightarrow> v < vocab_size (config ?m) \<longrightarrow>
            elem out [b, l, v] = elem out' [b, l, v]"
    by (elim exE conjE)
  from e c have e1: "elem out [0, 1, 2] = elem out' [0, 1, 2]" "elem out [0, 0, 4] = elem out' [0, 0, 4]"
    by simp_all
  have "well_shaped ?m \<and>
    ids_valid ?tgt 1 3 (vocab_size (config ?m)) \<and> ids_valid ?tgt' 1 4 (vocab_size (config ?m)) \<and>
    3 \<le> max_len (config ?m) \<and> 4 \<le> max_len (config ?m) \<and>
    (\<forall>b l. b < 1 \<longrightarrow> l \<le> 1 \<longrightarrow> l < 3 \<longrightarrow> l < 4 \<longrightarrow> elem ?tgt [b, l] = elem ?tgt' [b, l]) \<and>
    shape (torch_ones [1, 3, 4]) = [1, 3, embed_size (config ?m)] \<and>
    pad_mask_shaped (None :: real tensor option) 1 3"
    using m(1) t t' eq k c mem by simp
  from causal_noninterference [where m = ?m and rng = no_drops and i = 1, THEN conjunct1, THEN mp,
      OF this]
  obtain dout dout' where d: "decode ?m no_drops (torch_ones [1, 3, 4]) ?tgt (None :: real tensor option) = Inr dout"
    "decode ?m no_drops (torch_ones [1, 3, 4]) ?tgt' (None :: real tensor option) = Inr dout'"
    and de: "\<forall>b l v. b < 1 \<longrightarrow> l \<le> 1 \<longrightarrow> l < 3 \<longrightarrow> l < 4 \<longrightarrow> v < vocab_size (config ?m) \<longrightarrow>
            elem dout [b, l, v] = elem dout' [b, l, v]"
    by (elim exE conjE)
  from de c have d1: "elem dout [0, 1, 2] = elem dout' [0, 1, 2]" by simp
  show ?thesis using t t' ne o e1 d d1 by simp
qed

section \<open>Padded source positions\<close>

text \<open>
  Claim C4. Take a model with well-shaped parameters, a padding mask of shape (B, Ls)
  (or none), and two tensors of source ids of that shape that hold the same id wherever
  the mask is not 0. Then \<open>encode\<close> returns for both, with the same mask, and the two
  memories hold the same values at every position where the mask is not 0; and
  \<open>decode\<close> on the two memories, like \<open>forward\<close> on the two sources, returns the same
  logits at every target position. Both runs use the same dropout draws \<open>rng\<close>; in
  evaluation mode no draw is read at all. (A batch row without any visible position
  has a softmax over \<open>-inf\<close> only, which is NaN in the library for both runs and lies
  outside the reals of the model.)
\<close>

theorem padding_noninterference:
  "(well_shaped m \<and>
    ids_valid src B Ls (vocab_size (config m)) \<and> ids_valid src' B Ls (vocab_size (config m)) \<and>
    Ls \<le> max_len (config m) \<and> src_mask_shaped msk B Ls \<and>
    (\<forall>b l. b < B \<longrightarrow> l < Ls \<longrightarrow> src_visible msk b l \<longrightarrow> elem src [b, l] = elem src' [b, l]) \<longrightarrow>
      (\<exists>mem mem' sm. encode m rng src msk = Inr (mem, sm) \<and> encode m rng src' msk = Inr (mem', sm) \<and>
         (\<forall>b l e. b < B \<longrightarrow> l < Ls \<longrightarrow> src_visible msk b l \<longrightarrow> e < embed_size (config m) \<longrightarrow>
            elem mem [b, l, e] = elem mem' [b, l, e]))) \<and>
   (well_shaped m \<and>
    ids_valid src B Ls (vocab_size (config m)) \<and> ids_valid src' B Ls (vocab_size (config m)) \<and>
    Ls \<le> max_len (config m) \<and> src_mask_shaped msk B Ls \<and>
    (\<forall>b l. b < B \<longrightarrow> l < Ls \<longrightarrow> src_visible msk b l \<longrightarrow> elem src [b, l] = elem src' [b, l]) \<and>
    ids_valid tgt B Lt (vocab_size (config m)) \<and> Lt \<le> max_len (config m) \<longrightarrow>
      (\<exists>mem mem' sm out out'.
         encode m rng src msk = Inr (mem, sm) \<and> encode m rng src' msk = Inr (mem', sm) \<and>
         decode m rng mem tgt sm = Inr out \<and> decode m rng mem' tgt sm = Inr out' \<and>
         forward m rng src tgt msk = Inr out \<and> forward m rng src' tgt msk = Inr out' \<and>
         (\<forall>b l v. b < B \<longrightarrow> l < Lt \<longrightarrow> v < vocab_size (config m) \<longrightarrow>
            elem out [b, l, v] = elem out' [b, l, v])))"
proof -
  have main: "\<exists>mem mem'. encode m rng src msk = Inr (mem, map_option (\<lambda>mk. unsqueeze mk 1) msk) \<and>
      encode m rng src' msk = Inr (mem', map_option (\<lambda>mk. unsqueeze mk 1) msk) \<and>
      agree B Ls Ls (embed_size (config m)) (src_visible msk) mem mem'"
    if ws: "well_shaped m"
      and s: "ids_valid src B Ls (vocab_size (config m))"
      and s': "ids_valid src' B Ls (vocab_size (config m))"
      and ls: "Ls \<le> max_len (config m)"
      and ms: "src_mask_shaped msk B Ls"
      and eq: "\<forall>b l. b < B \<longrightarrow> l < Ls \<longrightarrow> src_visible msk b l \<longrightarrow> elem src [b, l] = elem src' [b, l]"
  proof -
    from ls have ls': "Ls \<le> max_len (config m) \<or> max_len (config m) = 1" by simp
    from encode_agree [OF ws s s' ls' ms eq, of rng] show ?thesis
      by (auto simp add: rel_res_def)
  qed
  show ?thesis
  proof (intro conjI impI)
    assume "well_shaped m \<and>
      ids_valid src B Ls (vocab_size (config m)) \<and> ids_valid src' B Ls (vocab_size (config m)) \<and>
      Ls \<le> max_len (config m) \<and> src_mask_shaped msk B Ls \<and>
      (\<forall>b l. b < B \<longrightarrow> l < Ls \<longrightarrow> src_visible msk b l \<longrightarrow> elem src [b, l] = elem src' [b, l])"
    then have "\<exists>mem mem'. encode m rng src msk = Inr (mem, map_option (\<lambda>mk. unsqueeze mk 1) msk) \<and>
      encode m rng src' msk = Inr (mem', map_option (\<lambda>mk. unsqueeze mk 1) msk) \<and>
      agree B Ls Ls (embed_size (config m)) (src_visible msk) mem mem'"
      by (elim conjE) (rule main)
    then obtain mem mem' where e: "encode m rng src msk = Inr (mem, map_option (\<lambda>mk. unsqueeze mk 1) msk)"
      "encode m rng src' msk = Inr (mem', map_option (\<lambda>mk. unsqueeze mk 1) msk)"
      and mm: "agree B Ls Ls (embed_size (config m)) (src_visible msk) mem mem'"
      by (elim exE conjE)
    have "\<forall>b l e. b < B \<longrightarrow> l < Ls \<longrightarrow> src_visible msk b l \<longrightarrow> e < embed_size (config m) \<longrightarrow>
            elem mem [b, l, e] = elem mem' [b, l, e]"
      using mm by (simp add: agree_def)
    with e show "\<exists>mem mem' sm. encode m rng src msk = Inr (mem, sm) \<and>
         encode m rng src' msk = Inr (mem', sm) \<and>
         (\<forall>b l e. b < B \<longrightarrow> l < Ls \<longrightarrow> src_visible msk b l \<longrightarrow> e < embed_size (config m) \<longrightarrow>
            elem mem [b, l, e] = elem mem' [b, l, e])"
      by (intro exI [of _ mem] exI [of _ mem'] exI [of _ "map_option (\<lambda>mk. unsqueeze mk 1) msk"]) simp
  next
    let ?sm = "map_option (\<lambda>mk. unsqueeze mk 1) msk"
    assume a: "well_shaped m \<and>
      ids_valid src B Ls (vocab_size (config m)) \<and> ids_valid src' B Ls (vocab_size (config m)) \<and>
      Ls \<le> max_len (config m) \<and> src_mask_shaped msk B Ls \<and>
      (\<forall>b l. b < B \<longrightarrow> l < Ls \<longrightarrow> src_visible msk b l \<longrightarrow> elem src [b, l] = elem src' [b, l]) \<and>
      ids_valid tgt B Lt (vocab_size (config m)) \<and> Lt \<le> max_len (config m)"
    then have ws: "well_shaped m" and ms: "src_mask_shaped msk B Ls"
      and t: "ids_valid tgt B Lt (vocab_size (config m))"
      and lt: "Lt \<le> max_len (config m) \<or> max_len (config m) = 1" by simp_all
    from a have "\<exists>mem mem'. encode m rng src msk = Inr (mem, ?sm) \<and>
      encode m rng src' msk = Inr (mem', ?sm) \<and>
      agree B Ls Ls (embed_size (config m)) (src_visible msk) mem mem'"
      by (elim conjE) (rule main)
    then obtain mem mem' where e: "encode m rng src msk = Inr (mem, ?sm)"
      "encode m rng src' msk = Inr (mem', ?sm)"
      and mm: "agree B Ls Ls (embed_size (config m)) (src_visible msk) mem mem'"
      by (elim exE conjE)
    have clm: "\<forall>b l kk. True \<longrightarrow> kk < Ls \<longrightarrow> \<not> padded ?sm b kk \<longrightarrow> src_visible msk b kk"
      by (simp del: One_nat_def add: padded_unsqueeze)
    have "rel_res (agree B Lt Lt (vocab_size (config m)) (\<lambda>b l. True))
            (decode m rng mem tgt ?sm) (decode m rng mem' tgt ?sm)"
      by (rule decode_agree [OF ws t t lt lt pad_mask_shaped_unsqueeze [OF ms] _ clm _ mm]) simp_all
    then obtain out out' where d: "decode m rng mem tgt ?sm = Inr out"
      "decode m rng mem' tgt ?sm = Inr out'"
      and ag: "agree B Lt Lt (vocab_size (config m)) (\<lambda>b l. True) out out'"
      by (auto simp add: rel_res_def)
    have f: "forward m rng src tgt msk = Inr out" "forward m rng src' tgt msk = Inr out'"
      using e d by (simp_all add: forward_def)
    have "\<forall>b l v. b < B \<longrightarrow> l < Lt \<longrightarrow> v < vocab_size (config m) \<longrightarrow>
            elem out [b, l, v] = elem out' [b, l, v]"
      using ag by (simp add: agree_def)
    with e d f show "\<exists>mem mem' sm out out'.
         encode m rng src msk = Inr (mem, sm) \<and> encode m rng src' msk = Inr (mem', sm) \<and>
         decode m rng mem tgt sm = Inr out \<and> decode m rng mem' tgt sm = Inr out' \<and>
         forward m rng src tgt msk = Inr out \<and> forward m rng src' tgt msk = Inr out' \<and>
         (\<forall>b l v. b < B \<longrightarrow> l < Lt \<longrightarrow> v < vocab_size (config m) \<longrightarrow>
            elem out [b, l, v] = elem out' [b, l, v])"
      by (intro exI [of _ mem] exI [of _ mem'] exI [of _ ?sm] exI [of _ out] exI [of _ out']) simp
  qed
qed

theorem padding_noninterference_witness:
  "ids_valid (ids_of [[1, 2, 3]]) 1 3 5 \<and> ids_valid (ids_of [[1, 2, 4]]) 1 3 5 \<and>
   src_mask_shaped (Some (ids_of [[1, 1, 0]])) 1 3 \<and>
   \<not> src_visible (Some (ids_of [[1, 1, 0]])) 0 2 \<and>
   elem (ids_of [[1, 2, 3]]) [0, 2] \<noteq> elem (ids_of [[1, 2, 4]]) [0, 2] \<and>
   (\<exists>out out'. forward (projr (Transformer_init example_config zero_draws)) no_drops
                  (ids_of [[1, 2, 3]]) (ids_of [[0, 4]]) (Some (ids_of [[1, 1, 0]])) = Inr out \<and>
      forward (projr (Transformer_init example_config zero_draws)) no_drops
                  (ids_of [[1, 2, 4]]) (ids_of [[0, 4]]) (Some (ids_of [[1, 1, 0]])) = Inr out' \<and>
      elem out [0, 1, 3] = elem out' [0, 1, 3])"
proof -
  let ?m = "projr (Transformer_init example_config zero_draws)"
  let ?src = "ids_of [[1, 2, 3]]" and ?src' = "ids_of [[1, 2, 4]]" and ?tgt = "ids_of [[0, 4]]"
  let ?msk = "Some (ids_of [[1, 1, 0]])"
  have m: "well_shaped ?m" "config ?m = example_config"
    by (rule example_model; simp add: example_config_def)+
  have c: "vocab_size (config ?m) = 5" "max_len (config ?m) = 6" "embed_size (config ?m) = 4"
    unfolding m(2) by (simp_all add: example_config_def)
  have s: "ids_valid ?src 1 3 5" by (rule ids_valid_ids_of) simp_all
  have s': "ids_valid ?src' 1 3 5" by (rule ids_valid_ids_of) simp_all
  have t: "ids_valid ?tgt 1 2 5" by (rule ids_valid_ids_of) simp_all
  have k: "src_mask_shaped ?msk 1 3" by (simp add: src_mask_shaped_def ids_of_def)
  have nv: "\<not> src_visible ?msk 0 2" by (simp add: src_visible_def ids_of_def)
  have ne: "elem ?src [0, 2] \<noteq> elem ?src' [0, 2]" by (simp add: ids_of_def)
  have eq: "\<forall>b l. b < 1 \<longrightarrow> l < 3 \<longrightarrow> src_visible ?msk b l \<longrightarrow> elem ?src [b, l] = elem ?src' [b, l]"
    by (auto simp add: ids_of_def src_visible_def less_Suc_eq numeral_3_eq_3)
  have "well_shaped ?m \<and>
   ids_valid ?src 1 3 (vocab_size (config ?m)) \<and> ids_valid ?src' 1 3 (vocab_size (config ?m)) \<and>
   3 \<le> max_len (config ?m) \<and> src_mask_shaped ?msk 1 3 \<and>
   (\<forall>b l. b < 1 \<longrightarrow> l < 3 \<longrightarrow> src_visible ?msk b l \<longrightarrow> elem ?src [b, l] = elem ?src' [b, l]) \<and>
   ids_valid ?tgt 1 2 (vocab_size (config ?m)) \<and> 2 \<le> max_len (config ?m)"
    using m(1) s s' t k eq c by simp
  from padding_noninterference [where m = ?m and rng = no_drops, THEN conjunct2, THEN mp, OF this]
  obtain mem mem' sm out out' where o: "forward ?m no_drops ?src ?tgt ?msk = Inr out"
    "forward ?m no_drops ?src' ?tgt ?msk = Inr out'"
    and e: "\<forall>b l v. b < 1 \<longrightarrow> l < 2 \<longrightarrow> v < vocab_size (config ?m) \<longrightarrow>
                 elem out [b, l, v] = elem out' [b, l, v]"
    by (elim exE conjE)
  from e c have "elem out [0, 1, 3] = elem out' [0, 1, 3]" by simp
  then show ?thesis using s s' k nv ne o by simp
qed

section \<open>Weight tying\<close>

lemma Transformer_init_addresses:
  assumes "Transformer_init cfg init = Inr m"
  shows "fc_weight m = 1" and "embeddings_weight m = (if tie_embeddings cfg then 1 else 0)"
proof -
  from assms obtain pe enc dec m0 where
    m0: "m0 = \<lparr>config = cfg, pos_enc = pe, encoder = enc, decoder = dec,
           sqrt_dmodel = sqrt (real (embed_size cfg)),
           storage = (\<lambda>a. if a = 0
              then \<lparr>shape = [vocab_size cfg, embed_size cfg], elem = init [2]\<rparr>
              else lin_weight (Linear_init (sub init 3) (embed_size cfg) (vocab_size cfg))),
           embeddings_weight = (if tie_embeddings cfg then 1 else 0), fc_weight = 1,
           fc_bias = lin_bias (Linear_init (sub init 3) (embed_size cfg) (vocab_size cfg)),
           dropout_p = 1 / 10, training = True\<rparr>"
    and m: "(if xavier_initialization cfg then init_params (sub init 4) m0 else Inr m0) = Inr m"
    by (rule Transformer_init_Inr)
  have a0: "fc_weight m0 = 1" "embeddings_weight m0 = (if tie_embeddings cfg then 1 else 0)"
    by (simp_all add: m0)
  have "fc_weight m = 1 \<and> embeddings_weight m = (if tie_embeddings cfg then 1 else 0)"
  proof (cases "xavier_initialization cfg")
    case False
    with m a0 show ?thesis by simp
  next
    case True
    with m have i: "init_params (sub init 4) m0 = Inr m" by simp
    from init_params_Inr(4,5) [OF i] a0 show ?thesis by simp
  qed
  then show "fc_weight m = 1" and "embeddings_weight m = (if tie_embeddings cfg then 1 else 0)"
    by simp_all
qed

lemma embed_in_store_facts:
  assumes "embed_in_store m ids = Inr (a, m')"
  shows "a = fresh_address m"
    and "embeddings_weight m' = embeddings_weight m" and "fc_weight m' = fc_weight m"
    and "storage m' (embeddings_weight m) = storage m (embeddings_weight m)"
    and "storage m' (fc_weight m) = storage m (fc_weight m)"
    and "ebind (scaled_embeddings m ids) (\<lambda>e. ebind (size_dim ids 1) (\<lambda>n.
           inplace2 (+) e (slice_rows (pos_enc m) n))) = Inr (storage m' a)"
    and "m'\<lparr>storage := storage m\<rparr> = m"
proof -
  from assms obtain embed where e: "embeddings_forward m ids = Inr embed"
    by (cases "embeddings_forward m ids") (simp_all add: embed_in_store_def)
  from assms e obtain n where n: "size_dim ids 1 = Inr n"
    by (cases "size_dim ids 1") (simp_all add: embed_in_store_def Let_def)
  let ?x = "map_tensor (\<lambda>x. x * sqrt_dmodel m) embed"
  from assms e n obtain s where s: "inplace2 (+) ?x (slice_rows (pos_enc m) n) = Inr s"
    by (cases "inplace2 (+) ?x (slice_rows (pos_enc m) n)")
       (simp_all add: embed_in_store_def Let_def update_inplace_def)
  from assms e n s have r: "a = fresh_address m"
    "m' = m\<lparr>storage := (storage m)(fresh_address m := s)\<rparr>"
    by (auto simp add: embed_in_store_def Let_def update_inplace_def)
  show "a = fresh_address m" by (rule r)
  show "embeddings_weight m' = embeddings_weight m" "fc_weight m' = fc_weight m"
    using r by simp_all
  show "storage m' (embeddings_weight m) = storage m (embeddings_weight m)"
    "storage m' (fc_weight m) = storage m (fc_weight m)"
    using r by (simp_all add: fresh_address_def)
  show "ebind (scaled_embeddings m ids) (\<lambda>e. ebind (size_dim ids 1) (\<lambda>n.
           inplace2 (+) e (slice_rows (pos_enc m) n))) = Inr (storage m' a)"
    using e n s r by (simp add: scaled_embeddings_def)
  show "m'\<lparr>storage := storage m\<rparr> = m" using r by simp
qed

lemma embed_in_store_ok:
  assumes ws: "well_shaped m" and ids: "ids_valid ids B L (vocab_size (config m))"
    and len: "L \<le> max_len (config m) \<or> max_len (config m) = 1"
  shows "\<exists>b m'. embed_in_store m ids = Inr (b, m')"
proof -
  from scaled_embeddings_ok [OF ws ids]
  obtain t where t: "scaled_embeddings m ids = Inr t" "shape t = [B, L, embed_size (config m)]"
    by (elim exE conjE)
  from t(1) obtain embed where e: "embeddings_forward m ids = Inr embed"
    and te: "t = map_tensor (\<lambda>x. x * sqrt_dmodel m) embed"
    by (cases "embeddings_forward m ids") (auto simp add: scaled_embeddings_def)
  have n: "size_dim ids 1 = Inr L" using ids by (simp add: ids_valid_def size_dim_def)
  have p: "shape (pos_enc m) = [max_len (config m), embed_size (config m)]"
    using ws by (simp add: well_shaped_def Let_def)
  from add_positions_ok [OF t(2) p len]
  obtain y where y: "inplace2 (+) t (slice_rows (pos_enc m) L) = Inr y"
    by (elim exE conjE)
  show ?thesis
    using e n y te by (simp add: embed_in_store_def Let_def update_inplace_def)
qed

text \<open>
  Claim C5. When \<open>tie_embeddings\<close> is set, the constructor returns a model whose
  embedding matrix and output-projection weight are one tensor object: the two are the
  same address of the store. So a tensor written in place through either name is what the
  other name reads, and what the embedding lookup and the output projection compute
  with; the two names stay one address after any in-place write. Without tying the two
  are different objects and a write to one leaves the other as it was. \<open>encode\<close>,
  \<open>decode\<close> and \<open>forward\<close> assign neither attribute; their only in-place
  statements write the new tensor that the embedding lookup returned, so after them both
  names are the addresses they were and hold the tensor they held.
\<close>

theorem weight_tying:
  "(Transformer_init cfg init = Inr m \<and> tie_embeddings cfg \<longrightarrow>
      embeddings_weight m = fc_weight m \<and>
      storage (update_inplace (embeddings_weight m) t m) (fc_weight m) = t \<and>
      storage (update_inplace (fc_weight m) t m) (embeddings_weight m) = t \<and>
      fc_forward (update_inplace (embeddings_weight m) t m) x = F_linear x t (fc_bias m) \<and>
      embeddings_forward (update_inplace (fc_weight m) t m) ids = F_embedding ids t \<and>
      embeddings_weight (update_inplace a t m) = fc_weight (update_inplace a t m)) \<and>
   (Transformer_init cfg init = Inr m \<and> \<not> tie_embeddings cfg \<longrightarrow>
      embeddings_weight m \<noteq> fc_weight m \<and>
      storage (update_inplace (embeddings_weight m) t m) (fc_weight m) = storage m (fc_weight m) \<and>
      storage (update_inplace (fc_weight m) t m) (embeddings_weight m) =
        storage m (embeddings_weight m)) \<and>
   (embeddings_weight m = fc_weight m \<and> embed_in_store m ids = Inr (b, m') \<longrightarrow>
      embeddings_weight m' = fc_weight m' \<and> embeddings_weight m' = embeddings_weight m \<and>
      b \<noteq> embeddings_weight m' \<and>
      storage m' (embeddings_weight m') = storage m (embeddings_weight m) \<and>
      ebind (scaled_embeddings m ids) (\<lambda>e. ebind (size_dim ids 1) (\<lambda>n.
        inplace2 (+) e (slice_rows (pos_enc m) n))) = Inr (storage m' b))"
proof (intro conjI impI)
  assume a: "Transformer_init cfg init = Inr m \<and> tie_embeddings cfg"
  then have w: "fc_weight m = 1" "embeddings_weight m = 1"
    using Transformer_init_addresses [of cfg init m] by simp_all
  show "embeddings_weight m = fc_weight m" using w by simp
  show "storage (update_inplace (embeddings_weight m) t m) (fc_weight m) = t"
    using w by (simp add: update_inplace_def)
  show "storage (update_inplace (fc_weight m) t m) (embeddings_weight m) = t"
    using w by (simp add: update_inplace_def)
  show "fc_forward (update_inplace (embeddings_weight m) t m) x = F_linear x t (fc_bias m)"
    using w by (simp add: update_inplace_def fc_forward_def)
  show "embeddings_forward (update_inplace (fc_weight m) t m) ids = F_embedding ids t"
    using w by (simp add: update_inplace_def embeddings_forward_def)
  show "embeddings_weight (update_inplace a t m) = fc_weight (update_inplace a t m)"
    using w by (simp add: update_inplace_def)
next
  assume a: "Transformer_init cfg init = Inr m \<and> \<not> tie_embeddings cfg"
  then have w: "fc_weight m = 1" "embeddings_weight m = 0"
    using Transformer_init_addresses [of cfg init m] by simp_all
  show "embeddings_weight m \<noteq> fc_weight m" using w by simp
  show "storage (update_inplace (embeddings_weight m) t m) (fc_weight m) = storage m (fc_weight m)"
    using w by (simp add: update_inplace_def)
  show "storage (update_inplace (fc_weight m) t m) (embeddings_weight m) =
        storage m (embeddings_weight m)"
    using w by (simp add: update_inplace_def)
next
  assume a: "embeddings_weight m = fc_weight m \<and> embed_in_store m ids = Inr (b, m')"
  then have e: "embed_in_store m ids = Inr (b, m')" and t: "embeddings_weight m = fc_weight m"
    by simp_all
  note f = embed_in_store_facts [OF e]
  show "embeddings_weight m' = fc_weight m'" using f(2,3) t by simp
  show "embeddings_weight m' = embeddings_weight m" by (rule f(2))
  show "b \<noteq> embeddings_weight m'" using f(1,2) by (simp add: fresh_address_def)
  show "storage m' (embeddings_weight m') = storage m (embeddings_weight m)"
    using f(2,4) by simp
  show "ebind (scaled_embeddings m ids) (\<lambda>e. ebind (size_dim ids 1) (\<lambda>n.
        inplace2 (+) e (slice_rows (pos_enc m) n))) = Inr (storage m' b)"
    by (rule f(6))
qed

theorem weight_tying_witness:
  "tie_embeddings example_config \<and>
   \<not> isl (Transformer_init example_config zero_draws) \<and>
   embeddings_weight (projr (Transformer_init example_config zero_draws)) =
     fc_weight (projr (Transformer_init example_config zero_draws)) \<and>
   storage (update_inplace (embeddings_weight (projr (Transformer_init example_config zero_draws)))
              (torch_ones [5, 4]) (projr (Transformer_init example_config zero_draws)))
     (fc_weight (projr (Transformer_init example_config zero_draws))) = torch_ones [5, 4] \<and>
   \<not> isl (Transformer_init (example_config\<lparr>tie_embeddings := False\<rparr>) zero_draws) \<and>
   embeddings_weight (projr (Transformer_init (example_config\<lparr>tie_embeddings := False\<rparr>) zero_draws))
     \<noteq> fc_weight (projr (Transformer_init (example_config\<lparr>tie_embeddings := False\<rparr>) zero_draws)) \<and>
   (\<exists>b m'. embed_in_store (projr (Transformer_init example_config zero_draws))
              (ids_of [[1, 2, 3]]) = Inr (b, m') \<and>
      embeddings_weight m' = fc_weight m' \<and>
      storage m' (embeddings_weight m') =
        storage (projr (Transformer_init example_config zero_draws))
          (embeddings_weight (projr (Transformer_init example_config zero_draws))))"
proof -
  let ?m = "projr (Transformer_init example_config zero_draws)"
  let ?cfg' = "example_config\<lparr>tie_embeddings := False\<rparr>"
  let ?m' = "projr (Transformer_init ?cfg' zero_draws)"
  let ?ids = "ids_of [[1, 2, 3]]"
  have tie: "tie_embeddings example_config" by (simp add: example_config_def)
  have m: "Transformer_init example_config zero_draws = Inr ?m" "well_shaped ?m"
    "config ?m = example_config"
    by (rule example_model; simp add: example_config_def)+
  have m': "Transformer_init ?cfg' zero_draws = Inr ?m'"
    by (rule example_model; simp add: example_config_def)+
  have c: "vocab_size (config ?m) = 5" "max_len (config ?m) = 6"
    unfolding m(3) by (simp_all add: example_config_def)
  have "ids_valid ?ids 1 3 5" by (rule ids_valid_ids_of) simp_all
  then have i: "ids_valid ?ids 1 3 (vocab_size (config ?m))" using c by simp
  have "3 \<le> max_len (config ?m) \<or> max_len (config ?m) = 1" using c by simp
  from embed_in_store_ok [OF m(2) i this]
  obtain b m2 where s: "embed_in_store ?m ?ids = Inr (b, m2)" by (elim exE)
  have h1: "Transformer_init example_config zero_draws = Inr ?m \<and> tie_embeddings example_config"
    using m(1) tie by simp
  note t1 = weight_tying [where cfg = example_config and init = zero_draws and m = ?m
      and t = "torch_ones [5, 4]", THEN conjunct1, THEN mp, OF h1]
  have h2: "Transformer_init ?cfg' zero_draws = Inr ?m' \<and> \<not> tie_embeddings ?cfg'"
    using m' by simp
  note t2 = weight_tying [where cfg = ?cfg' and init = zero_draws and m = ?m',
      THEN conjunct2, THEN conjunct1, THEN mp, OF h2]
  have h3: "embeddings_weight ?m = fc_weight ?m \<and> embed_in_store ?m ?ids = Inr (b, m2)"
    using t1 s by simp
  note t3 = weight_tying [where m = ?m and ids = ?ids and b = b and m' = m2,
      THEN conjunct2, THEN conjunct2, THEN mp, OF h3]
  have e: "\<exists>b m'. embed_in_store ?m ?ids = Inr (b, m') \<and> embeddings_weight m' = fc_weight m' \<and>
      storage m' (embeddings_weight m') = storage ?m (embeddings_weight ?m)"
    by (intro exI [of _ b] exI [of _ m2] conjI, rule s, rule t3 [THEN conjunct1],
        rule t3 [THEN conjunct2, THEN conjunct2, THEN conjunct2, THEN conjunct1])
  have n1: "\<not> isl (Transformer_init example_config zero_draws)"
    by (subst m(1)) simp
  have n2: "\<not> isl (Transformer_init ?cfg' zero_draws)"
    by (subst m') simp
  show ?thesis
    by (intro conjI, rule tie, rule n1, rule t1 [THEN conjunct1],
        rule t1 [THEN conjunct2, THEN conjunct1], rule n2, rule t2 [THEN conjunct1], rule e)
qed

section \<open>Saving and loading\<close>

subsection \<open>The configuration and the files\<close>

lemma TransformerConfig_round_trip: "TransformerConfig_init (asdict cfg) = Inr cfg"
  by (cases cfg)
     (simp add: TransformerConfig_init_def asdict_def field_names_def size_field_def
        flag_field_def)

lemma path_join_distinct: "path_join p ''model.pt'' \<noteq> path_join p ''config.json''"
  by (simp add: path_join_def)

lemma save_pretrained_ok:
  assumes "save_path = [] \<or> is_dir fs save_path"
    and "\<not> is_dir fs (path_join save_path ''model.pt'')"
    and "\<not> is_dir fs (path_join save_path ''config.json'')"
  shows "\<exists>fs'. save_pretrained m save_path fs = Inr fs' \<and>
           json_load (path_join save_path ''config.json'') fs' = Inr (asdict (config m)) \<and>
           torch_load (path_join save_path ''model.pt'') fs' = Inr (state_dict m)"
  using assms path_join_distinct [of save_path]
  by (auto simp add: save_pretrained_def write_file_def json_load_def torch_load_def
        read_file_def)

lemma save_pretrained_fails:
  assumes "save_path \<noteq> []" "\<not> is_dir fs save_path"
  shows "save_pretrained m save_path fs = Inl FileNotFoundError"
  using assms by (simp add: save_pretrained_def write_file_def)

subsection \<open>Architecture\<close>

lemma blank_eq: "blank t = blank t' \<longleftrightarrow> shape t = shape t'"
  by (simp add: blank_def)

lemma arch_linear_eq:
  "arch_linear l = arch_linear l' \<longleftrightarrow>
     shape (lin_weight l) = shape (lin_weight l') \<and> shape (lin_bias l) = shape (lin_bias l')"
  by (simp add: arch_linear_def blank_eq)

lemma arch_layer_norm_eq:
  "arch_layer_norm n = arch_layer_norm n' \<longleftrightarrow>
     normalized_shape n = normalized_shape n' \<and> ln_eps n = ln_eps n' \<and>
     shape (ln_weight n) = shape (ln_weight n') \<and> shape (ln_bias n) = shape (ln_bias n')"
  by (cases n; cases n') (auto simp add: arch_layer_norm_def blank_eq)

lemma arch_mha_eq:
  "arch_mha a = arch_mha a' \<longleftrightarrow>
     n_heads a = n_heads a' \<and> mha_embed_size a = mha_embed_size a' \<and> head_dim a = head_dim a' \<and>
     sdpa_p a = sdpa_p a' \<and>
     arch_linear (q_weights a) = arch_linear (q_weights a') \<and>
     arch_linear (k_weights a) = arch_linear (k_weights a') \<and>
     arch_linear (v_weights a) = arch_linear (v_weights a') \<and>
     arch_linear (proj a) = arch_linear (proj a')"
  by (cases a; cases a') (auto simp add: arch_mha_def)

lemma arch_ff_eq:
  "arch_ff f = arch_ff f' \<longleftrightarrow>
     ff_p f = ff_p f' \<and> arch_linear (ff_lin1 f) = arch_linear (ff_lin1 f') \<and>
     arch_linear (ff_lin2 f) = arch_linear (ff_lin2 f')"
  by (cases f; cases f') (auto simp add: arch_ff_def)

lemma arch_encoder_layer_eq:
  "arch_encoder_layer l = arch_encoder_layer l' \<longleftrightarrow>
     enc_dropout1 l = enc_dropout1 l' \<and> enc_dropout2 l = enc_dropout2 l' \<and>
     enc_post_ln l = enc_post_ln l' \<and>
     arch_ff (enc_ff l) = arch_ff (enc_ff l') \<and> arch_mha (enc_mha l) = arch_mha (enc_mha l') \<and>
     arch_layer_norm (enc_ln1 l) = arch_layer_norm (enc_ln1 l') \<and>
     arch_layer_norm (enc_ln2 l) = arch_layer_norm (enc_ln2 l')"
  by (cases l; cases l') (auto simp add: arch_encoder_layer_def)

lemma arch_decoder_layer_eq:
  "arch_decoder_layer l = arch_decoder_layer l' \<longleftrightarrow>
     dec_dropout1 l = dec_dropout1 l' \<and> dec_dropout2 l = dec_dropout2 l' \<and>
     dec_dropout3 l = dec_dropout3 l' \<and> dec_post_ln l = dec_post_ln l' \<and>
     arch_ff (dec_ff l) = arch_ff (dec_ff l') \<and> arch_mha (dec_mha l) = arch_mha (dec_mha l') \<and>
     arch_mha (dec_mmha l) = arch_mha (dec_mmha l') \<and>
     arch_layer_norm (dec_ln1 l) = arch_layer_norm (dec_ln1 l') \<and>
     arch_layer_norm (dec_ln2 l) = arch_layer_norm (dec_ln2 l') \<and>
     arch_layer_norm (dec_ln3 l) = arch_layer_norm (dec_ln3 l')"
  by (cases l; cases l') (auto simp add: arch_decoder_layer_def)

subsection \<open>Loading what was saved\<close>

lemma load_param_hit:
  "(k, t) \<in> Map.graph (map_of sd) \<Longrightarrow> shape p = shape t \<Longrightarrow> load_param sd k p = Inr t"
  by (simp add: load_param_def in_graphD)

lemma load_param_shape: "load_param sd k p = Inr t \<Longrightarrow> shape t = shape p"
  by (auto simp add: load_param_def split: option.splits if_splits)

lemma load_linear_saved:
  assumes "set (state_dict_linear p l) \<subseteq> Map.graph (map_of sd)"
    and "arch_linear l1 = arch_linear l"
  shows "load_linear sd p l1 = Inr l"
proof -
  from assms(1) have s: "(p @ [Attr ''weight''], lin_weight l) \<in> Map.graph (map_of sd)"
    "(p @ [Attr ''bias''], lin_bias l) \<in> Map.graph (map_of sd)"
    by (simp_all add: state_dict_linear_def)
  from assms(2) have r: "shape (lin_weight l1) = shape (lin_weight l)"
    "shape (lin_bias l1) = shape (lin_bias l)"
    by (simp_all add: arch_linear_eq)
  have "load_linear sd p l1 = Inr (l1\<lparr>lin_weight := lin_weight l, lin_bias := lin_bias l\<rparr>)"
    by (simp add: load_linear_def load_param_hit [OF s(1) r(1)] load_param_hit [OF s(2) r(2)])
  also have "l1\<lparr>lin_weight := lin_weight l, lin_bias := lin_bias l\<rparr> = l"
    using assms(2) by (cases l; cases l1) (simp add: arch_linear_eq)
  finally show ?thesis .
qed

lemma load_linear_arch: "load_linear sd p l = Inr l' \<Longrightarrow> arch_linear l' = arch_linear l"
  by (auto simp add: load_linear_def ebind_Inr_iff arch_linear_eq dest: load_param_shape)

lemma load_layer_norm_saved:
  assumes "set (state_dict_layer_norm p n) \<subseteq> Map.graph (map_of sd)"
    and "arch_layer_norm n1 = arch_layer_norm n"
  shows "load_layer_norm sd p n1 = Inr n"
proof -
  from assms(1) have s: "(p @ [Attr ''weight''], ln_weight n) \<in> Map.graph (map_of sd)"
    "(p @ [Attr ''bias''], ln_bias n) \<in> Map.graph (map_of sd)"
    by (simp_all add: state_dict_layer_norm_def)
  from assms(2) have r: "shape (ln_weight n1) = shape (ln_weight n)"
    "shape (ln_bias n1) = shape (ln_bias n)"
    by (simp_all add: arch_layer_norm_eq)
  have "load_layer_norm sd p n1 = Inr (n1\<lparr>ln_weight := ln_weight n, ln_bias := ln_bias n\<rparr>)"
    by (simp add: load_layer_norm_def load_param_hit [OF s(1) r(1)] load_param_hit [OF s(2) r(2)])
  also have "n1\<lparr>ln_weight := ln_weight n, ln_bias := ln_bias n\<rparr> = n"
    using assms(2) by (cases n; cases n1) (simp add: arch_layer_norm_eq)
  finally show ?thesis .
qed

lemma load_layer_norm_arch:
  "load_layer_norm sd p n = Inr n' \<Longrightarrow> arch_layer_norm n' = arch_layer_norm n"
  by (auto simp add: load_layer_norm_def ebind_Inr_iff arch_layer_norm_eq dest: load_param_shape)

lemma load_mha_saved:
  assumes "set (state_dict_mha p a) \<subseteq> Map.graph (map_of sd)"
    and "arch_mha a1 = arch_mha a"
  shows "load_mha sd p a1 = Inr a"
proof -
  from assms(1) have s:
    "set (state_dict_linear (p @ [Attr ''q_weights'']) (q_weights a)) \<subseteq> Map.graph (map_of sd)"
    "set (state_dict_linear (p @ [Attr ''k_weights'']) (k_weights a)) \<subseteq> Map.graph (map_of sd)"
    "set (state_dict_linear (p @ [Attr ''v_weights'']) (v_weights a)) \<subseteq> Map.graph (map_of sd)"
    "set (state_dict_linear (p @ [Attr ''proj'']) (proj a)) \<subseteq> Map.graph (map_of sd)"
    by (simp_all add: state_dict_mha_def)
  from assms(2) have r:
    "arch_linear (q_weights a1) = arch_linear (q_weights a)"
    "arch_linear (k_weights a1) = arch_linear (k_weights a)"
    "arch_linear (v_weights a1) = arch_linear (v_weights a)"
    "arch_linear (proj a1) = arch_linear (proj a)"
    by (simp_all add: arch_mha_eq)
  have "load_mha sd p a1 = Inr (a1\<lparr>q_weights := q_weights a, k_weights := k_weights a, v_weights := v_weights a, proj := proj a\<rparr>)"
    by (simp add: load_mha_def load_linear_saved [OF s(1) r(1)] load_linear_saved [OF s(2) r(2)] load_linear_saved [OF s(3) r(3)] load_linear_saved [OF s(4) r(4)])
  also have "a1\<lparr>q_weights := q_weights a, k_weights := k_weights a, v_weights := v_weights a, proj := proj a\<rparr> = a"
    using assms(2) by (cases a; cases a1) (simp add: arch_mha_eq)
  finally show ?thesis .
qed

lemma load_mha_arch: "load_mha sd p a = Inr a' \<Longrightarrow> arch_mha a' = arch_mha a"
  by (auto simp add: load_mha_def ebind_Inr_iff arch_mha_eq dest: load_linear_arch)

lemma load_ff_saved:
  assumes "set (state_dict_ff p f) \<subseteq> Map.graph (map_of sd)"
    and "arch_ff f1 = arch_ff f"
  shows "load_ff sd p f1 = Inr f"
proof -
  from assms(1) have s:
    "set (state_dict_linear (p @ [Attr ''ff'', Index 0]) (ff_lin1 f)) \<subseteq> Map.graph (map_of sd)"
    "set (state_dict_linear (p @ [Attr ''ff'', Index 3]) (ff_lin2 f)) \<subseteq> Map.graph (map_of sd)"
    by (simp_all add: state_dict_ff_def)
  from assms(2) have r:
    "arch_linear (ff_lin1 f1) = arch_linear (ff_lin1 f)"
    "arch_linear (ff_lin2 f1) = arch_linear (ff_lin2 f)"
    by (simp_all add: arch_ff_eq)
  have "load_ff sd p f1 = Inr (f1\<lparr>ff_lin1 := ff_lin1 f, ff_lin2 := ff_lin2 f\<rparr>)"
    by (simp add: load_ff_def load_linear_saved [OF s(1) r(1)] load_linear_saved [OF s(2) r(2)])
  also have "f1\<lparr>ff_lin1 := ff_lin1 f, ff_lin2 := ff_lin2 f\<rparr> = f"
    using assms(2) by (cases f; cases f1) (simp add: arch_ff_eq)
  finally show ?thesis .
qed

lemma load_ff_arch: "load_ff sd p f = Inr f' \<Longrightarrow> arch_ff f' = arch_ff f"
  by (auto simp add: load_ff_def ebind_Inr_iff arch_ff_eq dest: load_linear_arch)

lemma load_encoder_layer_saved:
  assumes "set (state_dict_encoder_layer p l) \<subseteq> Map.graph (map_of sd)"
    and "arch_encoder_layer l1 = arch_encoder_layer l"
  shows "load_encoder_layer sd p l1 = Inr l"
proof -
  from assms(1) have s:
    "set (state_dict_ff (p @ [Attr ''ff'']) (enc_ff l)) \<subseteq> Map.graph (map_of sd)"
    "set (state_dict_mha (p @ [Attr ''mha'']) (enc_mha l)) \<subseteq> Map.graph (map_of sd)"
    "set (state_dict_layer_norm (p @ [Attr ''ln1'']) (enc_ln1 l)) \<subseteq> Map.graph (map_of sd)"
    "set (state_dict_layer_norm (p @ [Attr ''ln2'']) (enc_ln2 l)) \<subseteq> Map.graph (map_of sd)"
    by (simp_all add: state_dict_encoder_layer_def)
  from assms(2) have r:
    "arch_ff (enc_ff l1) = arch_ff (enc_ff l)"
    "arch_mha (enc_mha l1) = arch_mha (enc_mha l)"
    "arch_layer_norm (enc_ln1 l1) = arch_layer_norm (enc_ln1 l)"
    "arch_layer_norm (enc_ln2 l1) = arch_layer_norm (enc_ln2 l)"
    by (simp_all add: arch_encoder_layer_eq)
  have "load_encoder_layer sd p l1 = Inr (l1\<lparr>enc_ff := enc_ff l, enc_mha := enc_mha l, enc_ln1 := enc_ln1 l, enc_ln2 := enc_ln2 l\<rparr>)"
    by (simp add: load_encoder_layer_def load_ff_saved [OF s(1) r(1)] load_mha_saved [OF s(2) r(2)] load_layer_norm_saved [OF s(3) r(3)] load_layer_norm_saved [OF s(4) r(4)])
  also have "l1\<lparr>enc_ff := enc_ff l, enc_mha := enc_mha l, enc_ln1 := enc_ln1 l, enc_ln2 := enc_ln2 l\<rparr> = l"
    using assms(2) by (cases l; cases l1) (simp add: arch_encoder_layer_eq)
  finally show ?thesis .
qed

lemma load_encoder_layer_arch:
  "load_encoder_layer sd p l = Inr l' \<Longrightarrow> arch_encoder_layer l' = arch_encoder_layer l"
  by (auto simp add: load_encoder_layer_def ebind_Inr_iff arch_encoder_layer_eq
        dest: load_ff_arch load_mha_arch load_layer_norm_arch)

lemma load_decoder_layer_saved:
  assumes "set (state_dict_decoder_layer p l) \<subseteq> Map.graph (map_of sd)"
    and "arch_decoder_layer l1 = arch_decoder_layer l"
  shows "load_decoder_layer sd p l1 = Inr l"
proof -
  from assms(1) have s:
    "set (state_dict_ff (p @ [Attr ''ff'']) (dec_ff l)) \<subseteq> Map.graph (map_of sd)"
    "set (state_dict_mha (p @ [Attr ''mha'']) (dec_mha l)) \<subseteq> Map.graph (map_of sd)"
    "set (state_dict_mha (p @ [Attr ''mmha'']) (dec_mmha l)) \<subseteq> Map.graph (map_of sd)"
    "set (state_dict_layer_norm (p @ [Attr ''ln1'']) (dec_ln1 l)) \<subseteq> Map.graph (map_of sd)"
    "set (state_dict_layer_norm (p @ [Attr ''ln2'']) (dec_ln2 l)) \<subseteq> Map.graph (map_of sd)"
    "set (state_dict_layer_norm (p @ [Attr ''ln3'']) (dec_ln3 l)) \<subseteq> Map.graph (map_of sd)"
    by (simp_all add: state_dict_decoder_layer_def)
  from assms(2) have r:
    "arch_ff (dec_ff l1) = arch_ff (dec_ff l)"
    "arch_mha (dec_mha l1) = arch_mha (dec_mha l)"
    "arch_mha (dec_mmha l1) = arch_mha (dec_mmha l)"
    "arch_layer_norm (dec_ln1 l1) = arch_layer_norm (dec_ln1 l)"
    "arch_layer_norm (dec_ln2 l1) = arch_layer_norm (dec_ln2 l)"
    "arch_layer_norm (dec_ln3 l1) = arch_layer_norm (dec_ln3 l)"
    by (simp_all add: arch_decoder_layer_eq)
  have "load_decoder_layer sd p l1 = Inr (l1\<lparr>dec_ff := dec_ff l, dec_mha := dec_mha l, dec_mmha := dec_mmha l, dec_ln1 := dec_ln1 l, dec_ln2 := dec_ln2 l, dec_ln3 := dec_ln3 l\<rparr>)"
    by (simp add: load_decoder_layer_def load_ff_saved [OF s(1) r(1)] load_mha_saved [OF s(2) r(2)] load_mha_saved [OF s(3) r(3)] load_layer_norm_saved [OF s(4) r(4)] load_layer_norm_saved [OF s(5) r(5)] load_layer_norm_saved [OF s(6) r(6)])
  also have "l1\<lparr>dec_ff := dec_ff l, dec_mha := dec_mha l, dec_mmha := dec_mmha l, dec_ln1 := dec_ln1 l, dec_ln2 := dec_ln2 l, dec_ln3 := dec_ln3 l\<rparr> = l"
    using assms(2) by (cases l; cases l1) (simp add: arch_decoder_layer_eq)
  finally show ?thesis .
qed

lemma load_decoder_layer_arch:
  "load_decoder_layer sd p l = Inr l' \<Longrightarrow> arch_decoder_layer l' = arch_decoder_layer l"
  by (auto simp add: load_decoder_layer_def ebind_Inr_iff arch_decoder_layer_eq
        dest: load_ff_arch load_mha_arch load_layer_norm_arch)

lemma load_layers_saved:
  assumes "set (state_dict_layers sdf p i ls) \<subseteq> G"
    and "map archf ls1 = map archf ls"
    and "\<And>q l l1. set (sdf q l) \<subseteq> G \<Longrightarrow> archf l1 = archf l \<Longrightarrow> loadf sd q l1 = Inr l"
  shows "load_layers loadf sd p i ls1 = Inr ls"
  using assms(1,2)
proof (induction ls arbitrary: ls1 i)
  case Nil
  then show ?case by simp
next
  case (Cons l ls)
  from Cons.prems(2) obtain l1 ls1' where s: "ls1 = l1 # ls1'" "archf l1 = archf l"
    "map archf ls1' = map archf ls" by (cases ls1) auto
  from Cons.prems(1) have h: "set (sdf (p @ [Index i]) l) \<subseteq> G"
    and t: "set (state_dict_layers sdf p (Suc i) ls) \<subseteq> G" by simp_all
  show ?case
    using assms(3) [OF h s(2)] Cons.IH [OF t s(3)] by (simp add: s(1))
qed

lemma load_layers_arch:
  assumes "\<And>q l l'. loadf sd q l = Inr l' \<Longrightarrow> archf l' = archf l"
  shows "load_layers loadf sd p i ls = Inr ls' \<Longrightarrow> map archf ls' = map archf ls"
proof (induction ls arbitrary: ls' i)
  case Nil
  then show ?case by simp
next
  case (Cons l ls)
  from Cons.prems obtain l' ls2 where a: "loadf sd (p @ [Index i]) l = Inr l'"
    and b: "load_layers loadf sd p (Suc i) ls = Inr ls2" and c: "ls' = l' # ls2"
    by (auto simp add: ebind_Inr_iff)
  show ?case using assms [OF a] Cons.IH [OF b] c by simp
qed

lemma load_final_ln_saved:
  assumes "set (state_dict_final_ln p fln) \<subseteq> Map.graph (map_of sd)"
    and "map_option arch_layer_norm fln1 = map_option arch_layer_norm fln"
  shows "load_final_ln sd p fln1 = Inr fln"
  using assms
  by (cases fln; cases fln1)
     (simp_all add: state_dict_final_ln_def load_final_ln_def load_layer_norm_saved)

lemma load_final_ln_arch:
  "load_final_ln sd p fln = Inr fln' \<Longrightarrow>
     map_option arch_layer_norm fln' = map_option arch_layer_norm fln"
  by (cases fln) (auto simp add: load_final_ln_def ebind_Inr_iff dest: load_layer_norm_arch)

lemma arch_encoder_eq:
  "arch_encoder e = arch_encoder e' \<longleftrightarrow>
     map arch_encoder_layer (encoder_layers e) = map arch_encoder_layer (encoder_layers e') \<and>
     map_option arch_layer_norm (enc_final_ln e) = map_option arch_layer_norm (enc_final_ln e')"
  by (simp add: arch_encoder_def)

lemma arch_decoder_eq:
  "arch_decoder d = arch_decoder d' \<longleftrightarrow>
     map arch_decoder_layer (decoder_layers d) = map arch_decoder_layer (decoder_layers d') \<and>
     map_option arch_layer_norm (dec_final_ln d) = map_option arch_layer_norm (dec_final_ln d')"
  by (simp add: arch_decoder_def)

lemma load_encoder_saved:
  assumes "set (state_dict_encoder p e) \<subseteq> Map.graph (map_of sd)"
    and "arch_encoder e1 = arch_encoder e"
  shows "load_encoder sd p e1 = Inr e"
proof -
  from assms(1) have a: "set (state_dict_layers state_dict_encoder_layer
      (p @ [Attr ''encoder_layers'']) 0 (encoder_layers e)) \<subseteq> Map.graph (map_of sd)"
    and b: "set (state_dict_final_ln p (enc_final_ln e)) \<subseteq> Map.graph (map_of sd)"
    by (simp_all add: state_dict_encoder_def)
  from assms(2) have c: "map arch_encoder_layer (encoder_layers e1) =
      map arch_encoder_layer (encoder_layers e)"
    and d: "map_option arch_layer_norm (enc_final_ln e1) =
      map_option arch_layer_norm (enc_final_ln e)"
    by (simp_all add: arch_encoder_eq)
  have "load_layers load_encoder_layer sd (p @ [Attr ''encoder_layers'']) 0 (encoder_layers e1) =
      Inr (encoder_layers e)"
    by (rule load_layers_saved [OF a c]) (rule load_encoder_layer_saved)
  then show ?thesis
    using load_final_ln_saved [OF b d] by (cases e) (simp add: load_encoder_def)
qed

lemma load_encoder_arch:
  assumes "load_encoder sd p e = Inr e'"
  shows "arch_encoder e' = arch_encoder e"
proof -
  from assms obtain ls fln where
    a: "load_layers load_encoder_layer sd (p @ [Attr ''encoder_layers'']) 0 (encoder_layers e) = Inr ls"
    and b: "load_final_ln sd p (enc_final_ln e) = Inr fln"
    and c: "e' = e\<lparr>encoder_layers := ls, enc_final_ln := fln\<rparr>"
    by (auto simp add: load_encoder_def ebind_Inr_iff)
  have "map arch_encoder_layer ls = map arch_encoder_layer (encoder_layers e)"
    by (rule load_layers_arch [OF _ a]) (rule load_encoder_layer_arch)
  then show ?thesis
    using load_final_ln_arch [OF b] c by (simp add: arch_encoder_eq)
qed

lemma load_decoder_saved:
  assumes "set (state_dict_decoder p d) \<subseteq> Map.graph (map_of sd)"
    and "arch_decoder d1 = arch_decoder d"
  shows "load_decoder sd p d1 = Inr d"
proof -
  from assms(1) have a: "set (state_dict_layers state_dict_decoder_layer
      (p @ [Attr ''decoder_layers'']) 0 (decoder_layers d)) \<subseteq> Map.graph (map_of sd)"
    and b: "set (state_dict_final_ln p (dec_final_ln d)) \<subseteq> Map.graph (map_of sd)"
    by (simp_all add: state_dict_decoder_def)
  from assms(2) have c: "map arch_decoder_layer (decoder_layers d1) =
      map arch_decoder_layer (decoder_layers d)"
    and e: "map_option arch_layer_norm (dec_final_ln d1) =
      map_option arch_layer_norm (dec_final_ln d)"
    by (simp_all add: arch_decoder_eq)
  have "load_layers load_decoder_layer sd (p @ [Attr ''decoder_layers'']) 0 (decoder_layers d1) =
      Inr (decoder_layers d)"
    by (rule load_layers_saved [OF a c]) (rule load_decoder_layer_saved)
  then show ?thesis
    using load_final_ln_saved [OF b e] by (cases d) (simp add: load_decoder_def)
qed

lemma load_decoder_arch:
  assumes "load_decoder sd p d = Inr d'"
  shows "arch_decoder d' = arch_decoder d"
proof -
  from assms obtain ls fln where
    a: "load_layers load_decoder_layer sd (p @ [Attr ''decoder_layers'']) 0 (decoder_layers d) = Inr ls"
    and b: "load_final_ln sd p (dec_final_ln d) = Inr fln"
    and c: "d' = d\<lparr>decoder_layers := ls, dec_final_ln := fln\<rparr>"
    by (auto simp add: load_decoder_def ebind_Inr_iff)
  have "map arch_decoder_layer ls = map arch_decoder_layer (decoder_layers d)"
    by (rule load_layers_arch [OF _ a]) (rule load_decoder_layer_arch)
  then show ?thesis
    using load_final_ln_arch [OF b] c by (simp add: arch_decoder_eq)
qed

section \<open>The keys of a state dictionary\<close>

lemma prefix_disjoint: "prefix (p @ [c]) k \<Longrightarrow> prefix (p @ [c']) k \<Longrightarrow> c = c'"
  by (auto simp add: prefix_def)

lemma distinct_under: "distinct (map ((@) p) ks) = distinct ks"
  by (simp add: distinct_map inj_on_def)

lemma keys_linear:
  "map fst (state_dict_linear p l) =
     map ((@) p)
       [[Attr ''weight''], [Attr ''bias'']]"
  by (simp add: state_dict_linear_def)

lemma keys_linear_prefix: "k \<in> fst ` set (state_dict_linear p l) \<Longrightarrow> prefix p k"
proof -
  assume "k \<in> fst ` set (state_dict_linear p l)"
  then have "k \<in> set (map fst (state_dict_linear p l))" by simp
  then show ?thesis unfolding keys_linear by auto
qed

lemma keys_linear_distinct: "distinct (map fst (state_dict_linear p l))"
  unfolding keys_linear distinct_under by simp

lemma keys_layer_norm:
  "map fst (state_dict_layer_norm p n) =
     map ((@) p)
       [[Attr ''weight''], [Attr ''bias'']]"
  by (simp add: state_dict_layer_norm_def)

lemma keys_layer_norm_prefix: "k \<in> fst ` set (state_dict_layer_norm p n) \<Longrightarrow> prefix p k"
proof -
  assume "k \<in> fst ` set (state_dict_layer_norm p n)"
  then have "k \<in> set (map fst (state_dict_layer_norm p n))" by simp
  then show ?thesis unfolding keys_layer_norm by auto
qed

lemma keys_layer_norm_distinct: "distinct (map fst (state_dict_layer_norm p n))"
  unfolding keys_layer_norm distinct_under by simp

lemma keys_mha:
  "map fst (state_dict_mha p a) =
     map ((@) p)
       [[Attr ''q_weights'', Attr ''weight''], [Attr ''q_weights'', Attr ''bias''],
        [Attr ''k_weights'', Attr ''weight''], [Attr ''k_weights'', Attr ''bias''],
        [Attr ''v_weights'', Attr ''weight''], [Attr ''v_weights'', Attr ''bias''],
        [Attr ''proj'', Attr ''weight''], [Attr ''proj'', Attr ''bias'']]"
  by (simp add: state_dict_mha_def keys_linear)

lemma keys_mha_prefix: "k \<in> fst ` set (state_dict_mha p a) \<Longrightarrow> prefix p k"
proof -
  assume "k \<in> fst ` set (state_dict_mha p a)"
  then have "k \<in> set (map fst (state_dict_mha p a))" by simp
  then show ?thesis unfolding keys_mha by auto
qed

lemma keys_mha_distinct: "distinct (map fst (state_dict_mha p a))"
  unfolding keys_mha distinct_under by simp

lemma keys_ff:
  "map fst (state_dict_ff p f) =
     map ((@) p)
       [[Attr ''ff'', Index 0, Attr ''weight''], [Attr ''ff'', Index 0, Attr ''bias''],
        [Attr ''ff'', Index 3, Attr ''weight''], [Attr ''ff'', Index 3, Attr ''bias'']]"
  by (simp add: state_dict_ff_def keys_linear)

lemma keys_ff_prefix: "k \<in> fst ` set (state_dict_ff p f) \<Longrightarrow> prefix p k"
proof -
  assume "k \<in> fst ` set (state_dict_ff p f)"
  then have "k \<in> set (map fst (state_dict_ff p f))" by simp
  then show ?thesis unfolding keys_ff by auto
qed

lemma keys_ff_distinct: "distinct (map fst (state_dict_ff p f))"
  unfolding keys_ff distinct_under by simp

lemma keys_encoder_layer:
  "map fst (state_dict_encoder_layer p l) =
     map ((@) p)
       [[Attr ''ff'', Attr ''ff'', Index 0, Attr ''weight''],
        [Attr ''ff'', Attr ''ff'', Index 0, Attr ''bias''],
        [Attr ''ff'', Attr ''ff'', Index 3, Attr ''weight''],
        [Attr ''ff'', Attr ''ff'', Index 3, Attr ''bias''],
        [Attr ''mha'', Attr ''q_weights'', Attr ''weight''],
        [Attr ''mha'', Attr ''q_weights'', Attr ''bias''],
        [Attr ''mha'', Attr ''k_weights'', Attr ''weight''],
        [Attr ''mha'', Attr ''k_weights'', Attr ''bias''],
        [Attr ''mha'', Attr ''v_weights'', Attr ''weight''],
        [Attr ''mha'', Attr ''v_weights'', Attr ''bias''],
        [Attr ''mha'', Attr ''proj'', Attr ''weight''],
        [Attr ''mha'', Attr ''proj'', Attr ''bias''], [Attr ''ln1'', Attr ''weight''],
        [Attr ''ln1'', Attr ''bias''], [Attr ''ln2'', Attr ''weight''],
        [Attr ''ln2'', Attr ''bias'']]"
  by (simp add: state_dict_encoder_layer_def keys_ff keys_mha keys_layer_norm)

lemma keys_encoder_layer_prefix: "k \<in> fst ` set (state_dict_encoder_layer p l) \<Longrightarrow> prefix p k"
proof -
  assume "k \<in> fst ` set (state_dict_encoder_layer p l)"
  then have "k \<in> set (map fst (state_dict_encoder_layer p l))" by simp
  then show ?thesis unfolding keys_encoder_layer by auto
qed

lemma keys_encoder_layer_distinct: "distinct (map fst (state_dict_encoder_layer p l))"
  unfolding keys_encoder_layer distinct_under by simp

lemma keys_decoder_layer:
  "map fst (state_dict_decoder_layer p l) =
     map ((@) p)
       [[Attr ''ff'', Attr ''ff'', Index 0, Attr ''weight''],
        [Attr ''ff'', Attr ''ff'', Index 0, Attr ''bias''],
        [Attr ''ff'', Attr ''ff'', Index 3, Attr ''weight''],
        [Attr ''ff'', Attr ''ff'', Index 3, Attr ''bias''],
        [Attr ''mha'', Attr ''q_weights'', Attr ''weight''],
        [Attr ''mha'', Attr ''q_weights'', Attr ''bias''],
        [Attr ''mha'', Attr ''k_weights'', Attr ''weight''],
        [Attr ''mha'', Attr ''k_weights'', Attr ''bias''],
        [Attr ''mha'', Attr ''v_weights'', Attr ''weight''],
        [Attr ''mha'', Attr ''v_weights'', Attr ''bias''],
        [Attr ''mha'', Attr ''proj'', Attr ''weight''],
        [Attr ''mha'', Attr ''proj'', Attr ''bias''],
        [Attr ''mmha'', Attr ''q_weights'', Attr ''weight''],
        [Attr ''mmha'', Attr ''q_weights'', Attr ''bias''],
        [Attr ''mmha'', Attr ''k_weights'', Attr ''weight''],
        [Attr ''mmha'', Attr ''k_weights'', Attr ''bias''],
        [Attr ''mmha'', Attr ''v_weights'', Attr ''weight''],
        [Attr ''mmha'', Attr ''v_weights'', Attr ''bias''],
        [Attr ''mmha'', Attr ''proj'', Attr ''weight''],
        [Attr ''mmha'', Attr ''proj'', Attr ''bias''], [Attr ''ln1'', Attr ''weight''],
        [Attr ''ln1'', Attr ''bias''], [Attr ''ln2'', Attr ''weight''],
        [Attr ''ln2'', Attr ''bias''], [Attr ''ln3'', Attr ''weight''],
        [Attr ''ln3'', Attr ''bias'']]"
  by (simp add: state_dict_decoder_layer_def keys_ff keys_mha keys_layer_norm)

lemma keys_decoder_layer_prefix: "k \<in> fst ` set (state_dict_decoder_layer p l) \<Longrightarrow> prefix p k"
proof -
  assume "k \<in> fst ` set (state_dict_decoder_layer p l)"
  then have "k \<in> set (map fst (state_dict_decoder_layer p l))" by simp
  then show ?thesis unfolding keys_decoder_layer by auto
qed

lemma keys_decoder_layer_distinct: "distinct (map fst (state_dict_decoder_layer p l))"
  unfolding keys_decoder_layer distinct_under by simp

subsection \<open>Module lists\<close>

lemma keys_layers_prefix:
  assumes "\<forall>q l k. k \<in> fst ` set (f q l) \<longrightarrow> prefix q k"
  shows "k \<in> fst ` set (state_dict_layers f p i ls) \<Longrightarrow> \<exists>j\<ge>i. prefix (p @ [Index j]) k"
proof (induction ls arbitrary: i)
  case Nil
  then show ?case by simp
next
  case (Cons l ls)
  from Cons.prems consider "k \<in> fst ` set (f (p @ [Index i]) l)"
    | "k \<in> fst ` set (state_dict_layers f p (Suc i) ls)" by auto
  then show ?case
  proof cases
    case 1
    with assms have "prefix (p @ [Index i]) k" by simp
    then show ?thesis by (intro exI [of _ i]) simp
  next
    case 2
    from Cons.IH [OF this] obtain j where "Suc i \<le> j" "prefix (p @ [Index j]) k" by (elim exE conjE)
    then show ?thesis by (intro exI [of _ j]) simp
  qed
qed

lemma keys_layers_distinct:
  assumes pre: "\<forall>q l k. k \<in> fst ` set (f q l) \<longrightarrow> prefix q k"
    and dis: "\<forall>q l. distinct (map fst (f q l))"
  shows "distinct (map fst (state_dict_layers f p i ls))"
proof (induction ls arbitrary: i)
  case Nil
  then show ?case by simp
next
  case (Cons l ls)
  have "False" if a: "k \<in> fst ` set (f (p @ [Index i]) l)"
    and b: "k \<in> fst ` set (state_dict_layers f p (Suc i) ls)" for k
  proof -
    from keys_layers_prefix [OF pre b] obtain j where j: "Suc i \<le> j" "prefix (p @ [Index j]) k"
      by (elim exE conjE)
    from pre a have "prefix (p @ [Index i]) k" by simp
    from prefix_disjoint [OF this j(2)] j(1) show False by simp
  qed
  then have "fst ` set (f (p @ [Index i]) l) \<inter> fst ` set (state_dict_layers f p (Suc i) ls) = {}"
    unfolding disjoint_iff by (intro allI impI notI)
  moreover have "distinct (map fst (f (p @ [Index i]) l))" using dis by simp
  ultimately show ?case using Cons.IH [of "Suc i"] by simp
qed

lemma keys_layers_cong:
  assumes "length ls = length ls'" and "\<And>q l l'. map fst (f q l) = map fst (f q l')"
  shows "map fst (state_dict_layers f p i ls) = map fst (state_dict_layers f p i ls')"
  using assms(1)
proof (induction ls ls' arbitrary: i rule: list_induct2)
  case Nil
  then show ?case by simp
next
  case (Cons l ls l' ls')
  show ?case using assms(2) [of "p @ [Index i]" l l'] Cons.IH [of "Suc i"] by simp
qed

lemma keys_final_ln_prefix:
  assumes "k \<in> fst ` set (state_dict_final_ln p fln)"
  shows "prefix (p @ [Attr ''final_ln'']) k"
proof (cases fln)
  case None
  with assms show ?thesis by (simp add: state_dict_final_ln_def)
next
  case (Some n)
  with assms have "k \<in> fst ` set (state_dict_layer_norm (p @ [Attr ''final_ln'']) n)"
    by (simp add: state_dict_final_ln_def)
  then show ?thesis by (rule keys_layer_norm_prefix)
qed

lemma keys_final_ln_distinct: "distinct (map fst (state_dict_final_ln p fln))"
  by (cases fln) (simp_all add: state_dict_final_ln_def keys_layer_norm_distinct)

lemma keys_final_ln_cong:
  "map_option g fln = map_option g fln' \<Longrightarrow>
     map fst (state_dict_final_ln p fln) = map fst (state_dict_final_ln p fln')"
  by (cases fln; cases fln') (simp_all add: state_dict_final_ln_def keys_layer_norm)

subsection \<open>Encoder, decoder and model\<close>

lemma keys_encoder_layers_prefix:
  assumes "k \<in> fst ` set (state_dict_layers state_dict_encoder_layer (p @ [Attr ''encoder_layers'']) i ls)"
  shows "prefix (p @ [Attr ''encoder_layers'']) k"
proof -
  have "\<forall>q l k. k \<in> fst ` set (state_dict_encoder_layer q l) \<longrightarrow> prefix q k"
    by (intro allI impI) (rule keys_encoder_layer_prefix)
  from keys_layers_prefix [OF this assms]
  obtain j where "prefix ((p @ [Attr ''encoder_layers'']) @ [Index j]) k" by (elim exE conjE)
  then show ?thesis by (rule append_prefixD)
qed

lemma keys_encoder_prefix:
  assumes "k \<in> fst ` set (state_dict_encoder p e)"
  shows "prefix p k"
proof -
  from assms consider
      "k \<in> fst ` set (state_dict_layers state_dict_encoder_layer (p @ [Attr ''encoder_layers'']) 0
            (encoder_layers e))"
    | "k \<in> fst ` set (state_dict_final_ln p (enc_final_ln e))"
    by (auto simp add: state_dict_encoder_def)
  then show ?thesis
  proof cases
    case 1
    from keys_encoder_layers_prefix [OF this] show ?thesis by (rule append_prefixD)
  next
    case 2
    from keys_final_ln_prefix [OF this] show ?thesis by (rule append_prefixD)
  qed
qed

lemma keys_encoder_distinct: "distinct (map fst (state_dict_encoder p e))"
proof -
  have "False"
    if a: "k \<in> fst ` set (state_dict_layers state_dict_encoder_layer (p @ [Attr ''encoder_layers'']) 0
            (encoder_layers e))"
    and b: "k \<in> fst ` set (state_dict_final_ln p (enc_final_ln e))" for k
    using prefix_disjoint [OF keys_encoder_layers_prefix [OF a] keys_final_ln_prefix [OF b]] by simp
  then have "fst ` set (state_dict_layers state_dict_encoder_layer (p @ [Attr ''encoder_layers'']) 0
            (encoder_layers e)) \<inter> fst ` set (state_dict_final_ln p (enc_final_ln e)) = {}"
    unfolding disjoint_iff by (intro allI impI notI)
  moreover have "\<forall>q l k. k \<in> fst ` set (state_dict_encoder_layer q l) \<longrightarrow> prefix q k"
    by (intro allI impI) (rule keys_encoder_layer_prefix)
  then have "distinct (map fst (state_dict_layers state_dict_encoder_layer
      (p @ [Attr ''encoder_layers'']) 0 (encoder_layers e)))"
    by (rule keys_layers_distinct) (simp add: keys_encoder_layer_distinct)
  ultimately show ?thesis
    by (simp add: state_dict_encoder_def keys_final_ln_distinct)
qed

lemma keys_encoder_cong:
  assumes "arch_encoder e1 = arch_encoder e"
  shows "map fst (state_dict_encoder p e1) = map fst (state_dict_encoder p e)"
proof -
  from assms have l: "map arch_encoder_layer (encoder_layers e1) = map arch_encoder_layer (encoder_layers e)"
    and f: "map_option arch_layer_norm (enc_final_ln e1) = map_option arch_layer_norm (enc_final_ln e)"
    by (simp_all add: arch_encoder_eq)
  from l have "length (encoder_layers e1) = length (encoder_layers e)"
    by (rule map_eq_imp_length_eq)
  then have "map fst (state_dict_layers state_dict_encoder_layer (p @ [Attr ''encoder_layers'']) 0
               (encoder_layers e1)) =
             map fst (state_dict_layers state_dict_encoder_layer (p @ [Attr ''encoder_layers'']) 0
               (encoder_layers e))"
    by (rule keys_layers_cong) (simp add: keys_encoder_layer)
  then show ?thesis
    using keys_final_ln_cong [OF f] by (simp add: state_dict_encoder_def)
qed

lemma keys_decoder_layers_prefix:
  assumes "k \<in> fst ` set (state_dict_layers state_dict_decoder_layer (p @ [Attr ''decoder_layers'']) i ls)"
  shows "prefix (p @ [Attr ''decoder_layers'']) k"
proof -
  have "\<forall>q l k. k \<in> fst ` set (state_dict_decoder_layer q l) \<longrightarrow> prefix q k"
    by (intro allI impI) (rule keys_decoder_layer_prefix)
  from keys_layers_prefix [OF this assms]
  obtain j where "prefix ((p @ [Attr ''decoder_layers'']) @ [Index j]) k" by (elim exE conjE)
  then show ?thesis by (rule append_prefixD)
qed

lemma keys_decoder_prefix:
  assumes "k \<in> fst ` set (state_dict_decoder p d)"
  shows "prefix p k"
proof -
  from assms consider
      "k \<in> fst ` set (state_dict_layers state_dict_decoder_layer (p @ [Attr ''decoder_layers'']) 0
            (decoder_layers d))"
    | "k \<in> fst ` set (state_dict_final_ln p (dec_final_ln d))"
    by (auto simp add: state_dict_decoder_def)
  then show ?thesis
  proof cases
    case 1
    from keys_decoder_layers_prefix [OF this] show ?thesis by (rule append_prefixD)
  next
    case 2
    from keys_final_ln_prefix [OF this] show ?thesis by (rule append_prefixD)
  qed
qed

lemma keys_decoder_distinct: "distinct (map fst (state_dict_decoder p d))"
proof -
  have "False"
    if a: "k \<in> fst ` set (state_dict_layers state_dict_decoder_layer (p @ [Attr ''decoder_layers'']) 0
            (decoder_layers d))"
    and b: "k \<in> fst ` set (state_dict_final_ln p (dec_final_ln d))" for k
    using prefix_disjoint [OF keys_decoder_layers_prefix [OF a] keys_final_ln_prefix [OF b]] by simp
  then have "fst ` set (state_dict_layers state_dict_decoder_layer (p @ [Attr ''decoder_layers'']) 0
            (decoder_layers d)) \<inter> fst ` set (state_dict_final_ln p (dec_final_ln d)) = {}"
    unfolding disjoint_iff by (intro allI impI notI)
  moreover have "\<forall>q l k. k \<in> fst ` set (state_dict_decoder_layer q l) \<longrightarrow> prefix q k"
    by (intro allI impI) (rule keys_decoder_layer_prefix)
  then have "distinct (map fst (state_dict_layers state_dict_decoder_layer
      (p @ [Attr ''decoder_layers'']) 0 (decoder_layers d)))"
    by (rule keys_layers_distinct) (simp add: keys_decoder_layer_distinct)
  ultimately show ?thesis
    by (simp add: state_dict_decoder_def keys_final_ln_distinct)
qed

lemma keys_decoder_cong:
  assumes "arch_decoder d1 = arch_decoder d"
  shows "map fst (state_dict_decoder p d1) = map fst (state_dict_decoder p d)"
proof -
  from assms have l: "map arch_decoder_layer (decoder_layers d1) = map arch_decoder_layer (decoder_layers d)"
    and f: "map_option arch_layer_norm (dec_final_ln d1) = map_option arch_layer_norm (dec_final_ln d)"
    by (simp_all add: arch_decoder_eq)
  from l have "length (decoder_layers d1) = length (decoder_layers d)"
    by (rule map_eq_imp_length_eq)
  then have "map fst (state_dict_layers state_dict_decoder_layer (p @ [Attr ''decoder_layers'']) 0
               (decoder_layers d1)) =
             map fst (state_dict_layers state_dict_decoder_layer (p @ [Attr ''decoder_layers'']) 0
               (decoder_layers d))"
    by (rule keys_layers_cong) (simp add: keys_decoder_layer)
  then show ?thesis
    using keys_final_ln_cong [OF f] by (simp add: state_dict_decoder_def)
qed

lemma keys_state_dict:
  "map fst (state_dict m) =
     map fst (state_dict_encoder [Attr ''encoder''] (encoder m)) @
     map fst (state_dict_decoder [Attr ''decoder''] (decoder m)) @
     [[Attr ''embeddings'', Attr ''weight''], [Attr ''fc'', Attr ''weight''],
      [Attr ''fc'', Attr ''bias'']]"
  by (simp add: state_dict_def)

lemma keys_state_dict_distinct: "distinct (map fst (state_dict m))"
proof -
  let ?E = "fst ` set (state_dict_encoder [Attr ''encoder''] (encoder m))"
  let ?D = "fst ` set (state_dict_decoder [Attr ''decoder''] (decoder m))"
  have e: "prefix [Attr ''encoder''] k" if "k \<in> ?E" for k
    using that by (rule keys_encoder_prefix)
  have d: "prefix [Attr ''decoder''] k" if "k \<in> ?D" for k
    using that by (rule keys_decoder_prefix)
  have "False" if "k \<in> ?E" "k \<in> ?D" for k
  proof -
    from prefix_disjoint [of "[]", unfolded append_Nil, OF e [OF that(1)] d [OF that(2)]]
    have "Attr ''encoder'' = Attr ''decoder''" .
    then show False by simp
  qed
  then have 1: "?E \<inter> ?D = {}"
    unfolding disjoint_iff by (intro allI impI notI)
  have 2: "[Attr ''embeddings'', Attr ''weight''] \<notin> ?E" "[Attr ''fc'', Attr ''weight''] \<notin> ?E"
    "[Attr ''fc'', Attr ''bias''] \<notin> ?E"
  proof -
    show "[Attr ''embeddings'', Attr ''weight''] \<notin> ?E"
      using e [of "[Attr ''embeddings'', Attr ''weight'']"] by (intro notI) simp
    show "[Attr ''fc'', Attr ''weight''] \<notin> ?E"
      using e [of "[Attr ''fc'', Attr ''weight'']"] by (intro notI) simp
    show "[Attr ''fc'', Attr ''bias''] \<notin> ?E"
      using e [of "[Attr ''fc'', Attr ''bias'']"] by (intro notI) simp
  qed
  have 3: "[Attr ''embeddings'', Attr ''weight''] \<notin> ?D" "[Attr ''fc'', Attr ''weight''] \<notin> ?D"
    "[Attr ''fc'', Attr ''bias''] \<notin> ?D"
  proof -
    show "[Attr ''embeddings'', Attr ''weight''] \<notin> ?D"
      using d [of "[Attr ''embeddings'', Attr ''weight'']"] by (intro notI) simp
    show "[Attr ''fc'', Attr ''weight''] \<notin> ?D"
      using d [of "[Attr ''fc'', Attr ''weight'']"] by (intro notI) simp
    show "[Attr ''fc'', Attr ''bias''] \<notin> ?D"
      using d [of "[Attr ''fc'', Attr ''bias'']"] by (intro notI) simp
  qed
  have 4: "distinct [[Attr ''embeddings'', Attr ''weight''], [Attr ''fc'', Attr ''weight''],
      [Attr ''fc'', Attr ''bias'']]" by simp
  have dk: "distinct (map fst (state_dict_decoder [Attr ''decoder''] (decoder m)))"
    by (rule keys_decoder_distinct)
  have ek: "distinct (map fst (state_dict_encoder [Attr ''encoder''] (encoder m)))"
    by (rule keys_encoder_distinct)
  have s3: "set [[Attr ''embeddings'', Attr ''weight''], [Attr ''fc'', Attr ''weight''],
      [Attr ''fc'', Attr ''bias'']] =
     {[Attr ''embeddings'', Attr ''weight''], [Attr ''fc'', Attr ''weight''],
      [Attr ''fc'', Attr ''bias'']}" by simp
  have i3: "?D \<inter> {[Attr ''embeddings'', Attr ''weight''], [Attr ''fc'', Attr ''weight''],
      [Attr ''fc'', Attr ''bias'']} = {}"
    using 3 by (simp only: Int_insert_right if_False Int_empty_right)
  have j3: "?E \<inter> {[Attr ''embeddings'', Attr ''weight''], [Attr ''fc'', Attr ''weight''],
      [Attr ''fc'', Attr ''bias'']} = {}"
    using 2 by (simp only: Int_insert_right if_False Int_empty_right)
  have 5: "distinct (map fst (state_dict_decoder [Attr ''decoder''] (decoder m)) @
     [[Attr ''embeddings'', Attr ''weight''], [Attr ''fc'', Attr ''weight''],
      [Attr ''fc'', Attr ''bias'']])"
    unfolding distinct_append set_map s3 by (intro conjI dk 4 i3)
  have "?E \<inter> (?D \<union> {[Attr ''embeddings'', Attr ''weight''], [Attr ''fc'', Attr ''weight''],
      [Attr ''fc'', Attr ''bias'']}) = {}"
    unfolding Int_Un_distrib 1 j3 by (rule Un_empty_left)
  then show ?thesis
    unfolding keys_state_dict distinct_append [of "map fst (state_dict_encoder _ _)"]
      set_append set_map s3
    by (intro conjI ek 5)
qed

lemma state_dict_graph: "Map.graph (map_of (state_dict m)) = set (state_dict m)"
  by (rule graph_map_of_if_distinct_dom) (rule keys_state_dict_distinct)

section \<open>Construction and initialisation within one architecture\<close>

text \<open>
  Two runs of a constructor that differ in the initial draws only: both raise, or both
  return, with results of one architecture.
\<close>

lemma both_bind:
  assumes "rel_sum (\<lambda>_ _. True) R r r'"
    and "\<And>x x'. R x x' \<Longrightarrow> rel_sum (\<lambda>_ _. True) S (f x) (f' x')"
  shows "rel_sum (\<lambda>_ _. True) S (ebind r f) (ebind r' f')"
  using assms by (cases r; cases r') simp_all

lemma both_Inr: "rel_sum (\<lambda>_ _. True) R r r' \<Longrightarrow> r = Inr x \<Longrightarrow> \<exists>x'. r' = Inr x' \<and> R x x'"
  by (cases r') simp_all

lemma xavier_both:
  "shape p = shape p' \<Longrightarrow>
     rel_sum (\<lambda>_ _. True) (\<lambda>t t'. shape t = shape t') (xavier_uniform v p) (xavier_uniform v' p')"
  by (simp add: xavier_uniform_def Let_def)

lemma init_linear_both:
  assumes "arch_linear l = arch_linear l'"
  shows "rel_sum (\<lambda>_ _. True) (\<lambda>x y. arch_linear x = arch_linear y)
           (init_linear rng l) (init_linear rng' l')"
proof -
  from assms have s: "shape (lin_weight l) = shape (lin_weight l')"
    "shape (lin_bias l) = shape (lin_bias l')" by (simp_all add: arch_linear_eq)
  show ?thesis
  proof (cases "length (shape (lin_weight l)) > 1")
    case True
    then have t: "length (shape (lin_weight l')) > 1" using s by simp
    show ?thesis
      unfolding init_linear_def using True t
      by (simp only: if_True) (rule both_bind [OF xavier_both [OF s(1)]], simp add: arch_linear_eq s)
  next
    case False
    then have t: "\<not> length (shape (lin_weight l')) > 1" using s by simp
    show ?thesis
      unfolding init_linear_def using False t assms by (simp only: if_False) simp
  qed
qed

lemma init_mha_both:
  assumes "arch_mha a = arch_mha a'"
  shows "rel_sum (\<lambda>_ _. True) (\<lambda>x y. arch_mha x = arch_mha y) (init_mha rng a) (init_mha rng' a')"
proof -
  from assms have s: "arch_linear (q_weights a) = arch_linear (q_weights a')"
    "arch_linear (k_weights a) = arch_linear (k_weights a')"
    "arch_linear (v_weights a) = arch_linear (v_weights a')"
    "arch_linear (proj a) = arch_linear (proj a')"
    and o: "n_heads a = n_heads a'" "mha_embed_size a = mha_embed_size a'"
    "head_dim a = head_dim a'" "sdpa_p a = sdpa_p a'"
    by (simp_all add: arch_mha_eq)
  show ?thesis
    unfolding init_mha_def
    by (rule both_bind [OF init_linear_both [OF s(1)]],
        rule both_bind [OF init_linear_both [OF s(2)]],
        rule both_bind [OF init_linear_both [OF s(3)]],
        rule both_bind [OF init_linear_both [OF s(4)]])
       (simp add: arch_mha_eq o)
qed

lemma init_ff_both:
  assumes "arch_ff f = arch_ff f'"
  shows "rel_sum (\<lambda>_ _. True) (\<lambda>x y. arch_ff x = arch_ff y) (init_ff rng f) (init_ff rng' f')"
proof -
  from assms have s: "arch_linear (ff_lin1 f) = arch_linear (ff_lin1 f')"
    "arch_linear (ff_lin2 f) = arch_linear (ff_lin2 f')" and o: "ff_p f = ff_p f'"
    by (simp_all add: arch_ff_eq)
  show ?thesis
    unfolding init_ff_def
    by (rule both_bind [OF init_linear_both [OF s(1)]],
        rule both_bind [OF init_linear_both [OF s(2)]])
       (simp add: arch_ff_eq o)
qed

lemma init_encoder_layer_both:
  assumes "arch_encoder_layer l = arch_encoder_layer l'"
  shows "rel_sum (\<lambda>_ _. True) (\<lambda>x y. arch_encoder_layer x = arch_encoder_layer y)
           (init_encoder_layer rng l) (init_encoder_layer rng' l')"
proof -
  from assms have s: "arch_ff (enc_ff l) = arch_ff (enc_ff l')"
    "arch_mha (enc_mha l) = arch_mha (enc_mha l')"
    and o: "enc_dropout1 l = enc_dropout1 l'" "enc_dropout2 l = enc_dropout2 l'"
    "enc_post_ln l = enc_post_ln l'"
    "arch_layer_norm (enc_ln1 l) = arch_layer_norm (enc_ln1 l')"
    "arch_layer_norm (enc_ln2 l) = arch_layer_norm (enc_ln2 l')"
    by (simp_all add: arch_encoder_layer_eq)
  show ?thesis
    unfolding init_encoder_layer_def
    by (rule both_bind [OF init_ff_both [OF s(1)]],
        rule both_bind [OF init_mha_both [OF s(2)]])
       (simp add: arch_encoder_layer_eq o)
qed

lemma init_decoder_layer_both:
  assumes "arch_decoder_layer l = arch_decoder_layer l'"
  shows "rel_sum (\<lambda>_ _. True) (\<lambda>x y. arch_decoder_layer x = arch_decoder_layer y)
           (init_decoder_layer rng l) (init_decoder_layer rng' l')"
proof -
  from assms have s: "arch_ff (dec_ff l) = arch_ff (dec_ff l')"
    "arch_mha (dec_mha l) = arch_mha (dec_mha l')"
    "arch_mha (dec_mmha l) = arch_mha (dec_mmha l')"
    and o: "dec_dropout1 l = dec_dropout1 l'" "dec_dropout2 l = dec_dropout2 l'"
    "dec_dropout3 l = dec_dropout3 l'" "dec_post_ln l = dec_post_ln l'"
    "arch_layer_norm (dec_ln1 l) = arch_layer_norm (dec_ln1 l')"
    "arch_layer_norm (dec_ln2 l) = arch_layer_norm (dec_ln2 l')"
    "arch_layer_norm (dec_ln3 l) = arch_layer_norm (dec_ln3 l')"
    by (simp_all add: arch_decoder_layer_eq)
  show ?thesis
    unfolding init_decoder_layer_def
    by (rule both_bind [OF init_ff_both [OF s(1)]],
        rule both_bind [OF init_mha_both [OF s(2)]],
        rule both_bind [OF init_mha_both [OF s(3)]])
       (simp add: arch_decoder_layer_eq o)
qed

lemma init_layers_both:
  assumes "\<forall>rng rng' l l'. g l = g l' \<longrightarrow>
      rel_sum (\<lambda>_ _. True) (\<lambda>x y. g x = g y) (f rng l) (f rng' l')"
  shows "map g ls = map g ls' \<Longrightarrow>
     rel_sum (\<lambda>_ _. True) (\<lambda>xs ys. map g xs = map g ys)
       (init_layers f rng i ls) (init_layers f rng' i ls')"
proof (induction ls arbitrary: ls' i)
  case Nil
  then show ?case by simp
next
  case (Cons l ls)
  from Cons.prems obtain l' ls2 where s: "ls' = l' # ls2" "g l = g l'" "map g ls = map g ls2"
    by (cases ls') auto
  from assms s(2) have h: "rel_sum (\<lambda>_ _. True) (\<lambda>x y. g x = g y) (f (sub rng i) l) (f (sub rng' i) l')"
    by simp
  show ?case
    unfolding s(1) init_layers.simps
    by (rule both_bind [OF h], rule both_bind [OF Cons.IH [OF s(3)]]) simp
qed

subsection \<open>The constructors\<close>

lemma build_layers_both:
  assumes "\<forall>i. rel_sum (\<lambda>_ _. True) (\<lambda>x y. g x = g y) (mk i) (mk' i)"
  shows "rel_sum (\<lambda>_ _. True) (\<lambda>xs ys. map g xs = map g ys)
           (build_layers mk ixs) (build_layers mk' ixs)"
proof (induction ixs)
  case Nil
  then show ?case by simp
next
  case (Cons i ixs)
  from assms have h: "rel_sum (\<lambda>_ _. True) (\<lambda>x y. g x = g y) (mk i) (mk' i)" by simp
  show ?case
    unfolding build_layers.simps
    by (rule both_bind [OF h], rule both_bind [OF Cons.IH]) simp
qed

lemma MultiHeadAttention_init_both:
  "rel_sum (\<lambda>_ _. True) (\<lambda>x y. arch_mha x = arch_mha y)
     (MultiHeadAttention_init rng nh e ud) (MultiHeadAttention_init rng' nh e ud)"
  by (simp add: MultiHeadAttention_init_def arch_mha_eq arch_linear_eq Linear_init_def)

lemma FeedForward_init_both:
  "arch_ff (FeedForward_init rng e dff ud) = arch_ff (FeedForward_init rng' e dff ud)"
  by (simp add: FeedForward_init_def arch_ff_eq arch_linear_eq Linear_init_def)

lemma EncoderLayer_init_both:
  "rel_sum (\<lambda>_ _. True) (\<lambda>x y. arch_encoder_layer x = arch_encoder_layer y)
     (EncoderLayer_init rng nh e dff pl ud) (EncoderLayer_init rng' nh e dff pl ud)"
  unfolding EncoderLayer_init_def Let_def
  by (rule both_bind [OF MultiHeadAttention_init_both])
     (simp add: arch_encoder_layer_eq FeedForward_init_both [of "sub rng 0" _ _ _ "sub rng' 0"])

lemma DecoderLayer_init_both:
  "rel_sum (\<lambda>_ _. True) (\<lambda>x y. arch_decoder_layer x = arch_decoder_layer y)
     (DecoderLayer_init rng nh e dff pl ud) (DecoderLayer_init rng' nh e dff pl ud)"
  unfolding DecoderLayer_init_def Let_def
  by (rule both_bind [OF MultiHeadAttention_init_both],
      rule both_bind [OF MultiHeadAttention_init_both])
     (simp add: arch_decoder_layer_eq FeedForward_init_both [of "sub rng 0" _ _ _ "sub rng' 0"])

lemma Encoder_init_both:
  "rel_sum (\<lambda>_ _. True) (\<lambda>x y. arch_encoder x = arch_encoder y)
     (Encoder_init rng n nh e dff pl ud) (Encoder_init rng' n nh e dff pl ud)"
proof -
  have "\<forall>i. rel_sum (\<lambda>_ _. True) (\<lambda>x y. arch_encoder_layer x = arch_encoder_layer y)
      (EncoderLayer_init (sub rng i) nh e dff pl ud) (EncoderLayer_init (sub rng' i) nh e dff pl ud)"
    by (intro allI) (rule EncoderLayer_init_both)
  from build_layers_both [where g = arch_encoder_layer, OF this]
  show ?thesis
    unfolding Encoder_init_def
    by (rule both_bind) (simp add: arch_encoder_eq)
qed

lemma Decoder_init_both:
  "rel_sum (\<lambda>_ _. True) (\<lambda>x y. arch_decoder x = arch_decoder y)
     (Decoder_init rng n nh e dff pl ud) (Decoder_init rng' n nh e dff pl ud)"
proof -
  have "\<forall>i. rel_sum (\<lambda>_ _. True) (\<lambda>x y. arch_decoder_layer x = arch_decoder_layer y)
      (DecoderLayer_init (sub rng i) nh e dff pl ud) (DecoderLayer_init (sub rng' i) nh e dff pl ud)"
    by (intro allI) (rule DecoderLayer_init_both)
  from build_layers_both [where g = arch_decoder_layer, OF this]
  show ?thesis
    unfolding Decoder_init_def
    by (rule both_bind) (simp add: arch_decoder_eq)
qed

section \<open>Models of one architecture\<close>

lemma same_architecture_refl: "same_architecture m m"
  by (simp add: same_architecture_def)

lemma same_architectureD:
  assumes "same_architecture m m'"
  shows "config m = config m'"
    and "pos_enc m = pos_enc m'"
    and "arch_encoder (encoder m) = arch_encoder (encoder m')"
    and "arch_decoder (decoder m) = arch_decoder (decoder m')"
    and "sqrt_dmodel m = sqrt_dmodel m'"
    and "dropout_p m = dropout_p m'"
    and "embeddings_weight m = embeddings_weight m'"
    and "fc_weight m = fc_weight m'"
    and "shape (storage m (embeddings_weight m)) = shape (storage m' (embeddings_weight m'))"
    and "shape (storage m (fc_weight m)) = shape (storage m' (fc_weight m'))"
    and "shape (fc_bias m) = shape (fc_bias m')"
proof -
  note u = assms [unfolded same_architecture_def]
  show "config m = config m'"
    by (rule u [THEN conjunct1])
  show "pos_enc m = pos_enc m'"
    by (rule u [THEN conjunct2, THEN conjunct1])
  show "arch_encoder (encoder m) = arch_encoder (encoder m')"
    by (rule u [THEN conjunct2, THEN conjunct2, THEN conjunct1])
  show "arch_decoder (decoder m) = arch_decoder (decoder m')"
    by (rule u [THEN conjunct2, THEN conjunct2, THEN conjunct2, THEN conjunct1])
  show "sqrt_dmodel m = sqrt_dmodel m'"
    by (rule u [THEN conjunct2, THEN conjunct2, THEN conjunct2, THEN conjunct2, THEN conjunct1])
  show "dropout_p m = dropout_p m'"
    by (rule u [THEN conjunct2, THEN conjunct2, THEN conjunct2, THEN conjunct2, THEN conjunct2, THEN conjunct1])
  show "embeddings_weight m = embeddings_weight m'"
    by (rule u [THEN conjunct2, THEN conjunct2, THEN conjunct2, THEN conjunct2, THEN conjunct2, THEN conjunct2, THEN conjunct1])
  show "fc_weight m = fc_weight m'"
    by (rule u [THEN conjunct2, THEN conjunct2, THEN conjunct2, THEN conjunct2, THEN conjunct2, THEN conjunct2, THEN conjunct2, THEN conjunct1])
  show "shape (storage m (embeddings_weight m)) = shape (storage m' (embeddings_weight m'))"
    by (rule u [THEN conjunct2, THEN conjunct2, THEN conjunct2, THEN conjunct2, THEN conjunct2, THEN conjunct2, THEN conjunct2, THEN conjunct2, THEN conjunct1])
  show "shape (storage m (fc_weight m)) = shape (storage m' (fc_weight m'))"
    by (rule u [THEN conjunct2, THEN conjunct2, THEN conjunct2, THEN conjunct2, THEN conjunct2, THEN conjunct2, THEN conjunct2, THEN conjunct2, THEN conjunct2, THEN conjunct1])
  show "shape (fc_bias m) = shape (fc_bias m')"
    by (rule u [THEN conjunct2, THEN conjunct2, THEN conjunct2, THEN conjunct2, THEN conjunct2, THEN conjunct2, THEN conjunct2, THEN conjunct2, THEN conjunct2, THEN conjunct2])
qed

lemma same_architectureI:
  assumes "config m = config m'"
    and "pos_enc m = pos_enc m'"
    and "arch_encoder (encoder m) = arch_encoder (encoder m')"
    and "arch_decoder (decoder m) = arch_decoder (decoder m')"
    and "sqrt_dmodel m = sqrt_dmodel m'"
    and "dropout_p m = dropout_p m'"
    and "embeddings_weight m = embeddings_weight m'"
    and "fc_weight m = fc_weight m'"
    and "shape (storage m (embeddings_weight m)) = shape (storage m' (embeddings_weight m'))"
    and "shape (storage m (fc_weight m)) = shape (storage m' (fc_weight m'))"
    and "shape (fc_bias m) = shape (fc_bias m')"
  shows "same_architecture m m'"
  unfolding same_architecture_def by (intro conjI assms)

lemma same_architecture_sym:
  assumes "same_architecture m m'"
  shows "same_architecture m' m"
  by (rule same_architectureI) (rule same_architectureD [OF assms, symmetric])+

lemma same_architecture_trans:
  assumes "same_architecture m m'" "same_architecture m' m''"
  shows "same_architecture m m''"
  by (rule same_architectureI)
     (rule trans [OF same_architectureD(1) [OF assms(1)] same_architectureD(1) [OF assms(2)]],
      rule trans [OF same_architectureD(2) [OF assms(1)] same_architectureD(2) [OF assms(2)]],
      rule trans [OF same_architectureD(3) [OF assms(1)] same_architectureD(3) [OF assms(2)]],
      rule trans [OF same_architectureD(4) [OF assms(1)] same_architectureD(4) [OF assms(2)]],
      rule trans [OF same_architectureD(5) [OF assms(1)] same_architectureD(5) [OF assms(2)]],
      rule trans [OF same_architectureD(6) [OF assms(1)] same_architectureD(6) [OF assms(2)]],
      rule trans [OF same_architectureD(7) [OF assms(1)] same_architectureD(7) [OF assms(2)]],
      rule trans [OF same_architectureD(8) [OF assms(1)] same_architectureD(8) [OF assms(2)]],
      rule trans [OF same_architectureD(9) [OF assms(1)] same_architectureD(9) [OF assms(2)]],
      rule trans [OF same_architectureD(10) [OF assms(1)] same_architectureD(10) [OF assms(2)]],
      rule trans [OF same_architectureD(11) [OF assms(1)] same_architectureD(11) [OF assms(2)]])

lemma same_architecture_mode: "same_architecture (m\<lparr>training := b\<rparr>) m"
  by (simp add: same_architecture_def)

lemma update_both:
  assumes sa: "same_architecture m m'"
    and a: "a = embeddings_weight m \<or> a = fc_weight m"
    and w: "shape w = shape (storage m a)" "shape w' = shape (storage m' a)"
  shows "same_architecture (update_inplace a w m) (update_inplace a w' m')"
proof -
  note d = same_architectureD [OF sa]
  have ww: "shape w = shape w'"
  proof -
    from a consider "a = embeddings_weight m" | "a = fc_weight m" by auto
    then show ?thesis
    proof cases
      case 1
      then have "shape (storage m a) = shape (storage m' a)" using d(9) d(7) by simp
      with w show ?thesis by simp
    next
      case 2
      then have "shape (storage m a) = shape (storage m' a)" using d(10) d(8) by simp
      with w show ?thesis by simp
    qed
  qed
  have e: "shape (storage (update_inplace a w m) (embeddings_weight (update_inplace a w m))) =
           shape (storage (update_inplace a w' m') (embeddings_weight (update_inplace a w' m')))"
  proof (cases "a = embeddings_weight m")
    case True
    then have "a = embeddings_weight m'" using d(7) by simp
    with True ww show ?thesis by (simp add: update_inplace_def)
  next
    case False
    then have "a \<noteq> embeddings_weight m'" using d(7) by simp
    with False d(9) show ?thesis by (simp add: update_inplace_def)
  qed
  have f: "shape (storage (update_inplace a w m) (fc_weight (update_inplace a w m))) =
           shape (storage (update_inplace a w' m') (fc_weight (update_inplace a w' m')))"
  proof (cases "a = fc_weight m")
    case True
    then have "a = fc_weight m'" using d(8) by simp
    with True ww show ?thesis by (simp add: update_inplace_def)
  next
    case False
    then have "a \<noteq> fc_weight m'" using d(8) by simp
    with False d(10) show ?thesis by (simp add: update_inplace_def)
  qed
  show ?thesis
  proof (rule same_architectureI)
    show "shape (storage (update_inplace a w m) (embeddings_weight (update_inplace a w m))) =
           shape (storage (update_inplace a w' m') (embeddings_weight (update_inplace a w' m')))"
      by (rule e)
    show "shape (storage (update_inplace a w m) (fc_weight (update_inplace a w m))) =
           shape (storage (update_inplace a w' m') (fc_weight (update_inplace a w' m')))"
      by (rule f)
  qed (simp_all add: update_inplace_def d)
qed

lemma xavier_update_both:
  assumes sa: "same_architecture m m'" and a: "a = embeddings_weight m \<or> a = fc_weight m"
  shows "rel_sum (\<lambda>_ _. True) same_architecture
     (ebind (xavier_uniform v (storage m a)) (\<lambda>w. Inr (update_inplace a w m)))
     (ebind (xavier_uniform v' (storage m' a)) (\<lambda>w. Inr (update_inplace a w m')))"
proof -
  note d = same_architectureD [OF sa]
  have s: "shape (storage m a) = shape (storage m' a)"
  proof -
    from a consider "a = embeddings_weight m" | "a = fc_weight m" by auto
    then show ?thesis
    proof cases
      case 1
      then show ?thesis using d(9) d(7) by simp
    next
      case 2
      then show ?thesis using d(10) d(8) by simp
    qed
  qed
  have x: "rel_sum (\<lambda>_ _. True)
      (\<lambda>t t'. shape t = shape (storage m a) \<and> shape t' = shape (storage m' a))
      (xavier_uniform v (storage m a)) (xavier_uniform v' (storage m' a))"
    using s by (simp add: xavier_uniform_def Let_def)
  show ?thesis
    by (rule both_bind [OF x]) (simp add: update_both [OF sa a])
qed

lemma init_params_both:
  assumes sa: "same_architecture m m'"
  shows "rel_sum (\<lambda>_ _. True) same_architecture (init_params rng m) (init_params rng' m')"
proof -
  note sd = same_architectureD [OF sa]
  from sd(3) have e: "map arch_encoder_layer (encoder_layers (encoder m)) =
                   map arch_encoder_layer (encoder_layers (encoder m'))"
    and ef: "map_option arch_layer_norm (enc_final_ln (encoder m)) =
             map_option arch_layer_norm (enc_final_ln (encoder m'))"
    by (simp_all add: arch_encoder_eq)
  from sd(4) have d: "map arch_decoder_layer (decoder_layers (decoder m)) =
            map arch_decoder_layer (decoder_layers (decoder m'))"
    and df: "map_option arch_layer_norm (dec_final_ln (decoder m)) =
             map_option arch_layer_norm (dec_final_ln (decoder m'))"
    by (simp_all add: arch_decoder_eq)
  have he: "\<forall>rng rng' l l'. arch_encoder_layer l = arch_encoder_layer l' \<longrightarrow>
      rel_sum (\<lambda>_ _. True) (\<lambda>x y. arch_encoder_layer x = arch_encoder_layer y)
        (init_encoder_layer rng l) (init_encoder_layer rng' l')"
    by (intro allI impI) (rule init_encoder_layer_both)
  have hd: "\<forall>rng rng' l l'. arch_decoder_layer l = arch_decoder_layer l' \<longrightarrow>
      rel_sum (\<lambda>_ _. True) (\<lambda>x y. arch_decoder_layer x = arch_decoder_layer y)
        (init_decoder_layer rng l) (init_decoder_layer rng' l')"
    by (intro allI impI) (rule init_decoder_layer_both)
  note re = init_layers_both [where g = arch_encoder_layer and f = init_encoder_layer,
      OF he e, of "sub rng 0" 0 "sub rng' 0"]
  note rd = init_layers_both [where g = arch_decoder_layer and f = init_decoder_layer,
      OF hd d, of "sub rng 1" 0 "sub rng' 1"]
  have step: "rel_sum (\<lambda>_ _. True) same_architecture
      (let m = m\<lparr>encoder := (encoder m)\<lparr>encoder_layers := els\<rparr>,
                 decoder := (decoder m)\<lparr>decoder_layers := dls\<rparr>\<rparr>
       in ebind (if length (shape (storage m (embeddings_weight m))) > 1
            then ebind (xavier_uniform (rng [2]) (storage m (embeddings_weight m))) (\<lambda>w.
                   Inr (update_inplace (embeddings_weight m) w m))
            else Inr m) (\<lambda>m.
          if fc_weight m \<noteq> embeddings_weight m \<and> length (shape (storage m (fc_weight m))) > 1
          then ebind (xavier_uniform (rng [3]) (storage m (fc_weight m))) (\<lambda>w.
                 Inr (update_inplace (fc_weight m) w m))
          else Inr m))
      (let m = m'\<lparr>encoder := (encoder m')\<lparr>encoder_layers := els'\<rparr>,
                  decoder := (decoder m')\<lparr>decoder_layers := dls'\<rparr>\<rparr>
       in ebind (if length (shape (storage m (embeddings_weight m))) > 1
            then ebind (xavier_uniform (rng' [2]) (storage m (embeddings_weight m))) (\<lambda>w.
                   Inr (update_inplace (embeddings_weight m) w m))
            else Inr m) (\<lambda>m.
          if fc_weight m \<noteq> embeddings_weight m \<and> length (shape (storage m (fc_weight m))) > 1
          then ebind (xavier_uniform (rng' [3]) (storage m (fc_weight m))) (\<lambda>w.
                 Inr (update_inplace (fc_weight m) w m))
          else Inr m))"
    if ee: "map arch_encoder_layer els = map arch_encoder_layer els'"
      and dd: "map arch_decoder_layer dls = map arch_decoder_layer dls'"
    for els els' dls dls'
  proof -
    define m1 where "m1 = m\<lparr>encoder := (encoder m)\<lparr>encoder_layers := els\<rparr>,
                           decoder := (decoder m)\<lparr>decoder_layers := dls\<rparr>\<rparr>"
    define m1' where "m1' = m'\<lparr>encoder := (encoder m')\<lparr>encoder_layers := els'\<rparr>,
                             decoder := (decoder m')\<lparr>decoder_layers := dls'\<rparr>\<rparr>"
    have s1: "same_architecture m1 m1'"
      by (rule same_architectureI;
          (simp add: m1_def m1'_def, (rule sd | simp add: arch_encoder_eq arch_decoder_eq ee dd ef df)))
    have first: "rel_sum (\<lambda>_ _. True) same_architecture
        (if length (shape (storage m1 (embeddings_weight m1))) > 1
         then ebind (xavier_uniform (rng [2]) (storage m1 (embeddings_weight m1))) (\<lambda>w.
                Inr (update_inplace (embeddings_weight m1) w m1))
         else Inr m1)
        (if length (shape (storage m1' (embeddings_weight m1'))) > 1
         then ebind (xavier_uniform (rng' [2]) (storage m1' (embeddings_weight m1'))) (\<lambda>w.
                Inr (update_inplace (embeddings_weight m1') w m1'))
         else Inr m1')"
    proof -
      note d1 = same_architectureD [OF s1]
      have a: "embeddings_weight m1' = embeddings_weight m1" by (rule d1(7) [symmetric])
      have l: "shape (storage m1' (embeddings_weight m1)) = shape (storage m1 (embeddings_weight m1))"
        using d1(9) a by simp
      show ?thesis
        unfolding a l
        by (cases "length (shape (storage m1 (embeddings_weight m1))) > 1")
           (simp_all only: if_True if_False simp_thms rel_sum_simps s1 xavier_update_both [OF s1 disjI1 [OF refl]])
    qed
    have second: "rel_sum (\<lambda>_ _. True) same_architecture
        (if fc_weight m2 \<noteq> embeddings_weight m2 \<and> length (shape (storage m2 (fc_weight m2))) > 1
         then ebind (xavier_uniform (rng [3]) (storage m2 (fc_weight m2))) (\<lambda>w.
                Inr (update_inplace (fc_weight m2) w m2))
         else Inr m2)
        (if fc_weight m2' \<noteq> embeddings_weight m2' \<and>
            length (shape (storage m2' (fc_weight m2'))) > 1
         then ebind (xavier_uniform (rng' [3]) (storage m2' (fc_weight m2'))) (\<lambda>w.
                Inr (update_inplace (fc_weight m2') w m2'))
         else Inr m2')"
      if s2: "same_architecture m2 m2'" for m2 m2'
    proof -
      note d2 = same_architectureD [OF s2]
      have a: "embeddings_weight m2' = embeddings_weight m2" "fc_weight m2' = fc_weight m2"
        by (rule d2(7) [symmetric], rule d2(8) [symmetric])
      have l: "shape (storage m2' (fc_weight m2)) = shape (storage m2 (fc_weight m2))"
        using d2(10) a by simp
      show ?thesis
        unfolding a l
        by (cases "fc_weight m2 \<noteq> embeddings_weight m2 \<and>
                   length (shape (storage m2 (fc_weight m2))) > 1")
           (simp_all only: if_True if_False simp_thms rel_sum_simps s2 xavier_update_both [OF s2 disjI2 [OF refl]])
    qed
    show ?thesis
      unfolding Let_def m1_def [symmetric] m1'_def [symmetric]
      by (rule both_bind [OF first]) (rule second)
  qed
  show ?thesis
    unfolding init_params_def
    by (rule both_bind [OF re], rule both_bind [OF rd]) (rule step)
qed

lemma Transformer_init_both:
  "rel_sum (\<lambda>_ _. True) same_architecture (Transformer_init cfg init) (Transformer_init cfg init')"
proof -
  have last: "rel_sum (\<lambda>_ _. True) same_architecture
      (let embeddings = \<lparr>shape = [vocab_size cfg, embed_size cfg], elem = init [2]\<rparr>;
           fc = Linear_init (sub init 3) (embed_size cfg) (vocab_size cfg);
           m = \<lparr>config = cfg, pos_enc = pe, encoder = enc, decoder = dec,
                sqrt_dmodel = sqrt (real (embed_size cfg)),
                storage = (\<lambda>a. if a = 0 then embeddings else lin_weight fc),
                embeddings_weight = 0, fc_weight = 1, fc_bias = lin_bias fc,
                dropout_p = 1 / 10, training = True\<rparr>;
           m = (if tie_embeddings cfg then m\<lparr>embeddings_weight := fc_weight m\<rparr> else m)
       in if xavier_initialization cfg then init_params (sub init 4) m else Inr m)
      (let embeddings = \<lparr>shape = [vocab_size cfg, embed_size cfg], elem = init' [2]\<rparr>;
           fc = Linear_init (sub init' 3) (embed_size cfg) (vocab_size cfg);
           m = \<lparr>config = cfg, pos_enc = pe, encoder = enc', decoder = dec',
                sqrt_dmodel = sqrt (real (embed_size cfg)),
                storage = (\<lambda>a. if a = 0 then embeddings else lin_weight fc),
                embeddings_weight = 0, fc_weight = 1, fc_bias = lin_bias fc,
                dropout_p = 1 / 10, training = True\<rparr>;
           m = (if tie_embeddings cfg then m\<lparr>embeddings_weight := fc_weight m\<rparr> else m)
       in if xavier_initialization cfg then init_params (sub init' 4) m else Inr m)"
    if e: "arch_encoder enc = arch_encoder enc'" and d: "arch_decoder dec = arch_decoder dec'"
    for pe enc enc' dec dec'
  proof -
    define m0 where "m0 = (\<lambda>rng en de. \<lparr>config = cfg, pos_enc = pe, encoder = en, decoder = de,
        sqrt_dmodel = sqrt (real (embed_size cfg)),
        storage = (\<lambda>a. if a = 0
           then \<lparr>shape = [vocab_size cfg, embed_size cfg], elem = rng [2]\<rparr>
           else lin_weight (Linear_init (sub rng 3) (embed_size cfg) (vocab_size cfg))),
        embeddings_weight = (if tie_embeddings cfg then 1 else 0), fc_weight = 1,
        fc_bias = lin_bias (Linear_init (sub rng 3) (embed_size cfg) (vocab_size cfg)),
        dropout_p = 1 / 10, training = True\<rparr>)"
    have s0: "same_architecture (m0 init enc dec) (m0 init' enc' dec')"
      by (rule same_architectureI) (simp_all add: m0_def Linear_init_def e d)
    have "rel_sum (\<lambda>_ _. True) same_architecture
        (if xavier_initialization cfg then init_params (sub init 4) (m0 init enc dec)
         else Inr (m0 init enc dec))
        (if xavier_initialization cfg then init_params (sub init' 4) (m0 init' enc' dec')
         else Inr (m0 init' enc' dec'))"
      by (cases "xavier_initialization cfg")
         (simp_all only: if_True if_False rel_sum_simps s0 init_params_both [OF s0])
    then show ?thesis
      by (cases "tie_embeddings cfg"; cases "xavier_initialization cfg")
         (simp_all add: Let_def m0_def)
  qed
  have pe: "rel_sum (\<lambda>_ _. True) (=) (positional_encoding (max_len cfg) (embed_size cfg))
      (positional_encoding (max_len cfg) (embed_size cfg))"
    by (cases "positional_encoding (max_len cfg) (embed_size cfg)") simp_all
  show ?thesis
    unfolding Transformer_init_def
    by (rule both_bind [OF pe], rule both_bind [OF Encoder_init_both],
        rule both_bind [OF Decoder_init_both]) (simp only: last)
qed

section \<open>The persistence round trip\<close>

lemma load_state_dict_saved:
  assumes sa: "same_architecture m1 m"
  shows "\<exists>m'. load_state_dict m1 (state_dict m) = Inr m' \<and> same_architecture m' m \<and>
           encoder m' = encoder m \<and> decoder m' = decoder m \<and> fc_bias m' = fc_bias m \<and>
           storage m' (embeddings_weight m') = storage m (embeddings_weight m) \<and>
           storage m' (fc_weight m') = storage m (fc_weight m) \<and> training m' = training m1"
proof -
  note d = same_architectureD [OF sa]
  let ?sd = "state_dict m"
  have keys: "map fst (state_dict m1) = map fst ?sd"
    unfolding keys_state_dict keys_encoder_cong [OF d(3)] keys_decoder_cong [OF d(4)] by (rule refl)
  have chk: "list_all (\<lambda>k. k \<in> set (map fst (state_dict m1))) (map fst ?sd)"
    unfolding keys by (simp add: list_all_iff)
  have enc: "load_encoder ?sd [Attr ''encoder''] (encoder m1) = Inr (encoder m)"
    by (rule load_encoder_saved [OF _ d(3)]) (unfold state_dict_graph, auto simp add: state_dict_def)
  have dec: "load_decoder ?sd [Attr ''decoder''] (decoder m1) = Inr (decoder m)"
    by (rule load_decoder_saved [OF _ d(4)]) (unfold state_dict_graph, auto simp add: state_dict_def)
  have ew: "load_param ?sd [Attr ''embeddings'', Attr ''weight''] (storage m1 (embeddings_weight m1)) =
      Inr (storage m (embeddings_weight m))"
    by (rule load_param_hit [OF _ d(9)]) (unfold state_dict_graph, auto simp add: state_dict_def)
  have fw: "load_param ?sd [Attr ''fc'', Attr ''weight''] (storage m1 (fc_weight m1)) =
      Inr (storage m (fc_weight m))"
    by (rule load_param_hit [OF _ d(10)]) (unfold state_dict_graph, auto simp add: state_dict_def)
  have fb: "load_param ?sd [Attr ''fc'', Attr ''bias''] (fc_bias m1) = Inr (fc_bias m)"
    by (rule load_param_hit [OF _ d(11)]) (unfold state_dict_graph, auto simp add: state_dict_def)
  define m' where "m' = update_inplace (fc_weight m1) (storage m (fc_weight m))
      (update_inplace (embeddings_weight m1) (storage m (embeddings_weight m))
         (m1\<lparr>encoder := encoder m, decoder := decoder m, fc_bias := fc_bias m\<rparr>))"
  have l: "load_state_dict m1 ?sd = Inr m'"
    unfolding load_state_dict_def using chk by (simp add: enc dec ew fw fb m'_def)
  have a: "embeddings_weight m' = embeddings_weight m" "fc_weight m' = fc_weight m"
    using d(7,8) by (simp_all add: m'_def update_inplace_def)
  have se: "storage m' (embeddings_weight m') = storage m (embeddings_weight m)"
  proof (cases "embeddings_weight m = fc_weight m")
    case True
    then show ?thesis using d(7,8) by (simp add: m'_def update_inplace_def)
  next
    case False
    then show ?thesis using d(7,8) by (simp add: m'_def update_inplace_def)
  qed
  have sf: "storage m' (fc_weight m') = storage m (fc_weight m)"
    using d(8) by (simp add: m'_def update_inplace_def)
  have o: "config m' = config m" "pos_enc m' = pos_enc m" "sqrt_dmodel m' = sqrt_dmodel m"
    "dropout_p m' = dropout_p m" "encoder m' = encoder m" "decoder m' = decoder m"
    "fc_bias m' = fc_bias m" "training m' = training m1"
    using d(1,2,5,6) by (simp_all add: m'_def update_inplace_def)
  have "same_architecture m' m"
    by (rule same_architectureI) (simp_all add: o a se [unfolded a] sf [unfolded a])
  with l o se sf show ?thesis by (intro exI [of _ m']) simp
qed

lemma load_state_dict_arch:
  assumes "load_state_dict m sd = Inr m'"
  shows "same_architecture m' m"
proof -
  from assms obtain enc dec ew fw fb where
    e: "load_encoder sd [Attr ''encoder''] (encoder m) = Inr enc"
    and d: "load_decoder sd [Attr ''decoder''] (decoder m) = Inr dec"
    and w: "load_param sd [Attr ''embeddings'', Attr ''weight''] (storage m (embeddings_weight m)) =
        Inr ew"
    "load_param sd [Attr ''fc'', Attr ''weight''] (storage m (fc_weight m)) = Inr fw"
    "load_param sd [Attr ''fc'', Attr ''bias''] (fc_bias m) = Inr fb"
    and m': "m' = update_inplace (fc_weight m) fw (update_inplace (embeddings_weight m) ew
                  (m\<lparr>encoder := enc, decoder := dec, fc_bias := fb\<rparr>))"
    by (auto simp add: load_state_dict_def ebind_Inr_iff split: if_splits)
  note s = load_param_shape [OF w(1)] load_param_shape [OF w(2)] load_param_shape [OF w(3)]
  have se: "shape (storage m' (embeddings_weight m')) = shape (storage m (embeddings_weight m))"
    using s by (cases "embeddings_weight m = fc_weight m") (simp_all add: m' update_inplace_def)
  have sf: "shape (storage m' (fc_weight m')) = shape (storage m (fc_weight m))"
    using s by (simp add: m' update_inplace_def)
  show ?thesis
    by (rule same_architectureI)
       (simp_all add: se sf, simp_all add: m' update_inplace_def load_encoder_arch [OF e]
          load_decoder_arch [OF d] s)
qed

lemma constructed_architecture:
  "constructed m \<Longrightarrow> \<exists>cfg init m0. Transformer_init cfg init = Inr m0 \<and> same_architecture m m0"
proof (induction rule: constructed.induct)
  case (built cfg init m)
  then show ?case by (intro exI [of _ cfg] exI [of _ init] exI [of _ m]) (simp add: same_architecture_refl)
next
  case (loaded m sd m')
  from loaded.IH obtain cfg init m0 where i: "Transformer_init cfg init = Inr m0"
    and s: "same_architecture m m0" by (elim exE conjE)
  from same_architecture_trans [OF load_state_dict_arch [OF loaded.hyps(2)] s] i
  show ?case by (intro exI [of _ cfg] exI [of _ init] exI [of _ m0]) simp
next
  case (mode m b)
  from mode.IH obtain cfg init m0 where i: "Transformer_init cfg init = Inr m0"
    and s: "same_architecture m m0" by (elim exE conjE)
  from same_architecture_trans [OF same_architecture_mode s] i
  show ?case by (intro exI [of _ cfg] exI [of _ init] exI [of _ m0]) simp
qed

lemma forward_cong:
  assumes "encoder m' = encoder m" "decoder m' = decoder m" "fc_bias m' = fc_bias m"
    "pos_enc m' = pos_enc m" "sqrt_dmodel m' = sqrt_dmodel m" "dropout_p m' = dropout_p m"
    "storage m' (embeddings_weight m') = storage m (embeddings_weight m)"
    "storage m' (fc_weight m') = storage m (fc_weight m)"
  shows "forward (m'\<lparr>training := b\<rparr>) rng src tgt msk = forward (m\<lparr>training := b\<rparr>) rng src tgt msk"
proof -
  have s: "scaled_embeddings (m'\<lparr>training := b\<rparr>) ids = scaled_embeddings (m\<lparr>training := b\<rparr>) ids"
    for ids
    by (simp add: scaled_embeddings_def embeddings_forward_def assms)
  have f: "fc_forward (m'\<lparr>training := b\<rparr>) x = fc_forward (m\<lparr>training := b\<rparr>) x" for x
    by (simp add: fc_forward_def assms)
  have e: "encode (m'\<lparr>training := b\<rparr>) rng src msk = encode (m\<lparr>training := b\<rparr>) rng src msk"
    unfolding encode_def s by (simp add: assms)
  have d: "decode (m'\<lparr>training := b\<rparr>) rng mem tgt mk = decode (m\<lparr>training := b\<rparr>) rng mem tgt mk"
    for mem and mk :: "'a tensor option"
    unfolding decode_def s f by (simp add: assms)
  show ?thesis unfolding forward_def e d by (rule refl)
qed

lemma round_trip:
  assumes c: "constructed m"
    and p: "save_path = [] \<or> is_dir fs save_path"
    "\<not> is_dir fs (path_join save_path ''model.pt'')"
    "\<not> is_dir fs (path_join save_path ''config.json'')"
  shows "\<exists>fs' m'. save_pretrained m save_path fs = Inr fs' \<and>
           from_pretrained save_path init fs' = Inr m' \<and> same_architecture m' m \<and>
           encoder m' = encoder m \<and> decoder m' = decoder m \<and> fc_bias m' = fc_bias m \<and>
           storage m' (embeddings_weight m') = storage m (embeddings_weight m) \<and>
           storage m' (fc_weight m') = storage m (fc_weight m)"
proof -
  from constructed_architecture [OF c] obtain cfg init0 m0 where
    i: "Transformer_init cfg init0 = Inr m0" and s: "same_architecture m m0"
    by (elim exE conjE)
  from Transformer_init_well_shaped [OF i] have "config m0 = cfg" by simp
  with same_architectureD(1) [OF s] have cfg: "config m = cfg" by simp
  from both_Inr [OF Transformer_init_both i, of init]
  obtain m1 where i1: "Transformer_init cfg init = Inr m1" and s1: "same_architecture m0 m1"
    by (elim exE conjE)
  have s2: "same_architecture m1 m"
    by (rule same_architecture_sym [OF same_architecture_trans [OF s s1]])
  from load_state_dict_saved [OF s2]
  obtain m' where l: "load_state_dict m1 (state_dict m) = Inr m'"
    and r: "same_architecture m' m" "encoder m' = encoder m" "decoder m' = decoder m"
    "fc_bias m' = fc_bias m" "storage m' (embeddings_weight m') = storage m (embeddings_weight m)"
    "storage m' (fc_weight m') = storage m (fc_weight m)"
    by (elim exE conjE)
  from save_pretrained_ok [OF p, of m]
  obtain fs' where sv: "save_pretrained m save_path fs = Inr fs'"
    and j: "json_load (path_join save_path ''config.json'') fs' = Inr (asdict (config m))"
    and t: "torch_load (path_join save_path ''model.pt'') fs' = Inr (state_dict m)"
    by (elim exE conjE)
  have "from_pretrained save_path init fs' = Inr m'"
    by (simp add: from_pretrained_def j t TransformerConfig_round_trip cfg i1 l)
  with sv r show ?thesis by (intro exI [of _ fs'] exI [of _ m']) simp
qed

text \<open>
  Claim C6. Take a constructed Transformer: one the constructor returned, whose parameters
  may since have been written in place and whose mode may have been switched. Save it
  with \<open>save_pretrained\<close> to a path that is an existing directory (or the empty path,
  the working directory) in which \<open>model.pt\<close> and \<open>config.json\<close> are not directories.
  Then \<open>save_pretrained\<close> returns, and \<open>from_pretrained\<close> on the same path returns a
  model, whatever the initial values \<open>init\<close> its constructor draws. The loaded model has
  the same config and the same state dictionary (every key with the same tensor), and in
  one mode and with the same dropout draws (none being read in evaluation mode) its
  \<open>forward\<close> gives the same result on every input.
\<close>

theorem persistence_round_trip:
  "constructed m \<and> (save_path = [] \<or> is_dir fs save_path) \<and>
   \<not> is_dir fs (path_join save_path ''model.pt'') \<and>
   \<not> is_dir fs (path_join save_path ''config.json'') \<longrightarrow>
   (\<exists>fs' m'. save_pretrained m save_path fs = Inr fs' \<and>
      from_pretrained save_path init fs' = Inr m' \<and>
      config m' = config m \<and> state_dict m' = state_dict m \<and>
      (\<forall>b rng src tgt msk.
         forward (m'\<lparr>training := b\<rparr>) rng src tgt (msk :: 'm::zero tensor option) =
         forward (m\<lparr>training := b\<rparr>) rng src tgt msk))"
proof
  assume a: "constructed m \<and> (save_path = [] \<or> is_dir fs save_path) \<and>
   \<not> is_dir fs (path_join save_path ''model.pt'') \<and>
   \<not> is_dir fs (path_join save_path ''config.json'')"
  then have c: "constructed m" and p: "save_path = [] \<or> is_dir fs save_path"
    "\<not> is_dir fs (path_join save_path ''model.pt'')"
    "\<not> is_dir fs (path_join save_path ''config.json'')" by simp_all
  from round_trip [OF c p, of init]
  obtain fs' m' where sv: "save_pretrained m save_path fs = Inr fs'"
    and ld: "from_pretrained save_path init fs' = Inr m'"
    and sa: "same_architecture m' m"
    and r: "encoder m' = encoder m" "decoder m' = decoder m" "fc_bias m' = fc_bias m"
    "storage m' (embeddings_weight m') = storage m (embeddings_weight m)"
    "storage m' (fc_weight m') = storage m (fc_weight m)"
    by (elim exE conjE)
  note d = same_architectureD [OF sa]
  have sd: "state_dict m' = state_dict m"
    by (simp add: state_dict_def r)
  have fw: "forward (m'\<lparr>training := b\<rparr>) rng src tgt msk = forward (m\<lparr>training := b\<rparr>) rng src tgt msk"
    for b rng src tgt and msk :: "'m tensor option"
    by (rule forward_cong [OF r(1,2,3) d(2,5,6) r(4,5)])
  show "\<exists>fs' m'. save_pretrained m save_path fs = Inr fs' \<and>
      from_pretrained save_path init fs' = Inr m' \<and>
      config m' = config m \<and> state_dict m' = state_dict m \<and>
      (\<forall>b rng src tgt msk.
         forward (m'\<lparr>training := b\<rparr>) rng src tgt (msk :: 'm tensor option) =
         forward (m\<lparr>training := b\<rparr>) rng src tgt msk)"
    by (intro exI [of _ fs'] exI [of _ m'] conjI allI, rule sv, rule ld, rule d(1), rule sd, rule fw)
qed

theorem persistence_round_trip_witness:
  "constructed ((projr (Transformer_init example_config zero_draws))\<lparr>training := False\<rparr>) \<and>
   is_dir \<lparr>is_dir = (\<lambda>p. p = ''ckpt''), files = Map.empty\<rparr> ''ckpt'' \<and>
   (\<exists>fs' m'.
      save_pretrained ((projr (Transformer_init example_config zero_draws))\<lparr>training := False\<rparr>)
        ''ckpt'' \<lparr>is_dir = (\<lambda>p. p = ''ckpt''), files = Map.empty\<rparr> = Inr fs' \<and>
      from_pretrained ''ckpt'' (\<lambda>site idx. 1) fs' = Inr m' \<and>
      config m' = example_config \<and>
      state_dict m' =
        state_dict ((projr (Transformer_init example_config zero_draws))\<lparr>training := False\<rparr>) \<and>
      forward (m'\<lparr>training := False\<rparr>) no_drops (ids_of [[1, 2, 3]]) (ids_of [[0, 4]])
        (None :: real tensor option) =
      forward (projr (Transformer_init example_config zero_draws)\<lparr>training := False\<rparr>) no_drops
        (ids_of [[1, 2, 3]]) (ids_of [[0, 4]]) (None :: real tensor option))"
proof -
  let ?M = "projr (Transformer_init example_config zero_draws)"
  let ?m = "?M\<lparr>training := False\<rparr>"
  let ?fs = "\<lparr>is_dir = (\<lambda>p. p = ''ckpt''), files = Map.empty\<rparr>"
  have M: "Transformer_init example_config zero_draws = Inr ?M" "config ?M = example_config"
    by (rule example_model; simp add: example_config_def)+
  have c: "constructed ?m"
    by (rule constructed.mode, rule constructed.built, rule M(1))
  have d: "is_dir ?fs ''ckpt''" by simp
  have "constructed ?m \<and> (''ckpt'' = [] \<or> is_dir ?fs ''ckpt'') \<and>
      \<not> is_dir ?fs (path_join ''ckpt'' ''model.pt'') \<and>
      \<not> is_dir ?fs (path_join ''ckpt'' ''config.json'')"
    using c by (simp add: path_join_def)
  from persistence_round_trip [where ?'m = real and m = ?m and fs = ?fs and save_path = "''ckpt''"
      and init = "\<lambda>site idx. 1", THEN mp, OF this]
  obtain fs' m' where sv: "save_pretrained ?m ''ckpt'' ?fs = Inr fs'"
    and ld: "from_pretrained ''ckpt'' (\<lambda>site idx. 1) fs' = Inr m'"
    and cf: "config m' = config ?m" and sd: "state_dict m' = state_dict ?m"
    and fw: "\<forall>b rng src tgt msk.
         forward (m'\<lparr>training := b\<rparr>) rng src tgt (msk :: real tensor option) =
         forward (?m\<lparr>training := b\<rparr>) rng src tgt msk"
    by (elim exE conjE)
  have cf': "config m' = example_config" using cf M(2) by simp
  from fw have f: "forward (m'\<lparr>training := False\<rparr>) no_drops (ids_of [[1, 2, 3]]) (ids_of [[0, 4]])
        (None :: real tensor option) =
      forward (?m\<lparr>training := False\<rparr>) no_drops (ids_of [[1, 2, 3]]) (ids_of [[0, 4]]) (None :: real tensor option)"
    by (elim allE) assumption
  have f': "forward (m'\<lparr>training := False\<rparr>) no_drops (ids_of [[1, 2, 3]]) (ids_of [[0, 4]])
        (None :: real tensor option) =
      forward ?m no_drops (ids_of [[1, 2, 3]]) (ids_of [[0, 4]]) (None :: real tensor option)"
    using f by simp
  show ?thesis
    by (intro conjI exI [of _ fs'] exI [of _ m'], rule c, rule d, rule sv, rule ld, rule cf',
        rule sd, rule f')
qed

end
